theory Spec2Isabelle
  imports Complex_Main
begin

section \<open>The tile-grid geocoding and viewport-positioning core of nanobanana-maps\<close>

text \<open>
  This theory embeds the coordinate mathematics of the map viewer:
  \<^item> \<open>latLngToPreciseTileXY\<close> and \<open>preciseTileXYToLatLng\<close> (services/googleMaps),
    the forward and inverse web-Mercator projection;
  \<^item> \<open>getTilesForArea\<close> (services/googleMaps), the grid builder;
  \<^item> \<open>handlePanEnd\<close>, \<open>handleZoomIn\<close> and \<open>handleZoomOut\<close> (App), the pan
    resolver and the zoom steps.

  Number model. A JavaScript \<open>number\<close> is an IEEE-754 double. Here a number that
  holds a coordinate, a pixel length or a fractional tile position is a \<open>real\<close>, and a
  number that holds a count (the grid dimension, the loop counters), a zoom level
  or the result of \<open>Math.floor\<close> is an \<open>int\<close>. The operations are the exact ones:
  \<open>Math.log\<close> is \<open>ln\<close>, \<open>Math.tan\<close> is \<open>tan\<close>, \<open>Math.pow(2, zoom)\<close> is
  \<open>2 powi zoom\<close>. In these definitions \<open>NaN\<close> and the infinities are not
  represented. The forward projection is meaningful for latitudes strictly between
  -90 and 90 degrees, where the cosine of the latitude is positive; outside that
  range \<open>Math.log\<close> receives a non-positive argument (\<open>NaN\<close> or an infinity in
  JavaScript), which \<open>ln\<close> does not mirror, so theorems that depend on the value
  of the projection carry the latitude range as a hypothesis.

  Non-finite numbers. Where a statement depends on what the code does with an
  infinity or \<open>NaN\<close>, or on the zoom and coordinate ranges within which doubles
  hold the tile indices exactly, it is made over a second model of the grid builder,
  \<open>getTilesForArea_js\<close>, whose numbers are reals, infinities or \<open>NaN\<close> and whose
  projection rounds.

  Rounding. The statements about the offset, the pan formula and the layout of the
  grid are about the arithmetic the code writes down, evaluated exactly. Where the
  specification is a tolerance (the round trip through the two projections) or a
  statement depends on the floor of a computed value (the grid after a pan, the keys of
  a grid), the projections are modelled a second time with a relative rounding error
  at every operation, and the statement is proved for all errors of the size IEEE
  doubles allow.
\<close>

subsection \<open>Data model (types.ts)\<close>

record Coordinates =
  lat :: real
  lng :: real

record LocationState = Coordinates +
  zoom :: int

record MapTile =
  url :: string
  gridX :: int
  gridY :: int
  key :: string

text \<open>
  \<open>MapOffset\<close> is \<open>{ x: number; y: number }\<close>; the anonymous result type of
  \<open>latLngToPreciseTileXY\<close> has the same shape, so one record serves both.
\<close>

record MapOffset =
  x :: real
  y :: real

record MapData =
  tiles :: "MapTile list"
  offset :: MapOffset

text \<open>
  An \<open>async\<close> function returns a promise: it resolves with the value the body
  returns, or rejects with the message of the \<open>Error\<close> the body throws.
\<close>

datatype 'a promise = Resolved 'a | Rejected string

subsection \<open>Configuration (constants.ts)\<close>

definition TILE_SIZE :: real where
  "TILE_SIZE = 256"

definition VISIBLE_GRID_DIMENSION :: int where
  "VISIBLE_GRID_DIMENSION = 3"

definition FETCH_GRID_DIMENSION :: int where
  "FETCH_GRID_DIMENSION = 5"

definition POSITIONING_FACTOR :: real where
  "POSITIONING_FACTOR = 1"

definition MIN_ZOOM :: int where
  "MIN_ZOOM = 1"

definition MAX_ZOOM :: int where
  "MAX_ZOOM = 22"


subsection \<open>Template literals: an integer-valued number as a string\<close>

text \<open>
  \<open>`${n}`\<close> for an integer-valued number \<open>n\<close> is its decimal numeral, with a
  leading minus sign when \<open>n\<close> is negative. This is what JavaScript prints for
  the integers a double holds exactly, those below \<open>2^53\<close> in magnitude.
\<close>

definition digitChar :: "nat \<Rightarrow> char" where
  "digitChar d = ''0123456789'' ! d"

fun natToString :: "nat \<Rightarrow> string" where
  "natToString n =
     (if n < 10 then [digitChar n]
      else natToString (n div 10) @ [digitChar (n mod 10)])"

declare natToString.simps [simp del]

definition numToString :: "int \<Rightarrow> string" where
  "numToString i =
     (if i < 0 then CHR ''-'' # natToString (nat (- i)) else natToString (nat i))"

subsection \<open>Projection (services/googleMaps)\<close>

text \<open>The parameters \<open>lat\<close>, \<open>lng\<close>, \<open>zoom\<close> and \<open>x\<close>, \<open>y\<close> of the source are
  written \<open>lat'\<close>, \<open>lng'\<close>, \<open>z\<close> and \<open>tx\<close>, \<open>ty\<close>.\<close>

definition latLngToPreciseTileXY :: "real \<Rightarrow> real \<Rightarrow> int \<Rightarrow> MapOffset" where
  "latLngToPreciseTileXY lat' lng' z =
     (let n = 2 powi z;
          latRad = (lat' * pi) / 180;
          xtile = n * ((lng' + 180) / 360);
          ytile = n * (1 - ln (tan latRad + 1 / cos latRad) / pi) / 2
      in \<lparr>x = xtile, y = ytile\<rparr>)"

definition preciseTileXYToLatLng :: "real \<Rightarrow> real \<Rightarrow> int \<Rightarrow> Coordinates" where
  "preciseTileXYToLatLng tx ty z =
     (let n = 2 powi z;
          lngDeg = (tx / n) * 360 - 180;
          latRad = arctan (sinh (pi * (1 - (2 * ty) / n)));
          latDeg = (latRad * 180) / pi
      in \<lparr>lat = latDeg, lng = lngDeg\<rparr>)"

subsection \<open>Projection, with the rounding of every operation made explicit\<close>

text \<open>
  The two projection functions once more, operation by operation as the source has
  them, but every arithmetic operation, every call of a \<open>Math\<close> function and the
  constant \<open>Math.PI\<close> delivers its exact value times \<open>1 + e i\<close>, where \<open>i\<close>
  numbers the place in the source and \<open>e i\<close> is the relative rounding error made
  there. This is the standard model of floating-point arithmetic for results in the
  normal range (no underflow or overflow); for IEEE doubles the errors of \<open>+\<close>,
  \<open>-\<close>, \<open>*\<close> and \<open>/\<close> are at most \<open>2^-53\<close> in absolute value, and one unit in
  the last place of a library function is at most \<open>2^-52\<close>. \<open>Math.pow(2, zoom)\<close>
  and \<open>Math.PI\<close> are evaluated once per call and have the same value in both
  functions, so they share their places \<open>1\<close> and \<open>0\<close>. With all errors zero these
  are the exact functions above.
\<close>

definition rnd :: "real \<Rightarrow> real \<Rightarrow> real" where
  "rnd e v = v * (1 + e)"

definition latLngToPreciseTileXY_fl :: "(nat \<Rightarrow> real) \<Rightarrow> real \<Rightarrow> real \<Rightarrow> int \<Rightarrow> MapOffset" where
  "latLngToPreciseTileXY_fl e lat' lng' z =
     (let PI = rnd (e 0) pi;
          n = rnd (e 1) (2 powi z);
          latRad = rnd (e 3) (rnd (e 2) (lat' * PI) / 180);
          xtile = rnd (e 6) (n * rnd (e 5) (rnd (e 4) (lng' + 180) / 360));
          ytile = rnd (e 15) (rnd (e 14) (n * rnd (e 13) (1 -
                    rnd (e 12) (rnd (e 11) (ln (rnd (e 10)
                      (rnd (e 7) (tan latRad) + rnd (e 9) (1 / rnd (e 8) (cos latRad))))) / PI))) / 2)
      in \<lparr>x = xtile, y = ytile\<rparr>)"

definition preciseTileXYToLatLng_fl :: "(nat \<Rightarrow> real) \<Rightarrow> real \<Rightarrow> real \<Rightarrow> int \<Rightarrow> Coordinates" where
  "preciseTileXYToLatLng_fl e tx ty z =
     (let PI = rnd (e 0) pi;
          n = rnd (e 1) (2 powi z);
          lngDeg = rnd (e 18) (rnd (e 17) (rnd (e 16) (tx / n) * 360) - 180);
          latRad = rnd (e 24) (arctan (rnd (e 23) (sinh (rnd (e 22) (PI *
                     rnd (e 21) (1 - rnd (e 20) (rnd (e 19) (2 * ty) / n)))))));
          latDeg = rnd (e 26) (rnd (e 25) (latRad * 180) / PI)
      in \<lparr>lat = latDeg, lng = lngDeg\<rparr>)"

subsection \<open>Grid builder (services/googleMaps)\<close>

text \<open>
  The parameter \<open>zoom\<close> of the source is written \<open>z\<close> here, the local
  \<open>tiles\<close> is written \<open>acc\<close> and the local \<open>url\<close> is written \<open>u\<close>, since
  \<open>zoom\<close>, \<open>tiles\<close> and \<open>url\<close> name record fields; \<open>console.log\<close> is
  left out. The two template literals of the loop body:
\<close>

definition tileUrl :: "int \<Rightarrow> int \<Rightarrow> int \<Rightarrow> string \<Rightarrow> string \<Rightarrow> string" where
  "tileUrl z tileX tileY sessionToken apiKey =
     ''https://tile.googleapis.com/v1/2dtiles/'' @ numToString z @ ''/'' @
     numToString tileX @ ''/'' @ numToString tileY @
     ''?session='' @ sessionToken @ ''&key='' @ apiKey"

definition tileKey :: "int \<Rightarrow> int \<Rightarrow> int \<Rightarrow> string" where
  "tileKey z tileX tileY =
     numToString z @ ''-'' @ numToString tileX @ ''-'' @ numToString tileY"

text \<open>
  The inner loop \<open>for (let j = 0; j < gridDimension; j++)\<close>, from the current
  \<open>j\<close>, pushing one tile per iteration.
\<close>

function innerLoop ::
  "int \<Rightarrow> int \<Rightarrow> string \<Rightarrow> string \<Rightarrow> int \<Rightarrow> int \<Rightarrow> int \<Rightarrow> int \<Rightarrow> MapTile list \<Rightarrow> MapTile list"
where
  "innerLoop z gridDimension sessionToken apiKey startX startY i j acc =
     (if j < gridDimension then
        (let tileX = startX + j;
             tileY = startY + i;
             u = tileUrl z tileX tileY sessionToken apiKey
         in innerLoop z gridDimension sessionToken apiKey startX startY i (j + 1)
              (acc @ [\<lparr>url = u, gridX = j, gridY = i, key = tileKey z tileX tileY\<rparr>]))
      else acc)"
  by pat_completeness auto
termination
  by (relation "measure (\<lambda>(z, gridDimension, sessionToken, apiKey, startX, startY, i, j, acc).
        nat (gridDimension - j))") auto

declare innerLoop.simps [simp del]

text \<open>The outer loop \<open>for (let i = 0; i < gridDimension; i++)\<close>, from the current \<open>i\<close>.\<close>

function outerLoop ::
  "int \<Rightarrow> int \<Rightarrow> string \<Rightarrow> string \<Rightarrow> int \<Rightarrow> int \<Rightarrow> int \<Rightarrow> MapTile list \<Rightarrow> MapTile list"
where
  "outerLoop z gridDimension sessionToken apiKey startX startY i acc =
     (if i < gridDimension then
        outerLoop z gridDimension sessionToken apiKey startX startY (i + 1)
          (innerLoop z gridDimension sessionToken apiKey startX startY i 0 acc)
      else acc)"
  by pat_completeness auto
termination
  by (relation "measure (\<lambda>(z, gridDimension, sessionToken, apiKey, startX, startY, i, acc).
        nat (gridDimension - i))") auto

declare outerLoop.simps [simp del]

definition getTilesForArea ::
  "Coordinates \<Rightarrow> int \<Rightarrow> int \<Rightarrow> string \<Rightarrow> string \<Rightarrow> MapData promise"
where
  "getTilesForArea center z gridDimension sessionToken apiKey =
     (let preciseCenter = latLngToPreciseTileXY (lat center) (lng center) z;
          integerCenterX = \<lfloor>x preciseCenter\<rfloor>;
          integerCenterY = \<lfloor>y preciseCenter\<rfloor>;
          halfGrid = \<lfloor>real_of_int gridDimension / 2\<rfloor>;
          startX = integerCenterX - halfGrid;
          startY = integerCenterY - halfGrid;
          acc = outerLoop z gridDimension sessionToken apiKey startX startY 0 [];
          step = TILE_SIZE * POSITIONING_FACTOR;
          targetPixelInGridX = (x preciseCenter - real_of_int startX) * TILE_SIZE;
          targetPixelInGridY = (y preciseCenter - real_of_int startY) * TILE_SIZE;
          viewportWidth = real_of_int (VISIBLE_GRID_DIMENSION - 1) * step + TILE_SIZE;
          viewportHeight = real_of_int (VISIBLE_GRID_DIMENSION - 1) * step + TILE_SIZE;
          viewportCenterX = viewportWidth / 2;
          viewportCenterY = viewportHeight / 2;
          finalTranslateX = viewportCenterX - targetPixelInGridX;
          finalTranslateY = viewportCenterY - targetPixelInGridY
      in Resolved \<lparr>tiles = acc, offset = \<lparr>x = finalTranslateX, y = finalTranslateY\<rparr>\<rparr>)"

subsection \<open>Pan resolver and zoom steps (App)\<close>

text \<open>
  \<open>handlePanEnd\<close> reads the \<open>location\<close> state and either returns at once or calls
  \<open>setLocation\<close>; the model maps the state before the call to the state after it.
\<close>

definition handlePanEnd :: "LocationState \<Rightarrow> real \<Rightarrow> real \<Rightarrow> LocationState" where
  "handlePanEnd location panX panY =
     (if panX = 0 \<and> panY = 0 then location
      else
        (let currentTileXY = latLngToPreciseTileXY (lat location) (lng location) (zoom location);
             newTileX = x currentTileXY - panX / TILE_SIZE;
             newTileY = y currentTileXY - panY / TILE_SIZE;
             newLatLng = preciseTileXYToLatLng newTileX newTileY (zoom location)
         in \<lparr>lat = lat newLatLng, lng = lng newLatLng, zoom = zoom location\<rparr>))"

definition handleZoomIn :: "LocationState \<Rightarrow> LocationState" where
  "handleZoomIn location =
     (let newZoom = min (zoom location + 1) MAX_ZOOM
      in if newZoom \<noteq> zoom location then location\<lparr>zoom := newZoom\<rparr> else location)"

definition handleZoomOut :: "LocationState \<Rightarrow> LocationState" where
  "handleZoomOut location =
     (let newZoom = max (zoom location - 1) MIN_ZOOM
      in if newZoom \<noteq> zoom location then location\<lparr>zoom := newZoom\<rparr> else location)"

subsection \<open>The grid builder over numbers that may be non-finite\<close>

text \<open>
  At the poles and beyond them the forward projection leaves the finite numbers:
  \<open>Math.log\<close> returns \<open>-Infinity\<close> at zero and \<open>NaN\<close> below zero, and the
  non-finite tile row then passes through \<open>Math.floor\<close>, the subtraction of the half
  grid, the additions of the loop counters and the template literals of the url and the
  key. To follow the code there, a number is modelled once more, as a \<open>jsnum\<close>: a
  real number, one of the two infinities, or \<open>NaN\<close>, with the IEEE-754 rules for
  the operations the grid builder applies. Zero carries no sign in this model: a
  non-zero number divided by zero is the infinity with the sign of the dividend.
  \<open>Math.tan\<close> is the quotient of sine and cosine, so it is an infinity where the
  cosine vanishes. \<open>jsToString\<close> is the conversion a template literal applies, for
  the three non-finite values and for integers below \<open>2^53\<close> in magnitude, which
  print as decimal numerals.

  The projection \<open>latLngToPreciseTileXY_js\<close> makes the rounding errors of
  \<open>latLngToPreciseTileXY_fl\<close>, at the same places; rounding leaves a non-finite
  value as it is. The inputs are finite. \<open>getTilesForArea_js\<close> is
  \<open>getTilesForArea\<close> line by line over these numbers; its arithmetic on tile
  indices and loop counters is exact, as it is in doubles for integers below
  \<open>2^53\<close> in magnitude.
\<close>

datatype jsnum = Fin real | PosInf | NegInf | NaN

text \<open>Negation, addition, subtraction, multiplication and division.\<close>

fun jsNeg :: "jsnum \<Rightarrow> jsnum" where
  "jsNeg (Fin a) = Fin (- a)"
| "jsNeg PosInf = NegInf"
| "jsNeg NegInf = PosInf"
| "jsNeg NaN = NaN"

fun jsAdd :: "jsnum \<Rightarrow> jsnum \<Rightarrow> jsnum" where
  "jsAdd (Fin a) (Fin b) = Fin (a + b)"
| "jsAdd NaN _ = NaN"
| "jsAdd _ NaN = NaN"
| "jsAdd PosInf NegInf = NaN"
| "jsAdd NegInf PosInf = NaN"
| "jsAdd PosInf _ = PosInf"
| "jsAdd _ PosInf = PosInf"
| "jsAdd NegInf _ = NegInf"
| "jsAdd _ NegInf = NegInf"

definition jsSub :: "jsnum \<Rightarrow> jsnum \<Rightarrow> jsnum" where
  "jsSub a b = jsAdd a (jsNeg b)"

fun jsMul :: "jsnum \<Rightarrow> jsnum \<Rightarrow> jsnum" where
  "jsMul (Fin a) (Fin b) = Fin (a * b)"
| "jsMul NaN _ = NaN"
| "jsMul _ NaN = NaN"
| "jsMul (Fin a) PosInf = (if a = 0 then NaN else if 0 < a then PosInf else NegInf)"
| "jsMul (Fin a) NegInf = (if a = 0 then NaN else if 0 < a then NegInf else PosInf)"
| "jsMul PosInf (Fin b) = (if b = 0 then NaN else if 0 < b then PosInf else NegInf)"
| "jsMul NegInf (Fin b) = (if b = 0 then NaN else if 0 < b then NegInf else PosInf)"
| "jsMul PosInf PosInf = PosInf"
| "jsMul NegInf NegInf = PosInf"
| "jsMul PosInf NegInf = NegInf"
| "jsMul NegInf PosInf = NegInf"

fun jsDiv :: "jsnum \<Rightarrow> jsnum \<Rightarrow> jsnum" where
  "jsDiv (Fin a) (Fin b) =
     (if b = 0 then (if a = 0 then NaN else if 0 < a then PosInf else NegInf) else Fin (a / b))"
| "jsDiv NaN _ = NaN"
| "jsDiv _ NaN = NaN"
| "jsDiv (Fin a) _ = Fin 0"
| "jsDiv PosInf (Fin b) = (if 0 \<le> b then PosInf else NegInf)"
| "jsDiv NegInf (Fin b) = (if 0 \<le> b then NegInf else PosInf)"
| "jsDiv _ _ = NaN"

text \<open>\<open>Math.floor\<close>, \<open>Math.log\<close> and \<open>Math.tan\<close>.\<close>

fun jsFloor :: "jsnum \<Rightarrow> jsnum" where
  "jsFloor (Fin a) = Fin (of_int \<lfloor>a\<rfloor>)"
| "jsFloor v = v"

fun jsLog :: "jsnum \<Rightarrow> jsnum" where
  "jsLog (Fin a) = (if a < 0 then NaN else if a = 0 then NegInf else Fin (ln a))"
| "jsLog PosInf = PosInf"
| "jsLog v = NaN"

definition jsTan :: "real \<Rightarrow> jsnum" where
  "jsTan r = jsDiv (Fin (sin r)) (Fin (cos r))"

text \<open>A number in a template literal.\<close>

fun jsToString :: "jsnum \<Rightarrow> string" where
  "jsToString (Fin a) = numToString \<lfloor>a\<rfloor>"
| "jsToString PosInf = ''Infinity''"
| "jsToString NegInf = ''-Infinity''"
| "jsToString NaN = ''NaN''"

text \<open>Rounding with the relative error \<open>e\<close>.\<close>

fun jsRnd :: "real \<Rightarrow> jsnum \<Rightarrow> jsnum" where
  "jsRnd e (Fin a) = Fin (rnd e a)"
| "jsRnd e v = v"

text \<open>The result types, with numbers that may be non-finite.\<close>

record MapOffset_js =
  x_js :: jsnum
  y_js :: jsnum

record MapData_js =
  tiles_js :: "MapTile list"
  offset_js :: MapOffset_js

text \<open>
  The forward projection. The x coordinate and the latitude in radians are finite
  for finite inputs; the y coordinate goes through \<open>Math.tan\<close>, a division and
  \<open>Math.log\<close>.
\<close>

definition latLngToPreciseTileXY_js :: "(nat \<Rightarrow> real) \<Rightarrow> real \<Rightarrow> real \<Rightarrow> int \<Rightarrow> MapOffset_js" where
  "latLngToPreciseTileXY_js e lat' lng' z =
     (let PI = rnd (e 0) pi;
          n = rnd (e 1) (2 powi z);
          latRad = rnd (e 3) (rnd (e 2) (lat' * PI) / 180);
          xtile = Fin (rnd (e 6) (n * rnd (e 5) (rnd (e 4) (lng' + 180) / 360)));
          ytile = jsRnd (e 15) (jsDiv (jsRnd (e 14) (jsMul (Fin n) (jsRnd (e 13) (jsSub (Fin 1)
                    (jsRnd (e 12) (jsDiv (jsRnd (e 11) (jsLog (jsRnd (e 10)
                      (jsAdd (jsRnd (e 7) (jsTan latRad))
                             (jsRnd (e 9) (jsDiv (Fin 1) (Fin (rnd (e 8) (cos latRad)))))))))
                       (Fin PI))))))) (Fin 2))
      in \<lparr>x_js = xtile, y_js = ytile\<rparr>)"

text \<open>The two template literals of the loop body, the two loops and the grid builder.\<close>

definition tileUrl_js :: "int \<Rightarrow> jsnum \<Rightarrow> jsnum \<Rightarrow> string \<Rightarrow> string \<Rightarrow> string" where
  "tileUrl_js z tileX tileY sessionToken apiKey =
     ''https://tile.googleapis.com/v1/2dtiles/'' @ numToString z @ ''/'' @
     jsToString tileX @ ''/'' @ jsToString tileY @
     ''?session='' @ sessionToken @ ''&key='' @ apiKey"

definition tileKey_js :: "int \<Rightarrow> jsnum \<Rightarrow> jsnum \<Rightarrow> string" where
  "tileKey_js z tileX tileY =
     numToString z @ ''-'' @ jsToString tileX @ ''-'' @ jsToString tileY"

function innerLoop_js ::
  "int \<Rightarrow> int \<Rightarrow> string \<Rightarrow> string \<Rightarrow> jsnum \<Rightarrow> jsnum \<Rightarrow> int \<Rightarrow> int \<Rightarrow> MapTile list \<Rightarrow> MapTile list"
where
  "innerLoop_js z gridDimension sessionToken apiKey startX startY i j acc =
     (if j < gridDimension then
        (let tileX = jsAdd startX (Fin (real_of_int j));
             tileY = jsAdd startY (Fin (real_of_int i));
             u = tileUrl_js z tileX tileY sessionToken apiKey
         in innerLoop_js z gridDimension sessionToken apiKey startX startY i (j + 1)
              (acc @ [\<lparr>url = u, gridX = j, gridY = i, key = tileKey_js z tileX tileY\<rparr>]))
      else acc)"
  by pat_completeness auto
termination
  by (relation "measure (\<lambda>(z, gridDimension, sessionToken, apiKey, startX, startY, i, j, acc).
        nat (gridDimension - j))") auto

declare innerLoop_js.simps [simp del]

function outerLoop_js ::
  "int \<Rightarrow> int \<Rightarrow> string \<Rightarrow> string \<Rightarrow> jsnum \<Rightarrow> jsnum \<Rightarrow> int \<Rightarrow> MapTile list \<Rightarrow> MapTile list"
where
  "outerLoop_js z gridDimension sessionToken apiKey startX startY i acc =
     (if i < gridDimension then
        outerLoop_js z gridDimension sessionToken apiKey startX startY (i + 1)
          (innerLoop_js z gridDimension sessionToken apiKey startX startY i 0 acc)
      else acc)"
  by pat_completeness auto
termination
  by (relation "measure (\<lambda>(z, gridDimension, sessionToken, apiKey, startX, startY, i, acc).
        nat (gridDimension - i))") auto

declare outerLoop_js.simps [simp del]

definition getTilesForArea_js ::
  "(nat \<Rightarrow> real) \<Rightarrow> Coordinates \<Rightarrow> int \<Rightarrow> int \<Rightarrow> string \<Rightarrow> string \<Rightarrow> MapData_js promise"
where
  "getTilesForArea_js e center z gridDimension sessionToken apiKey =
     (let preciseCenter = latLngToPreciseTileXY_js e (lat center) (lng center) z;
          integerCenterX = jsFloor (x_js preciseCenter);
          integerCenterY = jsFloor (y_js preciseCenter);
          halfGrid = Fin (real_of_int \<lfloor>real_of_int gridDimension / 2\<rfloor>);
          startX = jsSub integerCenterX halfGrid;
          startY = jsSub integerCenterY halfGrid;
          acc = outerLoop_js z gridDimension sessionToken apiKey startX startY 0 [];
          step = TILE_SIZE * POSITIONING_FACTOR;
          targetPixelInGridX = jsMul (jsSub (x_js preciseCenter) startX) (Fin TILE_SIZE);
          targetPixelInGridY = jsMul (jsSub (y_js preciseCenter) startY) (Fin TILE_SIZE);
          viewportWidth = real_of_int (VISIBLE_GRID_DIMENSION - 1) * step + TILE_SIZE;
          viewportHeight = real_of_int (VISIBLE_GRID_DIMENSION - 1) * step + TILE_SIZE;
          viewportCenterX = viewportWidth / 2;
          viewportCenterY = viewportHeight / 2;
          finalTranslateX = jsSub (Fin viewportCenterX) targetPixelInGridX;
          finalTranslateY = jsSub (Fin viewportCenterY) targetPixelInGridY
      in Resolved \<lparr>tiles_js = acc, offset_js = \<lparr>x_js = finalTranslateX, y_js = finalTranslateY\<rparr>\<rparr>)"

subsection \<open>The pan resolver, with the rounding of every operation made explicit\<close>

text \<open>
  \<open>handlePanEnd\<close> once more, with the rounded projections and a relative rounding
  error at each of its own four operations: the two quotients by \<open>TILE_SIZE\<close>
  (places 27 and 29) and the two subtractions (places 28 and 30).
\<close>

definition handlePanEnd_fl :: "(nat \<Rightarrow> real) \<Rightarrow> LocationState \<Rightarrow> real \<Rightarrow> real \<Rightarrow> LocationState" where
  "handlePanEnd_fl e location panX panY =
     (if panX = 0 \<and> panY = 0 then location
      else
        (let currentTileXY = latLngToPreciseTileXY_fl e (lat location) (lng location) (zoom location);
             newTileX = rnd (e 28) (x currentTileXY - rnd (e 27) (panX / TILE_SIZE));
             newTileY = rnd (e 30) (y currentTileXY - rnd (e 29) (panY / TILE_SIZE));
             newLatLng = preciseTileXYToLatLng_fl e newTileX newTileY (zoom location)
         in \<lparr>lat = lat newLatLng, lng = lng newLatLng, zoom = zoom location\<rparr>))"

section \<open>Auxiliary definitions for the statements\<close>

text \<open>
  Nothing below is code of the repository. \<open>tileAt\<close> and \<open>rowMajor\<close> write down
  the grid the specification describes (one cell per row and column, rows first), to
  be compared with what the two loops build; \<open>isDigit\<close>, \<open>digitVal\<close> and
  \<open>readNat\<close> read a decimal numeral back, to show that distinct tiles get distinct
  keys; \<open>near\<close> measures relative rounding errors.
\<close>

text \<open>The cell at row \<open>i\<close>, column \<open>j\<close> of a grid whose top-left tile is \<open>(startX, startY)\<close>.\<close>

definition tileAt :: "int \<Rightarrow> string \<Rightarrow> string \<Rightarrow> int \<Rightarrow> int \<Rightarrow> int \<Rightarrow> int \<Rightarrow> MapTile" where
  "tileAt z sessionToken apiKey startX startY i j =
     \<lparr>url = tileUrl z (startX + j) (startY + i) sessionToken apiKey,
      gridX = j, gridY = i,
      key = tileKey z (startX + j) (startY + i)\<rparr>"

text \<open>Row-major enumeration: rows \<open>0 .. n - 1\<close>, and within each row columns \<open>0 .. n - 1\<close>.\<close>

definition rowMajor :: "int \<Rightarrow> (int \<times> int) list" where
  "rowMajor n = concat (map (\<lambda>i. map (\<lambda>j. (i, j)) [0..n - 1]) [0..n - 1])"

definition isDigit :: "char \<Rightarrow> bool" where
  "isDigit c = (c \<in> set ''0123456789'')"

definition digitVal :: "char \<Rightarrow> nat" where
  "digitVal c = of_char c - 48"

definition readNat :: "string \<Rightarrow> nat" where
  "readNat s = foldl (\<lambda>a c. 10 * a + digitVal c) 0 s"

text \<open>\<open>a\<close> is \<open>b\<close> up to a relative error factor \<open>exp t\<close> with \<open>\<bar>t\<bar> \<le> k\<close>.\<close>

definition near :: "real \<Rightarrow> real \<Rightarrow> real \<Rightarrow> bool" where
  "near k a b = (\<exists>t. \<bar>t\<bar> \<le> k \<and> a = b * exp t)"

text \<open>The cell at row \<open>i\<close>, column \<open>j\<close>, over tile indices that may be non-finite.\<close>

definition tileAt_js :: "int \<Rightarrow> string \<Rightarrow> string \<Rightarrow> jsnum \<Rightarrow> jsnum \<Rightarrow> int \<Rightarrow> int \<Rightarrow> MapTile" where
  "tileAt_js z sessionToken apiKey startX startY i j =
     \<lparr>url = tileUrl_js z (jsAdd startX (Fin (real_of_int j))) (jsAdd startY (Fin (real_of_int i)))
              sessionToken apiKey,
      gridX = j, gridY = i,
      key = tileKey_js z (jsAdd startX (Fin (real_of_int j))) (jsAdd startY (Fin (real_of_int i)))\<rparr>"


text \<open>
  Rounding errors with which the forward projection at latitude \<open>-90\<close> runs into
  \<open>Math.log 0\<close>: \<open>Math.PI\<close> (place 0) is below \<open>pi\<close>, so the latitude in radians
  is just above \<open>- pi / 2\<close> and its cosine is positive and tiny; the tangent
  (place 7) is rounded to the exact opposite of the reciprocal of the cosine, so their
  sum is zero. Every error is at most \<open>2^-53\<close> in absolute value.
\<close>

definition southPoleRounding :: "nat \<Rightarrow> real" where
  "southPoleRounding i =
     (if i = 0 then - (1 / 2 ^ 53) else if i = 7 then 1 / cos (pi / 2 ^ 54) - 1 else 0)"

text \<open>
  Two assignments of rounding errors: every operation exact, and every operation
  exact except \<open>Math.log\<close> (place 11), whose result is one relative error of
  \<open>2^-52\<close> too large.
\<close>

definition noRounding :: "nat \<Rightarrow> real" where
  "noRounding i = 0"

definition logRoundedUp :: "nat \<Rightarrow> real" where
  "logRoundedUp i = (if i = 11 then 1 / 2 ^ 52 else 0)"

section \<open>The loops in closed form\<close>

lemma innerLoop_closed:
  "innerLoop z n st ak sx sy i j acc = acc @ map (tileAt z st ak sx sy i) [j..n - 1]"
proof (induction z n st ak sx sy i j acc rule: innerLoop.induct)
  case (1 z n st ak sx sy i j acc)
  show ?case
  proof (cases "j < n")
    case True
    then have "[j..n - 1] = j # [j + 1..n - 1]"
      by (simp add: upto_rec1)
    with True 1 show ?thesis
      by (subst innerLoop.simps) (simp add: Let_def tileAt_def)
  next
    case False
    then show ?thesis
      by (subst innerLoop.simps) simp
  qed
qed

lemma outerLoop_closed:
  "outerLoop z n st ak sx sy i acc =
     acc @ concat (map (\<lambda>r. map (tileAt z st ak sx sy r) [0..n - 1]) [i..n - 1])"
proof (induction z n st ak sx sy i acc rule: outerLoop.induct)
  case (1 z n st ak sx sy i acc)
  show ?case
  proof (cases "i < n")
    case True
    then have "[i..n - 1] = i # [i + 1..n - 1]"
      by (simp add: upto_rec1)
    with True 1 show ?thesis
      by (subst outerLoop.simps) (simp add: innerLoop_closed)
  next
    case False
    then show ?thesis
      by (subst outerLoop.simps) simp
  qed
qed

lemma outerLoop_rowMajor:
  "outerLoop z n st ak sx sy 0 [] =
     map (\<lambda>(i, j). tileAt z st ak sx sy i j) (rowMajor n)"
  by (simp add: outerLoop_closed rowMajor_def map_concat comp_def)

lemma length_rowMajor: "0 \<le> n \<Longrightarrow> int (length (rowMajor n)) = n * n"
  by (simp add: rowMajor_def length_concat comp_def sum_list_triv)

section \<open>Decimal numerals and keys\<close>

lemma lt10_cases: "d < (10::nat) \<Longrightarrow> d \<in> {0, 1, 2, 3, 4, 5, 6, 7, 8, 9}"
  by auto

lemma digitChar_isDigit: "d < 10 \<Longrightarrow> isDigit (digitChar d)"
  by (drule lt10_cases) (auto simp: digitChar_def isDigit_def)

lemma digitVal_digitChar: "d < 10 \<Longrightarrow> digitVal (digitChar d) = d"
  by (drule lt10_cases) (auto simp: digitChar_def digitVal_def)

lemma minus_not_digit: "\<not> isDigit CHR ''-''"
  by (simp add: isDigit_def)

lemma natToString_digits: "\<forall>c \<in> set (natToString n). isDigit c"
  by (induction n rule: natToString.induct)
     (subst natToString.simps, auto simp: digitChar_isDigit)

lemma natToString_nonempty: "natToString n \<noteq> []"
  by (subst natToString.simps) simp

lemma readNat_snoc: "readNat (s @ [c]) = 10 * readNat s + digitVal c"
  by (simp add: readNat_def)

lemma readNat_natToString: "readNat (natToString n) = n"
proof (induction n rule: natToString.induct)
  case (1 n)
  show ?case
  proof (cases "n < 10")
    case True
    then show ?thesis
      by (subst natToString.simps) (simp add: readNat_def digitVal_digitChar)
  next
    case False
    with 1 show ?thesis
      by (subst natToString.simps) (simp add: readNat_snoc digitVal_digitChar)
  qed
qed

lemma natToString_inj: "natToString m = natToString n \<Longrightarrow> m = n"
  by (metis readNat_natToString)

lemma digits_sep_split:
  assumes "\<forall>c \<in> set ds. isDigit c" "\<forall>c \<in> set es. isDigit c" "\<not> isDigit sep"
    and "ds @ sep # r = es @ sep # r'"
  shows "ds = es \<and> r = r'"
proof -
  have "takeWhile isDigit (ds @ sep # r) = ds" "takeWhile isDigit (es @ sep # r') = es"
    using assms(1-3) by (simp_all add: takeWhile_tail)
  with assms(4) have "ds = es" by simp
  with assms(4) show ?thesis by simp
qed

lemma numToString_sep_split:
  assumes "\<not> isDigit sep" and "numToString a @ sep # r = numToString b @ sep # r'"
  shows "a = b \<and> r = r'"
proof -
  have hd_digit: "isDigit (hd (natToString k))" for k
    using natToString_digits[of k] natToString_nonempty[of k] by (cases "natToString k") auto
  have nn: "hd (natToString k @ s) \<noteq> CHR ''-''" for k s
    using hd_digit[of k] natToString_nonempty[of k] minus_not_digit by (auto simp: hd_append)
  consider (neg) "a < 0" "b < 0" | (pos) "0 \<le> a" "0 \<le> b" | (np) "a < 0" "0 \<le> b" | (pn) "0 \<le> a" "b < 0"
    by linarith
  then show ?thesis
  proof cases
    case neg
    with assms(2) have "natToString (nat (- a)) @ sep # r = natToString (nat (- b)) @ sep # r'"
      by (simp add: numToString_def)
    then have "natToString (nat (- a)) = natToString (nat (- b)) \<and> r = r'"
      using digits_sep_split natToString_digits assms(1) by blast
    with neg show ?thesis by (auto dest: natToString_inj)
  next
    case pos
    with assms(2) have "natToString (nat a) @ sep # r = natToString (nat b) @ sep # r'"
      by (simp add: numToString_def)
    then have "natToString (nat a) = natToString (nat b) \<and> r = r'"
      using digits_sep_split natToString_digits assms(1) by blast
    with pos show ?thesis by (auto dest: natToString_inj)
  next
    case np
    with assms(2) have "CHR ''-'' # natToString (nat (- a)) @ sep # r = natToString (nat b) @ sep # r'"
      by (simp add: numToString_def)
    then have "hd (natToString (nat b) @ sep # r') = CHR ''-''"
      by (metis list.sel(1))
    with nn show ?thesis by blast
  next
    case pn
    with assms(2) have "natToString (nat a) @ sep # r = CHR ''-'' # natToString (nat (- b)) @ sep # r'"
      by (simp add: numToString_def)
    then have "hd (natToString (nat a) @ sep # r) = CHR ''-''"
      by (metis list.sel(1))
    with nn show ?thesis by blast
  qed
qed

lemma numToString_inj: "numToString a = numToString b \<Longrightarrow> a = b"
  using numToString_sep_split[OF minus_not_digit, of a "[]" b "[]"] by simp

lemma tileKey_inj:
  assumes "tileKey z a b = tileKey z a' b'"
  shows "a = a' \<and> b = b'"
proof -
  from assms
  have "numToString a @ CHR ''-'' # numToString b = numToString a' @ CHR ''-'' # numToString b'"
    by (simp add: tileKey_def)
  then have "a = a' \<and> numToString b = numToString b'"
    by (rule numToString_sep_split[OF minus_not_digit])
  then show ?thesis
    by (auto dest: numToString_inj)
qed

lemma distinct_rowMajor: "distinct (rowMajor n)"
proof -
  have "rowMajor n = List.product [0..n - 1] [0..n - 1]"
    by (simp add: rowMajor_def product_concat_map)
  then show ?thesis by (simp add: distinct_product)
qed

lemma distinct_indices: "distinct (map (\<lambda>(i, j). (sx + j, sy + i)) (rowMajor n))"
  by (auto simp: distinct_map distinct_rowMajor inj_on_def)

lemma distinct_keys:
  "distinct (map (\<lambda>(i, j). tileKey z (sx + j) (sy + i)) (rowMajor n))"
  by (auto simp: distinct_map distinct_rowMajor inj_on_def dest!: tileKey_inj)

section \<open>The two projections are inverse to each other\<close>

lemma latRad_range:
  assumes "-90 < la" "la < 90"
  shows "- (pi / 2) < (la * pi) / 180 \<and> (la * pi) / 180 < pi / 2"
proof -
  have "la * pi < 90 * pi"
    using assms by (intro mult_strict_right_mono) simp_all
  moreover have "(- 90) * pi < la * pi"
    using assms by (intro mult_strict_right_mono) simp_all
  ultimately show ?thesis by simp
qed

lemma mercator_arg:
  fixes p :: real
  assumes "0 < cos p"
  shows "0 < tan p + 1 / cos p" and "sinh (ln (tan p + 1 / cos p)) = tan p"
proof -
  let ?c = "cos p" and ?s = "sin p"
  have sc: "?s\<^sup>2 + ?c\<^sup>2 = 1" by simp
  have "?s \<noteq> -1"
  proof
    assume "?s = -1"
    with sc have "?c\<^sup>2 = 0" by simp
    then have "?c = 0" by simp
    with assms show False by linarith
  qed
  moreover have "-1 \<le> ?s" by simp
  ultimately have s1: "0 < 1 + ?s" by linarith
  have u: "tan p + 1 / ?c = (1 + ?s) / ?c"
    by (simp add: tan_def add_divide_distrib)
  show pos: "0 < tan p + 1 / ?c"
    unfolding u using s1 assms by simp
  have "(1 - ?s) * (1 + ?s) = ?c * ?c"
    using sc by (simp add: algebra_simps power2_eq_square)
  then have inv: "?c / (1 + ?s) = (1 - ?s) / ?c"
    using s1 assms by (simp add: field_simps)
  have "sinh (ln ((1 + ?s) / ?c)) = ((1 + ?s) / ?c - ?c / (1 + ?s)) / 2"
    using pos unfolding u by (simp add: sinh_field_def exp_minus inverse_eq_divide)
  also have "\<dots> = ((1 + ?s) / ?c - (1 - ?s) / ?c) / 2"
    by (simp only: inv)
  also have "\<dots> = tan p"
    by (simp add: tan_def diff_divide_distrib[symmetric])
  finally show "sinh (ln (tan p + 1 / ?c)) = tan p"
    unfolding u .
qed

lemma pow2_pos: "0 < (2::real) powi z"
  by simp

lemma inverse_arg: 
  assumes "(n::real) \<noteq> 0"
  shows "pi * (1 - (2 * (n * (1 - L / pi) / 2)) / n) = L"
  using assms by (simp add: field_simps)

lemma forward_arg:
  fixes M :: real
  shows "tan (arctan (sinh M)) + 1 / cos (arctan (sinh M)) = exp M"
proof -
  have "sqrt (1 + (sinh M)\<^sup>2) = cosh M"
    by (metis add.commute cosh_square_eq cosh_real_nonneg real_sqrt_unique)
  then show ?thesis
    by (simp add: tan_arctan cos_arctan sinh_plus_cosh)
qed

lemma cos_latRad_pos:
  assumes "-90 < la" "la < 90"
  shows "0 < cos ((la * pi) / 180)"
  using latRad_range[OF assms] by (intro cos_gt_zero_pi) simp_all

lemma geo_tile_geo:
  assumes "-90 < la" "la < 90"
  shows "preciseTileXYToLatLng (x (latLngToPreciseTileXY la lo z))
           (y (latLngToPreciseTileXY la lo z)) z = \<lparr>lat = la, lng = lo\<rparr>"
proof -
  let ?n = "(2::real) powi z" and ?p = "(la * pi) / 180"
  let ?L = "ln (tan ?p + 1 / cos ?p)"
  have n: "?n \<noteq> 0" by simp
  have xs: "x (latLngToPreciseTileXY la lo z) = ?n * ((lo + 180) / 360)"
    and ys: "y (latLngToPreciseTileXY la lo z) = ?n * (1 - ?L / pi) / 2"
    by (simp_all add: latLngToPreciseTileXY_def Let_def)
  have "(?n * ((lo + 180) / 360) / ?n) * 360 - 180 = lo"
    using n by (simp add: add_divide_distrib)
  moreover have "arctan (sinh (pi * (1 - (2 * (?n * (1 - ?L / pi) / 2)) / ?n))) = ?p"
    using latRad_range[OF assms] mercator_arg(2)[OF cos_latRad_pos[OF assms]]
    by (simp only: inverse_arg[OF n] arctan_tan)
  moreover have "(?p * 180) / pi = la"
    by simp
  ultimately show ?thesis
    unfolding preciseTileXYToLatLng_def Let_def xs ys by simp
qed

lemma tile_geo_tile:
  "latLngToPreciseTileXY (lat (preciseTileXYToLatLng tx ty z))
     (lng (preciseTileXYToLatLng tx ty z)) z = \<lparr>x = tx, y = ty\<rparr>"
proof -
  let ?n = "(2::real) powi z"
  let ?M = "pi * (1 - (2 * ty) / ?n)"
  have n: "?n \<noteq> 0" by simp
  have las: "lat (preciseTileXYToLatLng tx ty z) = (arctan (sinh ?M) * 180) / pi"
    and los: "lng (preciseTileXYToLatLng tx ty z) = (tx / ?n) * 360 - 180"
    by (simp_all add: preciseTileXYToLatLng_def Let_def)
  have rad: "((arctan (sinh ?M) * 180) / pi * pi) / 180 = arctan (sinh ?M)"
    by simp
  have "?n * (((tx / ?n) * 360 - 180 + 180) / 360) = tx"
    using n by simp
  moreover have "?n * (1 - ln (exp ?M) / pi) / 2 = ty"
    using n by (simp add: field_simps)
  ultimately show ?thesis
    unfolding latLngToPreciseTileXY_def Let_def las los rad forward_arg by simp
qed

section \<open>The round trip under rounding\<close>

text \<open>
  Relative errors are carried as factors \<open>exp t\<close>, so that products and quotients
  add their exponents; sums and differences are bounded absolutely. The unit is
  \<open>v = 2^-51\<close>, twice the bound on a single rounding error.
\<close>

lemma ln1p_bound:
  fixes e u :: real
  assumes "\<bar>e\<bar> \<le> u" "u \<le> 1 / 2"
  shows "\<bar>ln (1 + e)\<bar> \<le> 2 * u"
proof -
  have pos: "0 < 1 + e" using assms by linarith
  have up: "ln (1 + e) \<le> e"
    using assms by (intro ln_add_one_self_le_self2) linarith
  have "ln (1 + (- e / (1 + e))) \<le> - e / (1 + e)"
  proof (rule ln_add_one_self_le_self2)
    have "- e / (1 + e) = 1 / (1 + e) - 1" using pos by (simp add: field_simps)
    moreover have "0 < 1 / (1 + e)" using pos by simp
    ultimately show "- 1 < - e / (1 + e)" by linarith
  qed
  moreover have "1 + (- e / (1 + e)) = inverse (1 + e)"
    using pos by (simp add: field_simps)
  ultimately have "- ln (1 + e) \<le> - e / (1 + e)"
    using pos by (simp add: ln_inverse)
  moreover have "- e / (1 + e) \<le> 2 * u"
  proof -
    have "- e \<le> u" using assms by linarith
    have "- e / (1 + e) \<le> u / (1 + e)"
      using pos \<open>- e \<le> u\<close> by (intro divide_right_mono) simp_all
    also have "\<dots> \<le> u / (1 / 2)"
      using assms pos by (intro divide_left_mono) (auto intro: mult_pos_pos)
    finally show ?thesis by simp
  qed
  ultimately show ?thesis using up assms by linarith
qed

lemma exp_m1_bound:
  fixes t :: real
  assumes "\<bar>t\<bar> \<le> 1"
  shows "\<bar>exp t - 1\<bar> \<le> 2 * \<bar>t\<bar>"
proof (cases "0 \<le> t")
  case True
  then have "exp t \<le> 1 + t + t\<^sup>2" using assms by (intro exp_bound) simp_all
  moreover have "t\<^sup>2 \<le> t" using True assms by (simp add: power2_eq_square mult_left_le)
  moreover have "1 \<le> exp t" using True by simp
  ultimately show ?thesis using True by simp
next
  case False
  then have "exp t \<le> 1" by simp
  moreover have "1 + t \<le> exp t" by (rule exp_ge_add_one_self)
  ultimately have "\<bar>exp t - 1\<bar> \<le> - t" by linarith
  then show ?thesis using False by linarith
qed

lemma near_rnd:
  assumes "\<bar>e\<bar> \<le> u" "u \<le> 1 / 2" "near k a b"
  shows "near (k + 2 * u) (rnd e a) b"
proof -
  from assms(3) obtain t where t: "\<bar>t\<bar> \<le> k" "a = b * exp t"
    by (auto simp: near_def)
  have pos: "0 < 1 + e" using assms by linarith
  have "rnd e a = b * exp (t + ln (1 + e))"
    using pos t by (simp add: rnd_def exp_add)
  moreover have "\<bar>t + ln (1 + e)\<bar> \<le> k + 2 * u"
    using ln1p_bound[OF assms(1,2)] t(1) by linarith
  ultimately show ?thesis unfolding near_def by blast
qed

lemma near_refl: "near 0 a a"
  by (simp add: near_def)

lemma near_mult:
  assumes "near k a b" "near l c d"
  shows "near (k + l) (a * c) (b * d)"
proof -
  from assms obtain s t where "\<bar>s\<bar> \<le> k" "a = b * exp s" "\<bar>t\<bar> \<le> l" "c = d * exp t"
    by (auto simp: near_def)
  then have "a * c = (b * d) * exp (s + t)" "\<bar>s + t\<bar> \<le> k + l"
    by (simp_all add: exp_add)
  then show ?thesis unfolding near_def by blast
qed

lemma near_div:
  assumes "near k a b" "near l c d"
  shows "near (k + l) (a / c) (b / d)"
proof -
  from assms obtain s t where "\<bar>s\<bar> \<le> k" "a = b * exp s" "\<bar>t\<bar> \<le> l" "c = d * exp t"
    by (auto simp: near_def)
  then have "a / c = (b / d) * exp (s - t)" "\<bar>s - t\<bar> \<le> k + l"
    by (simp_all add: exp_diff)
  then show ?thesis unfolding near_def by blast
qed

lemma near_err:
  assumes "near k a b" "k \<le> 1"
  shows "\<bar>a - b\<bar> \<le> 2 * k * \<bar>b\<bar>"
proof -
  from assms obtain t where t: "\<bar>t\<bar> \<le> k" "a = b * exp t"
    by (auto simp: near_def)
  have "a - b = b * (exp t - 1)" using t by (simp add: algebra_simps)
  then have "\<bar>a - b\<bar> = \<bar>b\<bar> * \<bar>exp t - 1\<bar>" by (simp add: abs_mult)
  also have "\<dots> \<le> \<bar>b\<bar> * (2 * k)"
    using exp_m1_bound[of t] t(1) assms(2) by (intro mult_left_mono) linarith+
  finally show ?thesis by (simp add: algebra_simps)
qed

lemma near_weaken: "near k a b \<Longrightarrow> k \<le> l \<Longrightarrow> near l a b"
  unfolding near_def by (auto intro: order_trans)

lemma pi_ge_3: "3 \<le> pi"
proof -
  have "sin (pi / 6) \<le> pi / 6" by (intro sin_x_le_x) simp
  then show ?thesis by (simp add: sin_30)
qed

lemma lipschitz_deriv:
  fixes f :: "real \<Rightarrow> real"
  assumes d: "\<And>x. (f has_real_derivative f' x) (at x)" and b: "\<And>x. \<bar>f' x\<bar> \<le> K"
  shows "\<bar>f a - f b\<bar> \<le> K * \<bar>a - b\<bar>"
proof -
  have aux: "\<bar>f q - f p\<bar> \<le> K * \<bar>q - p\<bar>" if "p < q" for p q
  proof -
    from MVT2[OF that, of f f'] d obtain z where "f q - f p = (q - p) * f' z" by blast
    then have "\<bar>f q - f p\<bar> = \<bar>q - p\<bar> * \<bar>f' z\<bar>" by (simp add: abs_mult)
    also have "\<dots> \<le> \<bar>q - p\<bar> * K" using b by (intro mult_left_mono) simp_all
    finally show ?thesis by (simp add: mult.commute)
  qed
  consider "a < b" | "a = b" | "b < a" by linarith
  then show ?thesis
  proof cases
    case 1 from aux[OF 1] show ?thesis by (simp add: abs_minus_commute)
  next
    case 2 then show ?thesis by simp
  next
    case 3 from aux[OF 3] show ?thesis by simp
  qed
qed

lemma gd_lipschitz: "\<bar>arctan (sinh a) - arctan (sinh b)\<bar> \<le> \<bar>a - b\<bar>"
proof -
  have d: "((\<lambda>x. arctan (sinh x)) has_real_derivative inverse (cosh x)) (at x)" for x :: real
  proof -
    have "1 + (sinh x)\<^sup>2 = (cosh x)\<^sup>2" by (simp add: cosh_square_eq)
    then have e: "inverse (1 + (sinh x)\<^sup>2) * cosh x = inverse (cosh x)"
      by (simp add: power2_eq_square field_simps)
    show ?thesis
      by (rule derivative_eq_intros refl | simp add: e)+
  qed
  have b: "\<bar>inverse (cosh x)\<bar> \<le> 1" for x :: real
    using cosh_real_ge_1[of x] by (simp add: field_simps)
  from lipschitz_deriv[of "\<lambda>x. arctan (sinh x)" "\<lambda>x. inverse (cosh x)" 1 a b, OF d b]
  show ?thesis by simp
qed

lemma arctan_scale_lipschitz: "\<bar>arctan (c * exp t) - arctan c\<bar> \<le> \<bar>t\<bar>"
proof -
  have d: "((\<lambda>s. arctan (c * exp s)) has_real_derivative (c * exp s) * inverse (1 + (c * exp s)\<^sup>2)) (at s)" for s :: real
    by (rule derivative_eq_intros refl | simp)+
  have b: "\<bar>(c * exp s) * inverse (1 + (c * exp s)\<^sup>2)\<bar> \<le> 1" for s :: real
  proof -
    define w where "w = c * exp s"
    have "0 \<le> (1 - \<bar>w\<bar>)\<^sup>2" by simp
    then have "2 * \<bar>w\<bar> \<le> 1 + w\<^sup>2" by (simp add: power2_eq_square algebra_simps)
    then have "\<bar>w\<bar> \<le> 1 + w\<^sup>2" by linarith
    moreover have "0 < 1 + w\<^sup>2" by (simp add: add_pos_nonneg)
    ultimately have "\<bar>w\<bar> / (1 + w\<^sup>2) \<le> 1" by (simp add: field_simps)
    then show ?thesis unfolding w_def[symmetric] by (simp add: abs_mult divide_inverse)
  qed
  from lipschitz_deriv[of "\<lambda>s. arctan (c * exp s)" _ 1 t 0, OF d b]
  show ?thesis by simp
qed

lemma near_rnd':
  assumes "near k a b" "\<bar>e\<bar> \<le> 1 / 2 ^ 52" "k + 1 / 2 ^ 51 \<le> l"
  shows "near l (rnd e a) b"
  using near_weaken[OF near_rnd[OF assms(2) _ assms(1)] ] assms(3) by simp

lemma near_cancel_left:
  assumes "near k a (n * c)" "near l m n" "n \<noteq> 0"
  shows "near (k + l) (a / m) c"
  using near_div[OF assms(1,2)] assms(3) by simp

lemma lng_round_trip_fl:
  assumes e: "\<And>i. \<bar>e i\<bar> \<le> 1 / 2 ^ 52" and lo: "\<bar>lo\<bar> \<le> 180"
  shows "\<bar>lng (preciseTileXYToLatLng_fl e (x (latLngToPreciseTileXY_fl e la lo z)) ty z) - lo\<bar>
           \<le> 1 / 10 ^ 9"
proof -
  define v :: real where "v = 1 / 2 ^ 51"
  define n where "n = rnd (e 1) (2 powi z)"
  define a1 where "a1 = rnd (e 4) (lo + 180)"
  define a2 where "a2 = rnd (e 5) (a1 / 360)"
  define X where "X = rnd (e 6) (n * a2)"
  define b1 where "b1 = rnd (e 16) (X / n)"
  define b2 where "b2 = rnd (e 17) (b1 * 360)"
  have n0: "n \<noteq> 0"
  proof -
    have "0 < 1 + e 1" using e[of 1] by (simp add: abs_le_iff)
    then show ?thesis by (simp add: n_def rnd_def)
  qed
  have A1: "near v a1 (lo + 180)"
    unfolding a1_def by (rule near_rnd'[OF near_refl e]) (simp add: v_def)
  have "near v (a1 / 360) ((lo + 180) / 360)"
    using near_div[OF A1 near_refl[of 360]] by simp
  then have A2: "near (2 * v) a2 ((lo + 180) / 360)"
    unfolding a2_def by (rule near_rnd'[OF _ e]) (simp add: v_def)
  have "near (2 * v) (n * a2) (n * ((lo + 180) / 360))"
    using near_mult[OF near_refl[of n] A2] by simp
  then have A3: "near (3 * v) X (n * ((lo + 180) / 360))"
    unfolding X_def by (rule near_rnd'[OF _ e]) (simp add: v_def)
  have "near (3 * v) (X / n) ((lo + 180) / 360)"
    using near_cancel_left[OF A3 near_refl n0] by simp
  then have B1: "near (4 * v) b1 ((lo + 180) / 360)"
    unfolding b1_def by (rule near_rnd'[OF _ e]) (simp add: v_def)
  have "(lo + 180) / 360 * 360 = lo + 180" by simp
  then have "near (4 * v) (b1 * 360) (lo + 180)"
    using near_mult[OF B1 near_refl[of 360]] by (simp del: times_divide_eq_left)
  then have "near (5 * v) b2 (lo + 180)"
    unfolding b2_def by (rule near_rnd'[OF _ e]) (simp add: v_def)
  then have "\<bar>b2 - (lo + 180)\<bar> \<le> 2 * (5 * v) * \<bar>lo + 180\<bar>"
    by (rule near_err) (simp add: v_def)
  also have "\<dots> \<le> 2 * (5 * v) * 360"
    using lo by (intro mult_left_mono) (simp_all add: v_def)
  finally have b2: "\<bar>(b2 - 180) - lo\<bar> \<le> 3600 * v" by simp
  have "near v (rnd (e 18) (b2 - 180)) (b2 - 180)"
    by (rule near_rnd'[OF near_refl e]) (simp add: v_def)
  then have "\<bar>rnd (e 18) (b2 - 180) - (b2 - 180)\<bar> \<le> 2 * v * \<bar>b2 - 180\<bar>"
    by (rule near_err) (simp add: v_def)
  also have "\<dots> \<le> 2 * v * 181"
  proof -
    have "3600 * v \<le> 1" by (simp add: v_def)
    with b2 lo have "\<bar>b2 - 180\<bar> \<le> 181" by linarith
    then show ?thesis by (intro mult_left_mono) (simp_all add: v_def)
  qed
  finally have "\<bar>rnd (e 18) (b2 - 180) - lo\<bar> \<le> 3962 * v"
    using b2 by linarith
  moreover have "3962 * v \<le> 1 / 10 ^ 9" by (simp add: v_def)
  moreover have "lng (preciseTileXYToLatLng_fl e (x (latLngToPreciseTileXY_fl e la lo z)) ty z)
                  = rnd (e 18) (b2 - 180)"
    by (simp add: preciseTileXYToLatLng_fl_def latLngToPreciseTileXY_fl_def Let_def
          b2_def b1_def X_def a2_def a1_def n_def)
  ultimately show ?thesis by linarith
qed

lemma near_err_bound:
  assumes "near k a b" "k \<le> 1" "\<bar>b\<bar> \<le> B"
  shows "\<bar>a - b\<bar> \<le> 2 * k * B"
proof -
  from assms(1) have "0 \<le> k" by (auto simp: near_def)
  then have "2 * k * \<bar>b\<bar> \<le> 2 * k * B"
    using assms(3) by (intro mult_left_mono) simp_all
  with near_err[OF assms(1,2)] show ?thesis by linarith
qed

lemma sin_lower: "0 \<le> t \<Longrightarrow> t - t ^ 3 / 6 \<le> sin t" for t :: real
proof -
  assume "0 \<le> t"
  have "(\<Sum>m<3. sin_coeff m * t ^ m) = t"
    by (simp add: sin_coeff_def eval_nat_numeral)
  with Maclaurin_sin_bound[of t 3] have "\<bar>sin t - t\<bar> \<le> inverse (fact 3) * \<bar>t\<bar> ^ 3"
    by simp
  moreover have "inverse (fact 3) * \<bar>t\<bar> ^ 3 = t ^ 3 / 6"
    using \<open>0 \<le> t\<close> by (simp add: eval_nat_numeral)
  ultimately show ?thesis by linarith
qed

lemma cos_lower:
  assumes "\<bar>r\<bar> \<le> pi / 2 - 1 / 13"
  shows "3 / 40 \<le> cos r"
proof -
  have "cos (pi / 2 - 1 / 13) \<le> cos \<bar>r\<bar>"
    using assms pi_gt_zero by (intro cos_monotone_0_pi_le) linarith+
  moreover have "cos (pi / 2 - 1 / 13) = sin (1 / 13)"
    by (simp add: cos_sin_eq)
  moreover have "(1 / 13 :: real) - (1 / 13) ^ 3 / 6 \<le> sin (1 / 13)"
    by (rule sin_lower) simp
  moreover have "(3 / 40 :: real) \<le> 1 / 13 - (1 / 13) ^ 3 / 6" by (simp add: eval_nat_numeral)
  ultimately show ?thesis by simp
qed

lemma mercator_arg_bounds:
  fixes r :: real
  assumes c: "3 / 40 \<le> cos r"
  shows "cos r / 2 \<le> tan r + 1 / cos r" and "\<bar>ln (tan r + 1 / cos r)\<bar> \<le> 26"
    and "(cos r)\<^sup>2 / 2 \<le> 1 + sin r"
proof -
  let ?c = "cos r" and ?s = "sin r"
  have c0: "0 < ?c" using c by linarith
  have sc: "?s\<^sup>2 + ?c\<^sup>2 = 1" by simp
  have s1: "- 1 \<le> ?s" "?s \<le> 1" by simp_all
  have prod: "(1 - ?s) * (1 + ?s) = ?c\<^sup>2"
    using sc by (simp add: algebra_simps power2_eq_square)
  have "(1 - ?s) * (1 + ?s) \<le> 2 * (1 + ?s)"
    using s1 by (intro mult_right_mono) linarith+
  with prod show low: "?c\<^sup>2 / 2 \<le> 1 + ?s" by simp
  have c2: "0 < ?c\<^sup>2" using c0 by simp
  with low have s1': "0 < 1 + ?s" by linarith
  have g: "tan r + 1 / ?c = (1 + ?s) / ?c"
    by (simp add: tan_def add_divide_distrib)
  have "?c / 2 = (?c\<^sup>2 / 2) / ?c" using c0 by (simp add: power2_eq_square)
  also have "\<dots> \<le> (1 + ?s) / ?c" using low c0 by (intro divide_right_mono) simp_all
  finally show "?c / 2 \<le> tan r + 1 / ?c" unfolding g .
  have gpos: "0 < (1 + ?s) / ?c" using s1' c0 by simp
  have inv: "inverse ((1 + ?s) / ?c) = (1 - ?s) / ?c"
    using prod s1' c0 by (simp add: field_simps power2_eq_square)
  have two_c: "2 / ?c \<le> 80 / 3"
    using c c0 by (simp add: field_simps)
  have "(1 + ?s) / ?c \<le> 2 / ?c" using s1 c0 by (intro divide_right_mono) simp_all
  then have up: "ln ((1 + ?s) / ?c) \<le> 26"
    using ln_le_minus_one[OF gpos] two_c by linarith
  have "(1 - ?s) / ?c \<le> 2 / ?c" using s1 c0 by (intro divide_right_mono) simp_all
  moreover have "0 < inverse ((1 + ?s) / ?c)" using gpos by (simp only: inverse_positive_iff_positive)
  then have "ln (inverse ((1 + ?s) / ?c)) \<le> inverse ((1 + ?s) / ?c) - 1"
    by (rule ln_le_minus_one)
  ultimately have "ln (inverse ((1 + ?s) / ?c)) \<le> 26"
    using two_c unfolding inv by linarith
  then have "- ln ((1 + ?s) / ?c) \<le> 26"
    by (simp only: ln_inverse)
  with up show "\<bar>ln (tan r + 1 / ?c)\<bar> \<le> 26" unfolding g by linarith
qed

lemma mercator_sum_fl:
  fixes r e7 e8 e9 e10 :: real
  assumes c: "3 / 40 \<le> cos r"
    and e: "\<bar>e7\<bar> \<le> 1 / 2 ^ 52" "\<bar>e8\<bar> \<le> 1 / 2 ^ 52" "\<bar>e9\<bar> \<le> 1 / 2 ^ 52" "\<bar>e10\<bar> \<le> 1 / 2 ^ 52"
  shows "\<bar>ln (rnd e10 (rnd e7 (tan r) + rnd e9 (1 / rnd e8 (cos r)))) - ln (tan r + 1 / cos r)\<bar>
           \<le> 4269 / 2 ^ 51"
proof -
  define v :: real where "v = 1 / 2 ^ 51"
  define g where "g = tan r + 1 / cos r"
  define T where "T = rnd e7 (tan r)"
  define S where "S = rnd e9 (1 / rnd e8 (cos r))"
  have c0: "0 < cos r" using c by linarith
  have ic: "1 / cos r \<le> 40 / 3" using c c0 by (simp add: field_simps)
  have "\<bar>tan r\<bar> = \<bar>sin r\<bar> * (1 / cos r)" using c0 by (simp add: tan_def abs_mult)
  also have "\<dots> \<le> 1 * (1 / cos r)" using c0 by (intro mult_right_mono) simp_all
  finally have tb: "\<bar>tan r\<bar> \<le> 40 / 3" using ic by linarith
  have "near v T (tan r)"
    unfolding T_def by (rule near_rnd'[OF near_refl e(1)]) (simp add: v_def)
  then have T: "\<bar>T - tan r\<bar> \<le> 2 * v * (40 / 3)"
    by (rule near_err_bound) (use tb in \<open>simp_all add: v_def\<close>)
  have "near v (rnd e8 (cos r)) (cos r)"
    by (rule near_rnd'[OF near_refl e(2)]) (simp add: v_def)
  from near_div[OF near_refl[of 1] this] have "near v (1 / rnd e8 (cos r)) (1 / cos r)" by simp
  then have "near (2 * v) S (1 / cos r)"
    unfolding S_def by (rule near_rnd'[OF _ e(3)]) (simp add: v_def)
  then have S: "\<bar>S - 1 / cos r\<bar> \<le> 2 * (2 * v) * (40 / 3)"
    by (rule near_err_bound) (use ic c0 in \<open>simp_all add: v_def\<close>)
  have D: "\<bar>T + S - g\<bar> \<le> 80 * v"
    using T S unfolding g_def by linarith
  have glow: "3 / 80 \<le> g"
    using mercator_arg_bounds(1)[OF c] c unfolding g_def by linarith
  then have g0: "0 < g" by linarith
  define rho where "rho = (T + S - g) / g"
  have "\<bar>rho\<bar> = \<bar>T + S - g\<bar> / g" using g0 by (simp add: rho_def)
  also have "\<dots> \<le> (80 * v) / g" using D g0 by (intro divide_right_mono) simp_all
  also have "\<dots> \<le> (80 * v) / (3 / 80)"
    using glow by (intro divide_left_mono) (simp_all add: v_def)
  finally have rho: "\<bar>rho\<bar> \<le> 2134 * v" by simp
  have sum: "T + S = g * (1 + rho)" using g0 by (simp add: rho_def field_simps)
  have small: "2134 * v \<le> 1 / 2" by (simp add: v_def)
  have p1: "0 < 1 + rho" using rho small by linarith
  have p2: "0 < 1 + e10" using e(4) by (simp add: abs_le_iff)
  have "rnd e10 (T + S) = g * (1 + rho) * (1 + e10)" by (simp add: rnd_def sum)
  then have "ln (rnd e10 (T + S)) = ln g + ln (1 + rho) + ln (1 + e10)"
    using g0 p1 p2 by (simp add: ln_mult_pos)
  moreover have "\<bar>ln (1 + rho)\<bar> \<le> 2 * (2134 * v)"
    using rho small by (rule ln1p_bound)
  moreover have "\<bar>ln (1 + e10)\<bar> \<le> 2 * (1 / 2 ^ 52)"
    using e(4) by (rule ln1p_bound) simp
  then have "\<bar>ln (1 + e10)\<bar> \<le> v" by (simp add: v_def)
  ultimately have "\<bar>ln (rnd e10 (T + S)) - ln g\<bar> \<le> 4269 * v"
    by linarith
  then show ?thesis by (simp add: T_def S_def g_def v_def)
qed

lemma lat_round_trip_fl:
  assumes e: "\<And>i. \<bar>e i\<bar> \<le> 1 / 2 ^ 52" and la: "\<bar>la\<bar> \<le> 85"
  shows "\<bar>lat (preciseTileXYToLatLng_fl e tx (y (latLngToPreciseTileXY_fl e la lo z)) z) - la\<bar>
           \<le> 1 / 10 ^ 9"
proof -
  define v :: real where "v = 1 / 2 ^ 51"
  define PI where "PI = rnd (e 0) pi"
  define n where "n = rnd (e 1) (2 powi z)"
  define phi where "phi = la * pi / 180"
  define m1 where "m1 = rnd (e 2) (la * PI)"
  define r where "r = rnd (e 3) (m1 / 180)"
  define U where "U = rnd (e 10) (rnd (e 7) (tan r) + rnd (e 9) (1 / rnd (e 8) (cos r)))"
  define Lam where "Lam = ln (tan r + 1 / cos r)"
  define Lt where "Lt = rnd (e 11) (ln U)"
  define q where "q = rnd (e 12) (Lt / PI)"
  define w where "w = rnd (e 13) (1 - q)"
  define nw where "nw = rnd (e 14) (n * w)"
  define yt where "yt = rnd (e 15) (nw / 2)"
  define t2 where "t2 = rnd (e 19) (2 * yt)"
  define a where "a = rnd (e 20) (t2 / n)"
  define b where "b = rnd (e 21) (1 - a)"
  define M where "M = rnd (e 22) (PI * b)"
  define sh where "sh = rnd (e 23) (sinh M)"
  define atr where "atr = rnd (e 24) (arctan sh)"
  define d1 where "d1 = rnd (e 25) (atr * 180)"
  define latDeg where "latDeg = rnd (e 26) (d1 / PI)"
  have v0: "0 \<le> v" "v \<le> 1 / 1000000000000000" by (simp_all add: v_def)
  have step: "near k a' b' \<Longrightarrow> k + v \<le> l \<Longrightarrow> near l (rnd (e i) a') b'" for k a' b' l i
    using near_rnd'[OF _ e] by (simp add: v_def)
  have n0: "n \<noteq> 0"
  proof -
    have "0 < 1 + e 1" using e[of 1] by (simp add: abs_le_iff)
    then show ?thesis by (simp add: n_def rnd_def)
  qed
  have PI: "near v PI pi"
    unfolding PI_def by (rule step[OF near_refl]) simp
  \<comment> \<open>radians\<close>
  have "near v (la * PI) (la * pi)"
    using near_mult[OF near_refl[of la] PI] by simp
  then have "near (2 * v) m1 (la * pi)"
    unfolding m1_def by (rule step) simp
  from near_div[OF this near_refl[of 180]] have "near (2 * v) (m1 / 180) phi"
    by (simp add: phi_def)
  then have r_near: "near (3 * v) r phi"
    unfolding r_def by (rule step) simp
  have phi_b: "\<bar>phi\<bar> \<le> 85 * pi / 180"
  proof -
    have "\<bar>phi\<bar> = \<bar>la\<bar> * pi / 180" by (simp add: phi_def abs_mult)
    also have "\<dots> \<le> 85 * pi / 180" using la by (simp add: mult_right_mono)
    finally show ?thesis .
  qed
  then have phi_2: "\<bar>phi\<bar> \<le> 2" using pi_less_4 by linarith
  have r_phi: "\<bar>r - phi\<bar> \<le> 12 * v"
    using near_err_bound[OF r_near _ phi_2] v0 by simp
  have r_b: "\<bar>r\<bar> \<le> pi / 2 - 1 / 13"
    using r_phi phi_b pi_ge_3 v0 by linarith
  have r_2: "\<bar>r\<bar> < pi / 2" using r_b by linarith
  have c: "3 / 40 \<le> cos r" using r_b by (rule cos_lower)
  then have c0: "0 < cos r" by linarith
  \<comment> \<open>the logarithm\<close>
  have lnU: "\<bar>ln U - Lam\<bar> \<le> 4269 * v"
    using mercator_sum_fl[OF c e e e e, of 10 7 9 8] by (simp add: U_def Lam_def v_def)
  have Lam_b: "\<bar>Lam\<bar> \<le> 26"
    unfolding Lam_def by (rule mercator_arg_bounds(2)[OF c])
  have gd: "arctan (sinh Lam) = r"
    unfolding Lam_def using mercator_arg(2)[OF c0] r_2 by (simp add: arctan_tan)
  have lnU_b: "\<bar>ln U\<bar> \<le> 27" using lnU Lam_b v0 by linarith
  have "near v Lt (ln U)"
    unfolding Lt_def by (rule step[OF near_refl]) simp
  from near_err_bound[OF this _ lnU_b] have "\<bar>Lt - ln U\<bar> \<le> 54 * v" using v0 by simp
  with lnU have Lt: "\<bar>Lt - Lam\<bar> \<le> 4323 * v" by linarith
  with Lam_b v0 have Lt_b: "\<bar>Lt\<bar> \<le> 27" by linarith
  \<comment> \<open>the quotient by pi\<close>
  have Ltpi_b: "\<bar>Lt / pi\<bar> \<le> 9"
  proof -
    have "\<bar>Lt / pi\<bar> = \<bar>Lt\<bar> / pi" by simp
    also have "\<dots> \<le> 27 / pi" using Lt_b by (intro divide_right_mono) simp_all
    also have "\<dots> \<le> 27 / 3" using pi_ge_3 by (intro divide_left_mono) simp_all
    finally show ?thesis by simp
  qed
  have "near v (Lt / PI) (Lt / pi)"
    using near_div[OF near_refl[of Lt] PI] by simp
  then have "near (2 * v) q (Lt / pi)"
    unfolding q_def by (rule step) simp
  from near_err_bound[OF this _ Ltpi_b] have q: "\<bar>q - Lt / pi\<bar> \<le> 36 * v" using v0 by simp
  with Ltpi_b v0 have q_b: "\<bar>q\<bar> \<le> 10" by linarith
  then have q1_b: "\<bar>1 - q\<bar> \<le> 11" by linarith
  \<comment> \<open>through the tile coordinate and back\<close>
  have "near v w (1 - q)"
    unfolding w_def by (rule step[OF near_refl]) simp
  from near_mult[OF near_refl[of n] this] have "near v (n * w) (n * (1 - q))" by simp
  then have "near (2 * v) nw (n * (1 - q))"
    unfolding nw_def by (rule step) simp
  from near_div[OF this near_refl[of 2]] have "near (2 * v) (nw / 2) (n * (1 - q) / 2)" by simp
  then have "near (3 * v) yt (n * (1 - q) / 2)"
    unfolding yt_def by (rule step) simp
  from near_mult[OF near_refl[of 2] this] have "near (3 * v) (2 * yt) (n * (1 - q))" by simp
  then have "near (4 * v) t2 (n * (1 - q))"
    unfolding t2_def by (rule step) simp
  from near_cancel_left[OF this near_refl n0] have "near (4 * v) (t2 / n) (1 - q)" by simp
  then have "near (5 * v) a (1 - q)"
    unfolding a_def by (rule step) simp
  from near_err_bound[OF this _ q1_b] have a: "\<bar>a - (1 - q)\<bar> \<le> 110 * v" using v0 by simp
  with q_b v0 have a1_b: "\<bar>1 - a\<bar> \<le> 11" by linarith
  have "near v b (1 - a)"
    unfolding b_def by (rule step[OF near_refl]) simp
  from near_err_bound[OF this _ a1_b] have "\<bar>b - (1 - a)\<bar> \<le> 22 * v" using v0 by simp
  with a q have b: "\<bar>b - Lt / pi\<bar> \<le> 168 * v" by linarith
  with Ltpi_b v0 have b_b: "\<bar>b\<bar> \<le> 11" by linarith
  have pib_b: "\<bar>pi * b\<bar> \<le> 44"
  proof -
    have "\<bar>pi * b\<bar> = pi * \<bar>b\<bar>" by (simp add: abs_mult)
    also have "\<dots> \<le> 4 * 11" using pi_less_4 b_b by (intro mult_mono) simp_all
    finally show ?thesis by simp
  qed
  from near_mult[OF PI near_refl[of b]] have "near v (PI * b) (pi * b)" by simp
  then have "near (2 * v) M (pi * b)"
    unfolding M_def by (rule step) simp
  from near_err_bound[OF this _ pib_b] have M1: "\<bar>M - pi * b\<bar> \<le> 176 * v" using v0 by simp
  have "\<bar>pi * b - Lt\<bar> = pi * \<bar>b - Lt / pi\<bar>"
  proof -
    have "pi * b - Lt = pi * (b - Lt / pi)" by (simp add: algebra_simps)
    then show ?thesis by (simp add: abs_mult)
  qed
  also have "\<dots> \<le> 4 * (168 * v)" using pi_less_4 b by (intro mult_mono) simp_all
  finally have "\<bar>pi * b - Lt\<bar> \<le> 672 * v" by simp
  with M1 Lt have M: "\<bar>M - Lam\<bar> \<le> 5171 * v" by linarith
  \<comment> \<open>the Gudermannian\<close>
  have "near v sh (sinh M)"
    unfolding sh_def by (rule step[OF near_refl]) simp
  then obtain t where t: "\<bar>t\<bar> \<le> v" "sh = sinh M * exp t" by (auto simp: near_def)
  have "\<bar>arctan sh - arctan (sinh M)\<bar> \<le> v"
    unfolding t(2) using arctan_scale_lipschitz[of "sinh M" t] t(1) by linarith
  moreover have "\<bar>arctan (sinh M) - r\<bar> \<le> 5171 * v"
    using gd_lipschitz[of M Lam] M unfolding gd by linarith
  ultimately have at0: "\<bar>arctan sh - r\<bar> \<le> 5172 * v" by linarith
  have at0_b: "\<bar>arctan sh\<bar> \<le> 2"
    using arctan_bounded[of sh] pi_less_4 by linarith
  have "near v atr (arctan sh)"
    unfolding atr_def by (rule step[OF near_refl]) simp
  from near_err_bound[OF this _ at0_b] have "\<bar>atr - arctan sh\<bar> \<le> 4 * v" using v0 by simp
  with at0 r_phi have atr: "\<bar>atr - phi\<bar> \<le> 5188 * v" by linarith
  with phi_b pi_less_4 v0 have atr_b: "\<bar>atr\<bar> \<le> 2" by linarith
  \<comment> \<open>degrees\<close>
  have deg_b: "\<bar>atr * 180 / pi\<bar> \<le> 120"
  proof -
    have "\<bar>atr * 180 / pi\<bar> = \<bar>atr\<bar> * 180 / pi" by (simp add: abs_mult)
    also have "\<dots> \<le> 2 * 180 / pi" using atr_b by (intro divide_right_mono mult_right_mono) simp_all
    also have "\<dots> \<le> 2 * 180 / 3" using pi_ge_3 by (intro divide_left_mono) simp_all
    finally show ?thesis by simp
  qed
  from near_mult[OF near_refl[of 180] near_refl[of atr]] have "near 0 (atr * 180) (atr * 180)"
    by (simp add: near_refl)
  then have "near v d1 (atr * 180)"
    unfolding d1_def by (rule step) simp
  from near_div[OF this PI] have "near (2 * v) (d1 / PI) (atr * 180 / pi)" by simp
  then have "near (3 * v) latDeg (atr * 180 / pi)"
    unfolding latDeg_def by (rule step) simp
  from near_err_bound[OF this _ deg_b] have d: "\<bar>latDeg - atr * 180 / pi\<bar> \<le> 720 * v"
    using v0 by simp
  have "\<bar>atr * 180 / pi - la\<bar> = (180 / pi) * \<bar>atr - phi\<bar>"
  proof -
    have "atr * 180 / pi - la = (180 / pi) * (atr - phi)"
      by (simp add: phi_def field_simps)
    then have "\<bar>atr * 180 / pi - la\<bar> = \<bar>180 / pi\<bar> * \<bar>atr - phi\<bar>"
      by (simp only: abs_mult)
    then show ?thesis by simp
  qed
  also have "\<dots> \<le> 60 * (5188 * v)"
  proof -
    have "180 / pi \<le> 180 / 3" using pi_ge_3 by (intro divide_left_mono) simp_all
    then show ?thesis using atr by (intro mult_mono) simp_all
  qed
  finally have "\<bar>atr * 180 / pi - la\<bar> \<le> 311280 * v" by simp
  with d have "\<bar>latDeg - la\<bar> \<le> 312000 * v" by linarith
  moreover have "312000 * v \<le> 1 / 10 ^ 9" by (simp add: v_def)
  moreover have "lat (preciseTileXYToLatLng_fl e tx (y (latLngToPreciseTileXY_fl e la lo z)) z) = latDeg"
    by (simp add: preciseTileXYToLatLng_fl_def latLngToPreciseTileXY_fl_def Let_def
          latDeg_def d1_def atr_def sh_def M_def b_def a_def t2_def yt_def nw_def w_def q_def
          Lt_def U_def r_def m1_def n_def PI_def)
  ultimately show ?thesis by linarith
qed

lemma rnd_zero: "rnd 0 a = a"
  by (simp add: rnd_def)

lemma fl_exact:
  "latLngToPreciseTileXY_fl (\<lambda>i. 0) = latLngToPreciseTileXY"
  "preciseTileXYToLatLng_fl (\<lambda>i. 0) = preciseTileXYToLatLng"
  by (simp_all add: fun_eq_iff latLngToPreciseTileXY_fl_def latLngToPreciseTileXY_def
        preciseTileXYToLatLng_fl_def preciseTileXYToLatLng_def rnd_zero)

section \<open>The grid builder in closed form\<close>

text \<open>
  With the constants of the configuration the viewport centre is 384 pixels on each
  axis, and for an integer \<open>n\<close> the half grid \<open>Math.floor(n / 2)\<close> is \<open>n div 2\<close>.
\<close>

lemma halfGrid_div: "\<lfloor>real_of_int n / 2\<rfloor> = n div 2"
  using floor_divide_of_int_eq[of n 2, where ?'a = real] by simp

lemma viewportCenter_value:
  "(real_of_int (VISIBLE_GRID_DIMENSION - 1) * (TILE_SIZE * POSITIONING_FACTOR) + TILE_SIZE) / 2 = 384"
  by (simp add: VISIBLE_GRID_DIMENSION_def TILE_SIZE_def POSITIONING_FACTOR_def)

lemma getTilesForArea_closed:
  "getTilesForArea center z n st ak =
     Resolved \<lparr>tiles = map (\<lambda>(i, j). tileAt z st ak
                  (\<lfloor>x (latLngToPreciseTileXY (lat center) (lng center) z)\<rfloor> - n div 2)
                  (\<lfloor>y (latLngToPreciseTileXY (lat center) (lng center) z)\<rfloor> - n div 2) i j)
                (rowMajor n),
       offset = \<lparr>x = 384 - (x (latLngToPreciseTileXY (lat center) (lng center) z)
                     - real_of_int (\<lfloor>x (latLngToPreciseTileXY (lat center) (lng center) z)\<rfloor> - n div 2)) * 256,
                 y = 384 - (y (latLngToPreciseTileXY (lat center) (lng center) z)
                     - real_of_int (\<lfloor>y (latLngToPreciseTileXY (lat center) (lng center) z)\<rfloor> - n div 2)) * 256\<rparr>\<rparr>"
  unfolding getTilesForArea_def Let_def outerLoop_rowMajor halfGrid_div viewportCenter_value
  by (simp add: TILE_SIZE_def)

lemma tile_of_origin_zoom1: "latLngToPreciseTileXY 0 0 1 = \<lparr>x = 1, y = 1\<rparr>"
  by (simp add: latLngToPreciseTileXY_def)

section \<open>The pan resolver away from the zero delta\<close>

lemma handlePanEnd_moved:
  assumes "panX \<noteq> 0 \<or> panY \<noteq> 0"
  shows "handlePanEnd location panX panY =
     \<lparr>lat = lat (preciseTileXYToLatLng
              (x (latLngToPreciseTileXY (lat location) (lng location) (zoom location)) - panX / TILE_SIZE)
              (y (latLngToPreciseTileXY (lat location) (lng location) (zoom location)) - panY / TILE_SIZE)
              (zoom location)),
      lng = lng (preciseTileXYToLatLng
              (x (latLngToPreciseTileXY (lat location) (lng location) (zoom location)) - panX / TILE_SIZE)
              (y (latLngToPreciseTileXY (lat location) (lng location) (zoom location)) - panY / TILE_SIZE)
              (zoom location)),
      zoom = zoom location\<rparr>"
  using assms by (auto simp: handlePanEnd_def Let_def)

lemma handlePanEnd_tile:
  assumes "panX \<noteq> 0 \<or> panY \<noteq> 0"
  shows "latLngToPreciseTileXY (lat (handlePanEnd location panX panY))
           (lng (handlePanEnd location panX panY)) (zoom (handlePanEnd location panX panY)) =
         \<lparr>x = x (latLngToPreciseTileXY (lat location) (lng location) (zoom location)) - panX / TILE_SIZE,
          y = y (latLngToPreciseTileXY (lat location) (lng location) (zoom location)) - panY / TILE_SIZE\<rparr>"
  unfolding handlePanEnd_moved[OF assms] by (simp add: tile_geo_tile)

lemma zoom_steps_stay_in_range:
  assumes "MIN_ZOOM \<le> zoom location" "zoom location \<le> MAX_ZOOM"
  shows "MIN_ZOOM \<le> zoom (handleZoomIn location) \<and> zoom (handleZoomIn location) \<le> MAX_ZOOM \<and>
         MIN_ZOOM \<le> zoom (handleZoomOut location) \<and> zoom (handleZoomOut location) \<le> MAX_ZOOM"
  using assms by (auto simp: handleZoomIn_def handleZoomOut_def Let_def MIN_ZOOM_def MAX_ZOOM_def)

section \<open>Pan followed by grid building, in exact arithmetic\<close>

text \<open>
  For a tile-aligned pixel delta \<open>(kx * TILE_SIZE, ky * TILE_SIZE)\<close> with integers
  \<open>kx\<close> and \<open>ky\<close>, the grid built at the location after \<open>handlePanEnd\<close> is the
  grid built at the location before it with the top-left tile moved from
  \<open>(startX, startY)\<close> to \<open>(startX - kx, startY - ky)\<close>. This is a statement about
  the formulas evaluated exactly: the new centre goes through the inverse projection
  and back through the forward projection before \<open>Math.floor\<close> is applied, and in
  exact arithmetic that round trip returns the tile coordinate it started from.
\<close>

lemma pan_grid_shift_exact:
  "let t = latLngToPreciseTileXY (lat location) (lng location) (zoom location);
       startX = \<lfloor>x t\<rfloor> - \<lfloor>real_of_int n / 2\<rfloor>;
       startY = \<lfloor>y t\<rfloor> - \<lfloor>real_of_int n / 2\<rfloor>;
       location' = handlePanEnd location (real_of_int kx * TILE_SIZE) (real_of_int ky * TILE_SIZE)
   in (\<exists>off. getTilesForArea \<lparr>lat = lat location, lng = lng location\<rparr> (zoom location) n st ak =
         Resolved \<lparr>tiles = map (\<lambda>(i, j). tileAt (zoom location) st ak startX startY i j) (rowMajor n),
                   offset = off\<rparr>) \<and>
      (\<exists>off. getTilesForArea \<lparr>lat = lat location', lng = lng location'\<rparr> (zoom location') n st ak =
         Resolved \<lparr>tiles = map (\<lambda>(i, j). tileAt (zoom location) st ak (startX - kx) (startY - ky) i j)
                           (rowMajor n),
                   offset = off\<rparr>)"
proof (cases "kx = 0 \<and> ky = 0")
  case True
  then show ?thesis
    unfolding getTilesForArea_closed Let_def halfGrid_div
    by (simp add: handlePanEnd_def)
next
  case False
  then have nz: "real_of_int kx * TILE_SIZE \<noteq> 0 \<or> real_of_int ky * TILE_SIZE \<noteq> 0"
    by (simp add: TILE_SIZE_def)
  have zm: "zoom (handlePanEnd location (real_of_int kx * TILE_SIZE) (real_of_int ky * TILE_SIZE)) = zoom location"
    by (simp add: handlePanEnd_moved[OF nz])
  have k: "real_of_int kx * TILE_SIZE / TILE_SIZE = real_of_int kx"
          "real_of_int ky * TILE_SIZE / TILE_SIZE = real_of_int ky"
    by (simp_all add: TILE_SIZE_def)
  let ?t = "latLngToPreciseTileXY (lat location) (lng location) (zoom location)"
  have t': "latLngToPreciseTileXY
              (lat (handlePanEnd location (real_of_int kx * TILE_SIZE) (real_of_int ky * TILE_SIZE)))
              (lng (handlePanEnd location (real_of_int kx * TILE_SIZE) (real_of_int ky * TILE_SIZE)))
              (zoom location) =
            \<lparr>x = x ?t - real_of_int kx, y = y ?t - real_of_int ky\<rparr>"
    using handlePanEnd_tile[OF nz, of location] by (simp only: zm k)
  have fl: "\<lfloor>x ?t\<rfloor> - kx - n div 2 = \<lfloor>x ?t\<rfloor> - n div 2 - kx"
           "\<lfloor>y ?t\<rfloor> - ky - n div 2 = \<lfloor>y ?t\<rfloor> - n div 2 - ky"
    by simp_all
  show ?thesis
    unfolding getTilesForArea_closed Let_def halfGrid_div
    by (simp add: zm t' fl)
qed

text \<open>
  With rounding the floor of the re-projected coordinate is not determined for a
  centre on a tile boundary. The centre whose exact tile position at zoom 2 is
  \<open>(0, 1)\<close> has the fractional tile row \<open>1\<close> in exact arithmetic; when
  \<open>Math.log\<close> (place 11) returns its result one relative error of \<open>2^-52\<close> too
  large and every other operation is exact, the row is just below \<open>1\<close> and its
  floor is \<open>0\<close>. Which way a double computation falls at a given input depends on
  the values the \<open>Math\<close> functions return there.
\<close>

lemma boundary_floor_not_robust:
  "let c = preciseTileXYToLatLng 0 1 2;
       e = (\<lambda>i. if i = 11 then 1 / 2 ^ 52 else 0)
   in (\<forall>i. \<bar>e i\<bar> \<le> 1 / 2 ^ 52) \<and>
      \<lfloor>y (latLngToPreciseTileXY (lat c) (lng c) 2)\<rfloor> = 1 \<and>
      \<lfloor>y (latLngToPreciseTileXY_fl e (lat c) (lng c) 2)\<rfloor> = 0"
proof -
  define c where "c = preciseTileXYToLatLng 0 1 2"
  define e :: "nat \<Rightarrow> real" where "e = (\<lambda>i. if i = 11 then 1 / 2 ^ 52 else 0)"
  have A: "\<forall>i. \<bar>e i\<bar> \<le> 1 / 2 ^ 52" by (simp add: e_def)
  have "latLngToPreciseTileXY (lat c) (lng c) 2 = \<lparr>x = 0, y = 1\<rparr>"
    unfolding c_def by (rule tile_geo_tile)
  then have B: "\<lfloor>y (latLngToPreciseTileXY (lat c) (lng c) 2)\<rfloor> = 1" by simp
  have rad: "(lat c * pi) / 180 = arctan (sinh (pi / 2))"
    by (simp add: c_def preciseTileXYToLatLng_def)
  have "y (latLngToPreciseTileXY_fl e (lat c) (lng c) 2) =
          4 * (1 - (ln (exp (pi / 2)) * (1 + 1 / 2 ^ 52)) / pi) / 2"
    unfolding latLngToPreciseTileXY_fl_def Let_def
    by (simp add: e_def rnd_def rad forward_arg)
  also have "\<dots> = 1 - 1 / 2 ^ 52" by (simp add: field_simps)
  finally have "y (latLngToPreciseTileXY_fl e (lat c) (lng c) 2) = 1 - 1 / 2 ^ 52" .
  moreover have "\<lfloor>1 - 1 / 2 ^ 52 :: real\<rfloor> = 0"
    by (simp add: floor_eq_iff)
  ultimately have C: "\<lfloor>y (latLngToPreciseTileXY_fl e (lat c) (lng c) 2)\<rfloor> = 0" by (simp only:)
  from A B C show ?thesis unfolding Let_def c_def e_def by blast
qed

section \<open>The grid builder over non-finite numbers, in closed form\<close>

lemma innerLoop_js_closed:
  "innerLoop_js z n st ak sx sy i j acc = acc @ map (tileAt_js z st ak sx sy i) [j..n - 1]"
proof (induction z n st ak sx sy i j acc rule: innerLoop_js.induct)
  case (1 z n st ak sx sy i j acc)
  show ?case
  proof (cases "j < n")
    case True
    then have "[j..n - 1] = j # [j + 1..n - 1]"
      by (simp add: upto_rec1)
    with True 1 show ?thesis
      by (subst innerLoop_js.simps) (simp add: Let_def tileAt_js_def)
  next
    case False
    then show ?thesis
      by (subst innerLoop_js.simps) simp
  qed
qed

lemma outerLoop_js_closed:
  "outerLoop_js z n st ak sx sy i acc =
     acc @ concat (map (\<lambda>r. map (tileAt_js z st ak sx sy r) [0..n - 1]) [i..n - 1])"
proof (induction z n st ak sx sy i acc rule: outerLoop_js.induct)
  case (1 z n st ak sx sy i acc)
  show ?case
  proof (cases "i < n")
    case True
    then have "[i..n - 1] = i # [i + 1..n - 1]"
      by (simp add: upto_rec1)
    with True 1 show ?thesis
      by (subst outerLoop_js.simps) (simp add: innerLoop_js_closed)
  next
    case False
    then show ?thesis
      by (subst outerLoop_js.simps) simp
  qed
qed

lemma outerLoop_js_rowMajor:
  "outerLoop_js z n st ak sx sy 0 [] =
     map (\<lambda>(i, j). tileAt_js z st ak sx sy i j) (rowMajor n)"
  by (simp add: outerLoop_js_closed rowMajor_def map_concat comp_def)

lemma tileAt_js_finite:
  "tileAt_js z st ak (Fin (real_of_int sx)) (Fin (real_of_int sy)) i j = tileAt z st ak sx sy i j"
proof -
  have "\<lfloor>real_of_int sx + real_of_int j\<rfloor> = sx + j" "\<lfloor>real_of_int sy + real_of_int i\<rfloor> = sy + i"
    by linarith+
  then show ?thesis
    by (simp add: tileAt_js_def tileAt_def tileUrl_js_def tileUrl_def tileKey_js_def tileKey_def)
qed

section \<open>The forward projection stays finite within the Mercator range\<close>

text \<open>
  For a latitude of at most 85 degrees in absolute value and rounding errors of at
  most \<open>2^-52\<close>, the rounded latitude in radians keeps its distance from
  \<open>pi / 2\<close>, the rounded cosine is not zero and the rounded argument of
  \<open>Math.log\<close> is positive: every intermediate value is finite, and the projection
  over \<open>jsnum\<close> is the rounded projection over the reals.
\<close>

lemma latRad_fl_cos:
  assumes e: "\<And>i. \<bar>e i\<bar> \<le> 1 / 2 ^ 52" and la: "\<bar>la\<bar> \<le> 85"
  shows "3 / 40 \<le> cos (rnd (e 3) (rnd (e 2) (la * rnd (e 0) pi) / 180))"
proof -
  define v :: real where "v = 1 / 2 ^ 51"
  define PI where "PI = rnd (e 0) pi"
  define phi where "phi = la * pi / 180"
  define m1 where "m1 = rnd (e 2) (la * PI)"
  define r where "r = rnd (e 3) (m1 / 180)"
  have v0: "0 \<le> v" "v \<le> 1 / 1000000000000000" by (simp_all add: v_def)
  have step: "near k a' b' \<Longrightarrow> k + v \<le> l \<Longrightarrow> near l (rnd (e i) a') b'" for k a' b' l i
    using near_rnd'[OF _ e] by (simp add: v_def)
  have PI: "near v PI pi"
    unfolding PI_def by (rule step[OF near_refl]) simp
  have "near v (la * PI) (la * pi)"
    using near_mult[OF near_refl[of la] PI] by simp
  then have "near (2 * v) m1 (la * pi)"
    unfolding m1_def by (rule step) simp
  from near_div[OF this near_refl[of 180]] have "near (2 * v) (m1 / 180) phi"
    by (simp add: phi_def)
  then have r_near: "near (3 * v) r phi"
    unfolding r_def by (rule step) simp
  have phi_b: "\<bar>phi\<bar> \<le> 85 * pi / 180"
  proof -
    have "\<bar>phi\<bar> = \<bar>la\<bar> * pi / 180" by (simp add: phi_def abs_mult)
    also have "\<dots> \<le> 85 * pi / 180" using la by (simp add: mult_right_mono)
    finally show ?thesis .
  qed
  then have phi_2: "\<bar>phi\<bar> \<le> 2" using pi_less_4 by linarith
  have r_phi: "\<bar>r - phi\<bar> \<le> 12 * v"
    using near_err_bound[OF r_near _ phi_2] v0 by simp
  have r_b: "\<bar>r\<bar> \<le> pi / 2 - 1 / 13"
    using r_phi phi_b pi_ge_3 v0 by linarith
  have "3 / 40 \<le> cos r" using r_b by (rule cos_lower)
  then show ?thesis by (simp add: r_def m1_def PI_def)
qed

lemma mercator_sum_fl_pos:
  fixes r e7 e8 e9 e10 :: real
  assumes c: "3 / 40 \<le> cos r"
    and e: "\<bar>e7\<bar> \<le> 1 / 2 ^ 52" "\<bar>e8\<bar> \<le> 1 / 2 ^ 52" "\<bar>e9\<bar> \<le> 1 / 2 ^ 52" "\<bar>e10\<bar> \<le> 1 / 2 ^ 52"
  shows "0 < rnd e10 (rnd e7 (tan r) + rnd e9 (1 / rnd e8 (cos r)))"
proof -
  define v :: real where "v = 1 / 2 ^ 51"
  define g where "g = tan r + 1 / cos r"
  define T where "T = rnd e7 (tan r)"
  define S where "S = rnd e9 (1 / rnd e8 (cos r))"
  have c0: "0 < cos r" using c by linarith
  have ic: "1 / cos r \<le> 40 / 3" using c c0 by (simp add: field_simps)
  have "\<bar>tan r\<bar> = \<bar>sin r\<bar> * (1 / cos r)" using c0 by (simp add: tan_def abs_mult)
  also have "\<dots> \<le> 1 * (1 / cos r)" using c0 by (intro mult_right_mono) simp_all
  finally have tb: "\<bar>tan r\<bar> \<le> 40 / 3" using ic by linarith
  have "near v T (tan r)"
    unfolding T_def by (rule near_rnd'[OF near_refl e(1)]) (simp add: v_def)
  then have T: "\<bar>T - tan r\<bar> \<le> 2 * v * (40 / 3)"
    by (rule near_err_bound) (use tb in \<open>simp_all add: v_def\<close>)
  have "near v (rnd e8 (cos r)) (cos r)"
    by (rule near_rnd'[OF near_refl e(2)]) (simp add: v_def)
  from near_div[OF near_refl[of 1] this] have "near v (1 / rnd e8 (cos r)) (1 / cos r)" by simp
  then have "near (2 * v) S (1 / cos r)"
    unfolding S_def by (rule near_rnd'[OF _ e(3)]) (simp add: v_def)
  then have S: "\<bar>S - 1 / cos r\<bar> \<le> 2 * (2 * v) * (40 / 3)"
    by (rule near_err_bound) (use ic c0 in \<open>simp_all add: v_def\<close>)
  have D: "\<bar>T + S - g\<bar> \<le> 80 * v"
    using T S unfolding g_def by linarith
  have glow: "3 / 80 \<le> g"
    using mercator_arg_bounds(1)[OF c] c unfolding g_def by linarith
  have "80 * v \<le> 1 / 80" by (simp add: v_def)
  with D glow have "0 < T + S" by linarith
  moreover have "0 < 1 + e10" using e(4) by (simp add: abs_le_iff)
  ultimately have "0 < (T + S) * (1 + e10)" by (rule mult_pos_pos)
  then show ?thesis by (simp add: rnd_def T_def S_def)
qed

lemma rnd_nonzero:
  assumes "\<bar>e\<bar> \<le> 1 / 2 ^ 52" "a \<noteq> 0"
  shows "rnd e a \<noteq> 0"
proof -
  have "0 < 1 + e" using assms(1) by (simp add: abs_le_iff)
  with assms(2) show ?thesis by (simp add: rnd_def)
qed

lemma forward_js_finite:
  assumes e: "\<And>i. \<bar>e i\<bar> \<le> 1 / 2 ^ 52" and la: "\<bar>la\<bar> \<le> 85"
  shows "latLngToPreciseTileXY_js e la lo z =
           \<lparr>x_js = Fin (x (latLngToPreciseTileXY_fl e la lo z)),
            y_js = Fin (y (latLngToPreciseTileXY_fl e la lo z))\<rparr>"
proof -
  define r where "r = rnd (e 3) (rnd (e 2) (la * rnd (e 0) pi) / 180)"
  have c: "3 / 40 \<le> cos r" unfolding r_def by (rule latRad_fl_cos[OF e la])
  then have c0: "cos r \<noteq> 0" by linarith
  have t: "jsTan r = Fin (tan r)"
    using c0 by (simp add: jsTan_def tan_def)
  have c8: "rnd (e 8) (cos r) \<noteq> 0" by (rule rnd_nonzero[OF e c0])
  have PI0: "rnd (e 0) pi \<noteq> 0" by (rule rnd_nonzero[OF e]) simp
  have pos: "0 < rnd (e 10) (rnd (e 7) (tan r) + rnd (e 9) (1 / rnd (e 8) (cos r)))"
    by (rule mercator_sum_fl_pos[OF c e e e e])
  show ?thesis
    using c8 PI0 pos
    by (simp add: latLngToPreciseTileXY_js_def latLngToPreciseTileXY_fl_def Let_def t jsSub_def
          r_def[symmetric])
qed

lemma getTilesForArea_js_finite:
  assumes e: "\<And>i. \<bar>e i\<bar> \<le> 1 / 2 ^ 52" and la: "\<bar>lat center\<bar> \<le> 85"
  shows "\<exists>off. getTilesForArea_js e center z n st ak =
     Resolved \<lparr>tiles_js = map (\<lambda>(i, j). tileAt z st ak
                  (\<lfloor>x (latLngToPreciseTileXY_fl e (lat center) (lng center) z)\<rfloor> - \<lfloor>real_of_int n / 2\<rfloor>)
                  (\<lfloor>y (latLngToPreciseTileXY_fl e (lat center) (lng center) z)\<rfloor> - \<lfloor>real_of_int n / 2\<rfloor>) i j)
                (rowMajor n),
       offset_js = off\<rparr>"
proof -
  have "tileAt_js z st ak (Fin (real_of_int a - real_of_int h)) (Fin (real_of_int b - real_of_int h)) i j =
        tileAt z st ak (a - h) (b - h) i j" for a b h i j
    using tileAt_js_finite[of z st ak "a - h" "b - h" i j] by simp
  then show ?thesis
    unfolding getTilesForArea_js_def Let_def forward_js_finite[OF e la] outerLoop_js_rowMajor
    by (simp add: jsSub_def split: prod.splits)
qed

section \<open>The forward projection at the south pole\<close>

lemma small_angle:
  "0 < pi / 2 ^ 54" "pi / 2 ^ 54 < pi / 2" "pi / 2 ^ 54 \<le> 1 / 2 ^ 52"
    "0 < sin (pi / 2 ^ 54)" "0 < cos (pi / 2 ^ 54)"
proof -
  show p: "0 < pi / 2 ^ 54" by simp
  have "pi / 2 ^ 54 \<le> pi / 2 ^ 2"
    by (intro divide_left_mono power_increasing) simp_all
  then show l: "pi / 2 ^ 54 < pi / 2" using pi_gt_zero by simp
  have "pi / 2 ^ 54 \<le> 4 / 2 ^ 54" using pi_less_4 by (intro divide_right_mono) simp_all
  then show "pi / 2 ^ 54 \<le> 1 / 2 ^ 52" by simp
  show "0 < sin (pi / 2 ^ 54)" using p l pi_gt_zero by (intro sin_gt_zero) linarith+
  show "0 < cos (pi / 2 ^ 54)" using p l by (intro cos_gt_zero_pi) linarith+
qed

lemma southPoleRounding_bound: "\<bar>southPoleRounding i\<bar> \<le> 1 / 2 ^ 53"
proof -
  define d :: real where "d = pi / 2 ^ 54"
  have d: "0 < d" "d \<le> 1 / 2 ^ 52" "0 < cos d" unfolding d_def by (rule small_angle)+
  have c1: "cos d \<le> 1" by simp
  have "(sin d)\<^sup>2 \<le> d\<^sup>2"
    using abs_sin_x_le_abs_x[of d] by (simp add: abs_le_square_iff[symmetric])
  moreover have "d\<^sup>2 \<le> (1 / 2 ^ 52)\<^sup>2" using d by (intro power_mono) simp_all
  moreover have "(cos d)\<^sup>2 \<le> cos d" using d(3) c1 by (simp add: power2_eq_square mult_left_le)
  moreover have "(cos d)\<^sup>2 = 1 - (sin d)\<^sup>2" by (rule cos_squared_eq)
  ultimately have low: "1 - (1 / 2 ^ 52)\<^sup>2 \<le> cos d" by linarith
  have half: "1 / 2 \<le> cos d" using low by (simp add: power2_eq_square) 
  have "1 / cos d - 1 = (1 - cos d) / cos d" using d(3) by (simp add: field_simps)
  also have "\<dots> \<le> (1 / 2 ^ 52)\<^sup>2 / cos d" using low d(3) by (intro divide_right_mono) simp_all
  also have "\<dots> \<le> (1 / 2 ^ 52)\<^sup>2 / (1 / 2)" using half by (intro divide_left_mono) simp_all
  also have "\<dots> \<le> 1 / 2 ^ 53" by (simp add: power2_eq_square)
  finally have up: "1 / cos d - 1 \<le> 1 / 2 ^ 53" .
  have "0 \<le> 1 / cos d - 1" using d(3) c1 by (simp add: field_simps)
  with up show ?thesis by (simp add: southPoleRounding_def d_def)
qed

lemma southPole_latRad:
  "rnd (southPoleRounding 3) (rnd (southPoleRounding 2) (- 90 * rnd (southPoleRounding 0) pi) / 180)
     = pi / 2 ^ 54 - pi / 2"
  by (simp add: southPoleRounding_def rnd_def field_simps)

lemma southPole_projection:
  "latLngToPreciseTileXY_js southPoleRounding (- 90) 0 1 = \<lparr>x_js = Fin 1, y_js = PosInf\<rparr>"
proof -
  define d :: real where "d = pi / 2 ^ 54"
  have d: "0 < sin d" "0 < cos d" unfolding d_def by (rule small_angle)+
  have s: "sin (d - pi / 2) = - cos d" "cos (d - pi / 2) = sin d"
    by (simp_all add: sin_diff cos_diff)
  have e7: "southPoleRounding 7 = 1 / cos d - 1"
    by (simp add: southPoleRounding_def d_def)
  have "rnd (1 / cos d - 1) (- cos d / sin d) = - (1 / sin d)"
    using d by (simp add: rnd_def)
  moreover have "jsTan (d - pi / 2) = Fin (- cos d / sin d)"
    using d by (simp add: jsTan_def s)
  ultimately have t: "jsRnd (southPoleRounding 7) (jsTan (d - pi / 2)) = Fin (- (1 / sin d))"
    by (simp add: e7)
  have c: "jsRnd (southPoleRounding 9) (jsDiv (Fin 1) (Fin (rnd (southPoleRounding 8) (cos (d - pi / 2)))))
             = Fin (1 / sin d)"
    using d by (simp add: s southPoleRounding_def rnd_def)
  have PI: "0 \<le> rnd (southPoleRounding 0) pi"
    by (simp add: southPoleRounding_def rnd_def)
  have y: "jsRnd (southPoleRounding 15) (jsDiv (jsRnd (southPoleRounding 14) (jsMul (Fin (rnd (southPoleRounding 1) (2 powi 1)))
             (jsRnd (southPoleRounding 13) (jsSub (Fin 1)
                    (jsRnd (southPoleRounding 12) (jsDiv (jsRnd (southPoleRounding 11) (jsLog (jsRnd (southPoleRounding 10)
                      (jsAdd (Fin (- (1 / sin d))) (Fin (1 / sin d))))))
                       (Fin (rnd (southPoleRounding 0) pi)))))))) (Fin 2)) = PosInf"
    using PI by (simp add: rnd_def jsSub_def) (simp add: southPoleRounding_def)
  show ?thesis
    unfolding latLngToPreciseTileXY_js_def Let_def southPole_latRad d_def[symmetric] t c y
    by (simp add: southPoleRounding_def rnd_def)
qed


lemma rowMajor_3:
  "rowMajor 3 = [(0, 0), (0, 1), (0, 2), (1, 0), (1, 1), (1, 2), (2, 0), (2, 1), (2, 2)]"
proof -
  have "[0..2::int] = [0, 1, 2]" by (simp add: upto_rec1)
  then show ?thesis by (simp add: rowMajor_def)
qed

lemma fl_origin_zoom1: "latLngToPreciseTileXY_fl (\<lambda>i. 0) 0 0 1 = \<lparr>x = 1, y = 1\<rparr>"
  by (simp add: fl_exact tile_of_origin_zoom1)

section \<open>The size of the rounding error of the forward projection\<close>

text \<open>
  The rounded tile coordinate differs from the exact one by at most
  \<open>2^zoom * 8 / 2^51\<close> on the x axis and \<open>2^zoom * 1000 / 2^51\<close> on the y axis
  (for latitudes of at most 85 degrees in absolute value, where the function
  \<open>ln (tan r + 1 / cos r)\<close> has derivative \<open>1 / cos r \<le> 40 / 3\<close>). Up to the
  maximal zoom the tile indices of the centre are therefore integers far below
  \<open>2^53\<close>.
\<close>

lemma lipschitz_deriv_on:
  fixes f :: "real \<Rightarrow> real"
  assumes d: "\<And>x. \<bar>x\<bar> \<le> R \<Longrightarrow> (f has_real_derivative f' x) (at x)"
    and b: "\<And>x. \<bar>x\<bar> \<le> R \<Longrightarrow> \<bar>f' x\<bar> \<le> K"
    and a: "\<bar>a\<bar> \<le> R" "\<bar>c\<bar> \<le> R"
  shows "\<bar>f a - f c\<bar> \<le> K * \<bar>a - c\<bar>"
proof -
  have aux: "\<bar>f q - f p\<bar> \<le> K * \<bar>q - p\<bar>" if "p < q" "\<bar>p\<bar> \<le> R" "\<bar>q\<bar> \<le> R" for p q
  proof -
    have "\<And>x. p \<le> x \<Longrightarrow> x \<le> q \<Longrightarrow> (f has_real_derivative f' x) (at x)"
      using that by (intro d) linarith
    from MVT2[OF that(1), of f f', OF this] obtain z where z: "p < z" "z < q" "f q - f p = (q - p) * f' z"
      by blast
    have "\<bar>z\<bar> \<le> R" using z that by linarith
    from z have "\<bar>f q - f p\<bar> = \<bar>q - p\<bar> * \<bar>f' z\<bar>" by (simp add: abs_mult)
    also have "\<dots> \<le> \<bar>q - p\<bar> * K" using b[OF \<open>\<bar>z\<bar> \<le> R\<close>] by (intro mult_left_mono) simp_all
    finally show ?thesis by (simp add: mult.commute)
  qed
  consider "a < c" | "a = c" | "c < a" by linarith
  then show ?thesis
  proof cases
    case 1 from aux[OF 1 a] show ?thesis by (simp add: abs_minus_commute)
  next
    case 2 then show ?thesis by simp
  next
    case 3 from aux[OF 3 a(2,1)] show ?thesis by simp
  qed
qed

lemma mercator_deriv:
  fixes x :: real
  assumes c: "0 < cos x"
  shows "((\<lambda>x. ln (tan x + 1 / cos x)) has_real_derivative 1 / cos x) (at x)"
proof -
  have c0: "cos x \<noteq> 0" using c by simp
  have pos: "0 < tan x + 1 / cos x" by (rule mercator_arg(1)[OF c])
  have s1: "1 + sin x \<noteq> 0"
    using pos c by (simp add: tan_def add_divide_distrib[symmetric] zero_less_divide_iff)
  have g: "tan x + 1 / cos x = (1 + sin x) / cos x"
    by (simp add: tan_def add_divide_distrib)
  have sc: "(sin x)\<^sup>2 + (cos x)\<^sup>2 = 1" by simp
  have h1: "(tan has_real_derivative inverse ((cos x)\<^sup>2)) (at x)"
    by (rule DERIV_tan[OF c0])
  have "(cos has_real_derivative - sin x) (at x)" by (rule DERIV_cos)
  from DERIV_divide[OF DERIV_const[of 1] this c0]
  have h2: "((\<lambda>x. 1 / cos x) has_real_derivative sin x / (cos x * cos x)) (at x)"
    by simp
  from DERIV_add[OF h1 h2]
  have h3: "((\<lambda>x. tan x + 1 / cos x) has_real_derivative
              inverse ((cos x)\<^sup>2) + sin x / (cos x * cos x)) (at x)" .
  from DERIV_chain2[of ln, OF DERIV_ln_divide[OF pos] h3]
  have h4: "((\<lambda>x. ln (tan x + 1 / cos x)) has_real_derivative
              1 / (tan x + 1 / cos x) * (inverse ((cos x)\<^sup>2) + sin x / (cos x * cos x))) (at x)" .
  have "inverse ((cos x)\<^sup>2) + sin x / (cos x * cos x) = ((1 + sin x) / cos x) * (1 / cos x)"
    using c0 by (simp add: power2_eq_square divide_inverse algebra_simps)
  then have "1 / (tan x + 1 / cos x) * (inverse ((cos x)\<^sup>2) + sin x / (cos x * cos x)) = 1 / cos x"
    unfolding g using c0 s1 by simp
  with h4 show ?thesis by simp
qed

lemma mercator_lipschitz:
  fixes a c :: real
  assumes "\<bar>a\<bar> \<le> pi / 2 - 1 / 13" "\<bar>c\<bar> \<le> pi / 2 - 1 / 13"
  shows "\<bar>ln (tan a + 1 / cos a) - ln (tan c + 1 / cos c)\<bar> \<le> 40 / 3 * \<bar>a - c\<bar>"
proof (rule lipschitz_deriv_on[where f = "\<lambda>x. ln (tan x + 1 / cos x)" and f' = "\<lambda>x. 1 / cos x"
        and R = "pi / 2 - 1 / 13", OF _ _ assms])
  fix x :: real
  assume "\<bar>x\<bar> \<le> pi / 2 - 1 / 13"
  then have c: "3 / 40 \<le> cos x" by (rule cos_lower)
  then have c0: "0 < cos x" by linarith
  show "((\<lambda>x. ln (tan x + 1 / cos x)) has_real_derivative 1 / cos x) (at x)"
    by (rule mercator_deriv[OF c0])
  show "\<bar>1 / cos x\<bar> \<le> 40 / 3"
    using c c0 by (simp add: field_simps)
qed

lemma forward_fl_x:
  assumes e: "\<And>i. \<bar>e i\<bar> \<le> 1 / 2 ^ 52" and lo: "\<bar>lo\<bar> \<le> 180"
  shows "\<bar>x (latLngToPreciseTileXY_fl e la lo z) - x (latLngToPreciseTileXY la lo z)\<bar>
           \<le> 2 powi z * (8 / 2 ^ 51)"
proof -
  define v :: real where "v = 1 / 2 ^ 51"
  define n where "n = rnd (e 1) (2 powi z)"
  have v0: "0 \<le> v" "v \<le> 1 / 1000000000000000" by (simp_all add: v_def)
  have step: "near k a' b' \<Longrightarrow> k + v \<le> l \<Longrightarrow> near l (rnd (e i) a') b'" for k a' b' l i
    using near_rnd'[OF _ e] by (simp add: v_def)
  have n: "near v n (2 powi z)"
    unfolding n_def by (rule step[OF near_refl]) simp
  have "near v (rnd (e 4) (lo + 180)) (lo + 180)"
    by (rule step[OF near_refl]) simp
  from near_div[OF this near_refl[of 360]]
  have "near v (rnd (e 4) (lo + 180) / 360) ((lo + 180) / 360)" by simp
  then have "near (2 * v) (rnd (e 5) (rnd (e 4) (lo + 180) / 360)) ((lo + 180) / 360)"
    by (rule step) simp
  from near_mult[OF n this]
  have "near (3 * v) (n * rnd (e 5) (rnd (e 4) (lo + 180) / 360)) (2 powi z * ((lo + 180) / 360))"
    by simp
  then have nr: "near (4 * v) (rnd (e 6) (n * rnd (e 5) (rnd (e 4) (lo + 180) / 360)))
               (2 powi z * ((lo + 180) / 360))"
    by (rule step) simp
  have "\<bar>(lo + 180) / 360\<bar> \<le> 1" using lo by simp
  then have "\<bar>2 powi z * ((lo + 180) / 360)\<bar> \<le> 2 powi z * 1"
    unfolding abs_mult by (intro mult_mono) simp_all
  then have b: "\<bar>2 powi z * ((lo + 180) / 360)\<bar> \<le> 2 powi z" by simp
  from near_err_bound[OF nr _ b] v0
  have "\<bar>rnd (e 6) (n * rnd (e 5) (rnd (e 4) (lo + 180) / 360)) - 2 powi z * ((lo + 180) / 360)\<bar>
          \<le> 2 * (4 * v) * 2 powi z" by simp
  then show ?thesis
    by (simp add: latLngToPreciseTileXY_fl_def latLngToPreciseTileXY_def Let_def n_def v_def
          mult.commute)
qed

lemma forward_fl_y:
  assumes e: "\<And>i. \<bar>e i\<bar> \<le> 1 / 2 ^ 52" and la: "\<bar>la\<bar> \<le> 85"
  shows "\<bar>y (latLngToPreciseTileXY_fl e la lo z) - y (latLngToPreciseTileXY la lo z)\<bar>
           \<le> 2 powi z * (1000 / 2 ^ 51)"
    and "\<bar>y (latLngToPreciseTileXY la lo z)\<bar> \<le> 2 powi z * 5"
proof -
  define v :: real where "v = 1 / 2 ^ 51"
  define PI where "PI = rnd (e 0) pi"
  define n where "n = rnd (e 1) (2 powi z)"
  define N :: real where "N = 2 powi z"
  define phi where "phi = la * pi / 180"
  define m1 where "m1 = rnd (e 2) (la * PI)"
  define r where "r = rnd (e 3) (m1 / 180)"
  define U where "U = rnd (e 10) (rnd (e 7) (tan r) + rnd (e 9) (1 / rnd (e 8) (cos r)))"
  define Lam where "Lam = ln (tan r + 1 / cos r)"
  define Lphi where "Lphi = ln (tan phi + 1 / cos phi)"
  define Lt where "Lt = rnd (e 11) (ln U)"
  define q where "q = rnd (e 12) (Lt / PI)"
  define w where "w = rnd (e 13) (1 - q)"
  define nw where "nw = rnd (e 14) (n * w)"
  define yt where "yt = rnd (e 15) (nw / 2)"
  have N0: "0 < N" by (simp add: N_def)
  have v0: "0 \<le> v" "v \<le> 1 / 1000000000000000" by (simp_all add: v_def)
  have step: "near k a' b' \<Longrightarrow> k + v \<le> l \<Longrightarrow> near l (rnd (e i) a') b'" for k a' b' l i
    using near_rnd'[OF _ e] by (simp add: v_def)
  have PI: "near v PI pi"
    unfolding PI_def by (rule step[OF near_refl]) simp
  have n: "near v n N"
    unfolding n_def N_def by (rule step[OF near_refl]) simp
  \<comment> \<open>radians\<close>
  have "near v (la * PI) (la * pi)"
    using near_mult[OF near_refl[of la] PI] by simp
  then have "near (2 * v) m1 (la * pi)"
    unfolding m1_def by (rule step) simp
  from near_div[OF this near_refl[of 180]] have "near (2 * v) (m1 / 180) phi"
    by (simp add: phi_def)
  then have r_near: "near (3 * v) r phi"
    unfolding r_def by (rule step) simp
  have phi_b: "\<bar>phi\<bar> \<le> 85 * pi / 180"
  proof -
    have "\<bar>phi\<bar> = \<bar>la\<bar> * pi / 180" by (simp add: phi_def abs_mult)
    also have "\<dots> \<le> 85 * pi / 180" using la by (simp add: mult_right_mono)
    finally show ?thesis .
  qed
  then have phi_2: "\<bar>phi\<bar> \<le> 2" using pi_less_4 by linarith
  have r_phi: "\<bar>r - phi\<bar> \<le> 12 * v"
    using near_err_bound[OF r_near _ phi_2] v0 by simp
  have phi_r: "\<bar>phi\<bar> \<le> pi / 2 - 1 / 13"
    using phi_b pi_ge_3 by linarith
  have r_b: "\<bar>r\<bar> \<le> pi / 2 - 1 / 13"
    using r_phi phi_b pi_ge_3 v0 by linarith
  have c: "3 / 40 \<le> cos r" using r_b by (rule cos_lower)
  have cphi: "3 / 40 \<le> cos phi" using phi_r by (rule cos_lower)
  \<comment> \<open>the logarithm\<close>
  have lnU: "\<bar>ln U - Lam\<bar> \<le> 4269 * v"
    using mercator_sum_fl[OF c e e e e, of 10 7 9 8] by (simp add: U_def Lam_def v_def)
  have "\<bar>Lam - Lphi\<bar> \<le> 40 / 3 * \<bar>r - phi\<bar>"
    unfolding Lam_def Lphi_def by (rule mercator_lipschitz[OF r_b phi_r])
  also have "\<dots> \<le> 40 / 3 * (12 * v)" using r_phi by (intro mult_left_mono) simp_all
  finally have LL: "\<bar>Lam - Lphi\<bar> \<le> 160 * v" by simp
  have Lphi_b: "\<bar>Lphi\<bar> \<le> 26"
    unfolding Lphi_def by (rule mercator_arg_bounds(2)[OF cphi])
  have lnU_b: "\<bar>ln U\<bar> \<le> 27" using lnU LL Lphi_b v0 by linarith
  have "near v Lt (ln U)"
    unfolding Lt_def by (rule step[OF near_refl]) simp
  from near_err_bound[OF this _ lnU_b] have "\<bar>Lt - ln U\<bar> \<le> 54 * v" using v0 by simp
  with lnU LL have Lt: "\<bar>Lt - Lphi\<bar> \<le> 4483 * v" by linarith
  with Lphi_b v0 have Lt_b: "\<bar>Lt\<bar> \<le> 27" by linarith
  \<comment> \<open>the quotient by pi\<close>
  have Ltpi_b: "\<bar>Lt / pi\<bar> \<le> 9"
  proof -
    have "\<bar>Lt / pi\<bar> = \<bar>Lt\<bar> / pi" by simp
    also have "\<dots> \<le> 27 / pi" using Lt_b by (intro divide_right_mono) simp_all
    also have "\<dots> \<le> 27 / 3" using pi_ge_3 by (intro divide_left_mono) simp_all
    finally show ?thesis by simp
  qed
  have "near v (Lt / PI) (Lt / pi)"
    using near_div[OF near_refl[of Lt] PI] by simp
  then have "near (2 * v) q (Lt / pi)"
    unfolding q_def by (rule step) simp
  from near_err_bound[OF this _ Ltpi_b] have q: "\<bar>q - Lt / pi\<bar> \<le> 36 * v" using v0 by simp
  have "\<bar>Lt / pi - Lphi / pi\<bar> = \<bar>Lt - Lphi\<bar> / pi"
    by (simp add: diff_divide_distrib[symmetric])
  also have "\<dots> \<le> (4483 * v) / pi" using Lt by (intro divide_right_mono) simp_all
  also have "\<dots> \<le> (4483 * v) / 3" using pi_ge_3 v0 by (intro divide_left_mono) simp_all
  finally have "\<bar>Lt / pi - Lphi / pi\<bar> \<le> 1495 * v" using v0 by linarith
  with q have qphi: "\<bar>q - Lphi / pi\<bar> \<le> 1531 * v" by linarith
  have q_b: "\<bar>q\<bar> \<le> 10" using q Ltpi_b v0 by linarith
  then have q1_b: "\<bar>1 - q\<bar> \<le> 11" by linarith
  have "near v w (1 - q)"
    unfolding w_def by (rule step[OF near_refl]) simp
  from near_err_bound[OF this _ q1_b] have "\<bar>w - (1 - q)\<bar> \<le> 22 * v" using v0 by simp
  with qphi have wphi: "\<bar>w - (1 - Lphi / pi)\<bar> \<le> 1553 * v" by linarith
  have Lphipi_b: "\<bar>Lphi / pi\<bar> \<le> 9"
  proof -
    have "\<bar>Lphi / pi\<bar> = \<bar>Lphi\<bar> / pi" by simp
    also have "\<dots> \<le> 26 / pi" using Lphi_b by (intro divide_right_mono) simp_all
    also have "\<dots> \<le> 26 / 3" using pi_ge_3 by (intro divide_left_mono) simp_all
    also have "\<dots> \<le> (9::real)" by simp
    finally show ?thesis .
  qed
  have w_b: "\<bar>w\<bar> \<le> 11" using wphi Lphipi_b v0 by linarith
  \<comment> \<open>the scaling by n\<close>
  from near_mult[OF n near_refl[of w]] have "near v (n * w) (N * w)" by simp
  then have "near (2 * v) nw (N * w)"
    unfolding nw_def by (rule step) simp
  from near_div[OF this near_refl[of 2]] have "near (2 * v) (nw / 2) (N * w / 2)" by simp
  then have yt_near: "near (3 * v) yt (N * w / 2)"
    unfolding yt_def by (rule step) simp
  have "\<bar>N * w / 2\<bar> = N * \<bar>w\<bar> / 2" using N0 by (simp add: abs_mult)
  also have "\<dots> \<le> N * 11 / 2" using w_b N0 by (intro divide_right_mono mult_left_mono) simp_all
  finally have Nw_b: "\<bar>N * w / 2\<bar> \<le> N * 11 / 2" .
  from near_err_bound[OF yt_near _ Nw_b] v0
  have y1: "\<bar>yt - N * w / 2\<bar> \<le> 2 * (3 * v) * (N * 11 / 2)" by simp
  define W0 where "W0 = 1 - Lphi / pi"
  have wW: "\<bar>w - W0\<bar> \<le> 1553 * v" using wphi by (simp add: W0_def)
  have eq: "N * w / 2 - N * W0 / 2 = (N / 2) * (w - W0)" by (simp add: algebra_simps)
  have "\<bar>N * w / 2 - N * W0 / 2\<bar> = (N / 2) * \<bar>w - W0\<bar>"
    unfolding eq using N0 by (simp add: abs_mult)
  also have "\<dots> \<le> (N / 2) * (1553 * v)"
    using wW N0 by (intro mult_left_mono) simp_all
  finally have y2: "\<bar>N * w / 2 - N * W0 / 2\<bar> \<le> (N / 2) * (1553 * v)" .
  have "\<bar>yt - N * W0 / 2\<bar> \<le> 2 * (3 * v) * (N * 11 / 2) + (N / 2) * (1553 * v)"
    using y1 y2 by linarith
  also have "\<dots> = N * (1619 * v / 2)" by (simp add: algebra_simps)
  also have "\<dots> \<le> N * (1000 * v)" using N0 v0 by (intro mult_left_mono) simp_all
  finally have "\<bar>yt - N * (1 - Lphi / pi) / 2\<bar> \<le> N * (1000 * v)" by (simp add: W0_def)
  then show "\<bar>y (latLngToPreciseTileXY_fl e la lo z) - y (latLngToPreciseTileXY la lo z)\<bar>
           \<le> 2 powi z * (1000 / 2 ^ 51)"
    by (simp add: latLngToPreciseTileXY_fl_def latLngToPreciseTileXY_def Let_def yt_def nw_def
          w_def q_def Lt_def U_def r_def m1_def PI_def n_def N_def Lphi_def phi_def v_def)
  have "\<bar>1 - Lphi / pi\<bar> \<le> 10" using Lphipi_b by linarith
  then have "\<bar>N * (1 - Lphi / pi) / 2\<bar> \<le> N * 10 / 2"
    using N0 by (simp add: abs_mult)
  then show "\<bar>y (latLngToPreciseTileXY la lo z)\<bar> \<le> 2 powi z * 5"
    by (simp add: latLngToPreciseTileXY_def Let_def N_def Lphi_def phi_def)
qed

lemma pow2_le_max:
  assumes "z \<le> MAX_ZOOM"
  shows "(2::real) powi z \<le> 4194304"
proof -
  from assms have "z \<le> 22" by (simp add: MAX_ZOOM_def)
  then have "(2::real) powi z \<le> 2 powi 22" by (intro power_int_increasing) simp_all
  then show ?thesis by simp
qed

lemma floor_abs_bound:
  fixes a :: real
  assumes "\<bar>a\<bar> \<le> B"
  shows "\<bar>real_of_int \<lfloor>a\<rfloor>\<bar> \<le> B + 1"
proof -
  have "real_of_int \<lfloor>a\<rfloor> \<le> a" "a < real_of_int \<lfloor>a\<rfloor> + 1" by linarith+
  with assms show ?thesis by linarith
qed

lemma center_index_bounds:
  assumes e: "\<And>i. \<bar>e i\<bar> \<le> 1 / 2 ^ 52" and la: "\<bar>la\<bar> \<le> 85" and lo: "\<bar>lo\<bar> \<le> 180"
    and z: "z \<le> MAX_ZOOM"
  shows "\<bar>\<lfloor>x (latLngToPreciseTileXY_fl e la lo z)\<rfloor>\<bar> < 2 ^ 25"
    and "\<bar>\<lfloor>y (latLngToPreciseTileXY_fl e la lo z)\<rfloor>\<bar> < 2 ^ 25"
proof -
  define N :: real where "N = 2 powi z"
  have N: "0 < N" "N \<le> 4194304" using pow2_le_max[OF z] by (simp_all add: N_def)
  have small: "N * (8 / 2 ^ 51) \<le> 1" "N * (1000 / 2 ^ 51) \<le> 1"
    using N by simp_all
  have "\<bar>(lo + 180) / 360\<bar> \<le> 1" using lo by simp
  then have "\<bar>N * ((lo + 180) / 360)\<bar> \<le> N * 1"
    unfolding abs_mult using N by (intro mult_mono) simp_all
  then have xb: "\<bar>x (latLngToPreciseTileXY la lo z)\<bar> \<le> N"
    by (simp add: latLngToPreciseTileXY_def Let_def N_def)
  have "\<bar>x (latLngToPreciseTileXY_fl e la lo z) - x (latLngToPreciseTileXY la lo z)\<bar> \<le> 1"
    using forward_fl_x[where e = e and la = la and lo = lo and z = z, OF e lo] small(1)
    unfolding N_def[symmetric] by (rule order_trans)
  then have "\<bar>x (latLngToPreciseTileXY_fl e la lo z)\<bar> \<le> 4194305"
    using xb N by linarith
  from floor_abs_bound[OF this]
  have "\<bar>\<lfloor>x (latLngToPreciseTileXY_fl e la lo z)\<rfloor>\<bar> < 33554432" by linarith
  then show "\<bar>\<lfloor>x (latLngToPreciseTileXY_fl e la lo z)\<rfloor>\<bar> < 2 ^ 25" by simp
  have "\<bar>y (latLngToPreciseTileXY_fl e la lo z) - y (latLngToPreciseTileXY la lo z)\<bar> \<le> 1"
    using forward_fl_y(1)[where e = e and la = la and lo = lo and z = z, OF e la] small(2)
    unfolding N_def[symmetric] by (rule order_trans)
  moreover have "\<bar>y (latLngToPreciseTileXY la lo z)\<bar> \<le> N * 5"
    using forward_fl_y(2)[where e = e and la = la and lo = lo and z = z, OF e la]
    unfolding N_def[symmetric] .
  ultimately have "\<bar>y (latLngToPreciseTileXY_fl e la lo z)\<bar> \<le> 20971521"
    using N by linarith
  from floor_abs_bound[OF this]
  have "\<bar>\<lfloor>y (latLngToPreciseTileXY_fl e la lo z)\<rfloor>\<bar> < 33554432" by linarith
  then show "\<bar>\<lfloor>y (latLngToPreciseTileXY_fl e la lo z)\<rfloor>\<bar> < 2 ^ 25" by simp
qed

section \<open>The rounding error of the inverse projection and of a re-projection\<close>

text \<open>
  The latitude the rounded inverse projection returns, in radians, differs from the
  exact one by at most \<open>743 / 2^51\<close>. A tile coordinate sent through the rounded
  inverse projection and back through the rounded forward projection (with rounding
  errors of its own) comes back within \<open>2^zoom * 40 / 2^51\<close> on the x axis and
  \<open>2^zoom * 2700 / 2^51\<close> on the y axis, provided the geographic coordinate in
  between is in the Mercator range.
\<close>

lemma arctan_abs_bound: "\<bar>arctan a\<bar> \<le> 2"
proof -
  have "- (pi / 2) < arctan a" "arctan a < pi / 2" by (rule arctan_lbound arctan_ubound)+
  with pi_less_4 show ?thesis by linarith
qed

lemma inverse_fl_lat:
  assumes e: "\<And>i. \<bar>e i\<bar> \<le> 1 / 2 ^ 52" and ty: "\<bar>ty\<bar> \<le> 7 * 2 powi z"
  shows "\<bar>lat (preciseTileXYToLatLng_fl e tx ty z) * pi / 180
            - arctan (sinh (pi * (1 - 2 * ty / 2 powi z)))\<bar> \<le> 743 / 2 ^ 51"
proof -
  define v :: real where "v = 1 / 2 ^ 51"
  define PI where "PI = rnd (e 0) pi"
  define N :: real where "N = 2 powi z"
  define n where "n = rnd (e 1) N"
  define a0 where "a0 = 2 * ty / N"
  define M0 where "M0 = pi * (1 - a0)"
  define t2 where "t2 = rnd (e 19) (2 * ty)"
  define a where "a = rnd (e 20) (t2 / n)"
  define b where "b = rnd (e 21) (1 - a)"
  define M where "M = rnd (e 22) (PI * b)"
  define sh where "sh = rnd (e 23) (sinh M)"
  define atr where "atr = rnd (e 24) (arctan sh)"
  define d1 where "d1 = rnd (e 25) (atr * 180)"
  define latDeg where "latDeg = rnd (e 26) (d1 / PI)"
  have N0: "0 < N" by (simp add: N_def)
  have v0: "0 \<le> v" "v \<le> 1 / 1000000000000000" by (simp_all add: v_def)
  have step: "near k a' b' \<Longrightarrow> k + v \<le> l \<Longrightarrow> near l (rnd (e i) a') b'" for k a' b' l i
    using near_rnd'[OF _ e] by (simp add: v_def)
  have PI: "near v PI pi"
    unfolding PI_def by (rule step[OF near_refl]) simp
  have n: "near v n N"
    unfolding n_def by (rule step[OF near_refl]) simp
  have a0_b: "\<bar>a0\<bar> \<le> 14"
  proof -
    have "\<bar>a0\<bar> = 2 * \<bar>ty\<bar> / N" using N0 by (simp add: a0_def)
    also have "\<dots> \<le> 2 * (7 * N) / N"
      using ty N0 unfolding N_def by (intro divide_right_mono mult_left_mono) simp_all
    finally show ?thesis using N0 by simp
  qed
  have "near v t2 (2 * ty)"
    unfolding t2_def by (rule step[OF near_refl]) simp
  from near_div[OF this n] have "near (2 * v) (t2 / n) a0" by (simp add: a0_def)
  then have "near (3 * v) a a0"
    unfolding a_def by (rule step) simp
  from near_err_bound[OF this _ a0_b] have a: "\<bar>a - a0\<bar> \<le> 84 * v" using v0 by simp
  with a0_b v0 have a1_b: "\<bar>1 - a\<bar> \<le> 16" by linarith
  have "near v b (1 - a)"
    unfolding b_def by (rule step[OF near_refl]) simp
  from near_err_bound[OF this _ a1_b] have "\<bar>b - (1 - a)\<bar> \<le> 32 * v" using v0 by simp
  with a have b: "\<bar>b - (1 - a0)\<bar> \<le> 116 * v" by linarith
  with a0_b v0 have b_b: "\<bar>b\<bar> \<le> 16" by linarith
  have pib_b: "\<bar>pi * b\<bar> \<le> 64"
  proof -
    have "\<bar>pi * b\<bar> = pi * \<bar>b\<bar>" by (simp add: abs_mult)
    also have "\<dots> \<le> 4 * 16" using pi_less_4 b_b by (intro mult_mono) simp_all
    finally show ?thesis by simp
  qed
  from near_mult[OF PI near_refl[of b]] have "near v (PI * b) (pi * b)" by simp
  then have "near (2 * v) M (pi * b)"
    unfolding M_def by (rule step) simp
  from near_err_bound[OF this _ pib_b] have M1: "\<bar>M - pi * b\<bar> \<le> 256 * v" using v0 by simp
  have "\<bar>pi * b - M0\<bar> = pi * \<bar>b - (1 - a0)\<bar>"
    unfolding M0_def by (simp only: right_diff_distrib[symmetric] abs_mult) simp
  also have "\<dots> \<le> 4 * (116 * v)" using pi_less_4 b by (intro mult_mono) simp_all
  finally have "\<bar>pi * b - M0\<bar> \<le> 464 * v" by simp
  with M1 have M: "\<bar>M - M0\<bar> \<le> 720 * v" by linarith
  have g1: "\<bar>arctan (sinh M) - arctan (sinh M0)\<bar> \<le> 720 * v"
    using gd_lipschitz[of M M0] M by linarith
  have "near v sh (sinh M)"
    unfolding sh_def by (rule step[OF near_refl]) simp
  then obtain t where t: "\<bar>t\<bar> \<le> v" "sh = sinh M * exp t" by (auto simp: near_def)
  have g2: "\<bar>arctan sh - arctan (sinh M)\<bar> \<le> v"
    using arctan_scale_lipschitz[of "sinh M" t] t by simp
  have "near v atr (arctan sh)"
    unfolding atr_def by (rule step[OF near_refl]) simp
  from near_err_bound[OF this _ arctan_abs_bound] have g3: "\<bar>atr - arctan sh\<bar> \<le> 4 * v"
    using v0 by simp
  have atr_b: "\<bar>atr\<bar> \<le> 3" using g3 arctan_abs_bound[of sh] v0 by linarith
  from near_mult[OF near_refl[of atr] near_refl[of 180]] have "near 0 (atr * 180) (atr * 180)" by simp
  then have "near v d1 (atr * 180)"
    unfolding d1_def by (rule step) simp
  from near_div[OF this PI] have "near (2 * v) (d1 / PI) (atr * 180 / pi)" by simp
  then have "near (3 * v) latDeg (atr * 180 / pi)"
    unfolding latDeg_def by (rule step) simp
  from near_mult[OF this near_refl[of "pi / 180"]]
  have "near (3 * v) (latDeg * pi / 180) atr" by simp
  from near_err_bound[OF this _ atr_b] have g4: "\<bar>latDeg * pi / 180 - atr\<bar> \<le> 18 * v"
    using v0 by simp
  have "\<bar>latDeg * pi / 180 - arctan (sinh M0)\<bar> \<le> 743 * v"
    using g1 g2 g3 g4 by linarith
  then show ?thesis
    by (simp add: preciseTileXYToLatLng_fl_def Let_def latDeg_def d1_def atr_def sh_def M_def
          b_def a_def t2_def n_def N_def PI_def M0_def a0_def v_def)
qed

lemma reproject_y:
  assumes e: "\<And>i. \<bar>e i\<bar> \<le> 1 / 2 ^ 52" and e': "\<And>i. \<bar>e' i\<bar> \<le> 1 / 2 ^ 52"
    and ty: "\<bar>ty\<bar> \<le> 7 * 2 powi z"
    and la: "\<bar>lat (preciseTileXYToLatLng_fl e tx ty z)\<bar> \<le> 85"
  shows "\<bar>y (latLngToPreciseTileXY_fl e' (lat (preciseTileXYToLatLng_fl e tx ty z)) lo z) - ty\<bar>
           \<le> 2 powi z * (2700 / 2 ^ 51)"
proof -
  define v :: real where "v = 1 / 2 ^ 51"
  define N :: real where "N = 2 powi z"
  define L where "L = lat (preciseTileXYToLatLng_fl e tx ty z)"
  define rho where "rho = L * pi / 180"
  define M0 where "M0 = pi * (1 - 2 * ty / N)"
  define rho0 where "rho0 = arctan (sinh M0)"
  define Lam where "Lam = ln (tan rho + 1 / cos rho)"
  have N0: "0 < N" by (simp add: N_def)
  have v0: "0 \<le> v" "v \<le> 1 / 1000000000000000" by (simp_all add: v_def)
  have d: "\<bar>rho - rho0\<bar> \<le> 743 * v"
    using inverse_fl_lat[where e = e and tx = tx and ty = ty and z = z, OF e ty]
    by (simp add: rho_def rho0_def M0_def L_def N_def v_def)
  have rho_b: "\<bar>rho\<bar> \<le> 85 * pi / 180"
  proof -
    have "\<bar>rho\<bar> = \<bar>L\<bar> * pi / 180" by (simp add: rho_def abs_mult)
    also have "\<dots> \<le> 85 * pi / 180" using la by (simp add: mult_right_mono L_def)
    finally show ?thesis .
  qed
  have r1: "\<bar>rho\<bar> \<le> pi / 2 - 1 / 13" using rho_b pi_ge_3 by linarith
  have r0: "\<bar>rho0\<bar> \<le> pi / 2 - 1 / 13" using rho_b d pi_ge_3 v0 by linarith
  have "ln (tan rho0 + 1 / cos rho0) = M0"
    unfolding rho0_def forward_arg by simp
  with mercator_lipschitz[OF r1 r0] have "\<bar>Lam - M0\<bar> \<le> 40 / 3 * \<bar>rho - rho0\<bar>"
    by (simp add: Lam_def)
  also have "\<dots> \<le> 40 / 3 * (743 * v)" using d by (intro mult_left_mono) simp_all
  also have "\<dots> \<le> 9907 * v" using v0 by simp
  finally have LM: "\<bar>Lam - M0\<bar> \<le> 9907 * v" .
  have ty_eq: "ty = N * (1 - M0 / pi) / 2"
    using N0 by (simp add: M0_def)
  have "N * (1 - Lam / pi) / 2 - ty = (N / (2 * pi)) * (M0 - Lam)"
    unfolding ty_eq by (simp add: field_simps)
  then have "\<bar>N * (1 - Lam / pi) / 2 - ty\<bar> = (N / (2 * pi)) * \<bar>Lam - M0\<bar>"
    using N0 by (simp add: abs_mult abs_minus_commute)
  also have "\<dots> \<le> (N / (2 * pi)) * (9907 * v)"
    using LM N0 by (intro mult_left_mono) simp_all
  also have "\<dots> = N * ((9907 * v) / (2 * pi))" by simp
  also have "\<dots> \<le> N * ((9907 * v) / (2 * 3))"
    using N0 v0 pi_ge_3 by (intro mult_left_mono divide_left_mono) simp_all
  also have "\<dots> \<le> N * (1652 * v)"
    using N0 v0 by (intro mult_left_mono) simp_all
  finally have ex: "\<bar>N * (1 - Lam / pi) / 2 - ty\<bar> \<le> N * (1652 * v)" .
  have yex: "y (latLngToPreciseTileXY L lo z) = N * (1 - Lam / pi) / 2"
    by (simp add: latLngToPreciseTileXY_def Let_def Lam_def rho_def N_def)
  have la': "\<bar>L\<bar> \<le> 85" using la by (simp add: L_def)
  have "\<bar>y (latLngToPreciseTileXY_fl e' L lo z) - y (latLngToPreciseTileXY L lo z)\<bar> \<le> N * (1000 * v)"
    using forward_fl_y(1)[where e = e' and la = L and lo = lo and z = z, OF e' la']
    by (simp add: N_def v_def)
  then have "\<bar>y (latLngToPreciseTileXY_fl e' L lo z) - ty\<bar> \<le> N * (1652 * v) + N * (1000 * v)"
    unfolding yex using ex abs_triangle_ineq[of "y (latLngToPreciseTileXY_fl e' L lo z) - N * (1 - Lam / pi) / 2"
      "N * (1 - Lam / pi) / 2 - ty"] by simp
  also have "\<dots> = N * (2652 * v)" by (simp add: algebra_simps)
  also have "\<dots> \<le> N * (2700 * v)" using N0 v0 by (intro mult_left_mono) simp_all
  finally show ?thesis by (simp add: L_def N_def v_def)
qed

lemma reproject_x:
  assumes e: "\<And>i. \<bar>e i\<bar> \<le> 1 / 2 ^ 52" and e': "\<And>i. \<bar>e' i\<bar> \<le> 1 / 2 ^ 52"
    and tx: "\<bar>tx\<bar> \<le> 3 * 2 powi z"
    and lo: "\<bar>lng (preciseTileXYToLatLng_fl e tx ty z)\<bar> \<le> 180"
  shows "\<bar>x (latLngToPreciseTileXY_fl e' la (lng (preciseTileXYToLatLng_fl e tx ty z)) z) - tx\<bar>
           \<le> 2 powi z * (40 / 2 ^ 51)"
proof -
  define v :: real where "v = 1 / 2 ^ 51"
  define N :: real where "N = 2 powi z"
  define n where "n = rnd (e 1) N"
  define B where "B = tx / N * 360"
  define q where "q = rnd (e 16) (tx / n)"
  define A where "A = rnd (e 17) (q * 360)"
  define LG where "LG = rnd (e 18) (A - 180)"
  have N0: "0 < N" by (simp add: N_def)
  have v0: "0 \<le> v" "v \<le> 1 / 1000000000000000" by (simp_all add: v_def)
  have step: "near k a' b' \<Longrightarrow> k + v \<le> l \<Longrightarrow> near l (rnd (e i) a') b'" for k a' b' l i
    using near_rnd'[OF _ e] by (simp add: v_def)
  have n: "near v n N"
    unfolding n_def by (rule step[OF near_refl]) simp
  have LG_eq: "lng (preciseTileXYToLatLng_fl e tx ty z) = LG"
    by (simp add: preciseTileXYToLatLng_fl_def Let_def LG_def A_def q_def n_def N_def)
  have B_b: "\<bar>B\<bar> \<le> 1080"
  proof -
    have "\<bar>B\<bar> = \<bar>tx\<bar> / N * 360" using N0 by (simp add: B_def)
    also have "\<dots> \<le> (3 * N) / N * 360"
      using tx N0 unfolding N_def by (intro mult_right_mono divide_right_mono) simp_all
    finally show ?thesis using N0 by simp
  qed
  from near_div[OF near_refl[of tx] n] have "near v (tx / n) (tx / N)" by simp
  then have "near (2 * v) q (tx / N)"
    unfolding q_def by (rule step) simp
  from near_mult[OF this near_refl[of 360]] have "near (2 * v) (q * 360) B" by (simp add: B_def)
  then have "near (3 * v) A B"
    unfolding A_def by (rule step) simp
  from near_err_bound[OF this _ B_b] have AB: "\<bar>A - B\<bar> \<le> 6480 * v" using v0 by simp
  with B_b v0 have A_b: "\<bar>A - 180\<bar> \<le> 1261" by linarith
  have "near v LG (A - 180)"
    unfolding LG_def by (rule step[OF near_refl]) simp
  from near_err_bound[OF this _ A_b] have "\<bar>LG - (A - 180)\<bar> \<le> 2522 * v" using v0 by simp
  with AB have LB: "\<bar>LG + 180 - B\<bar> \<le> 9002 * v" by linarith
  have tx_eq: "tx = N * (B / 360)" using N0 by (simp add: B_def)
  have eq: "N * ((LG + 180) / 360) - tx = (N / 360) * (LG + 180 - B)"
    unfolding tx_eq by (simp add: field_simps)
  have "\<bar>N * ((LG + 180) / 360) - tx\<bar> = \<bar>(N / 360) * (LG + 180 - B)\<bar>"
    by (simp only: eq)
  also have "\<dots> = (N / 360) * \<bar>LG + 180 - B\<bar>"
    using N0 by (simp add: abs_mult)
  also have "\<dots> \<le> (N / 360) * (9002 * v)"
    using LB N0 by (intro mult_left_mono) simp_all
  also have "\<dots> = N * ((9002 * v) / 360)" by simp
  also have "\<dots> \<le> N * (26 * v)"
    using N0 v0 by (intro mult_left_mono) simp_all
  finally have ex: "\<bar>N * ((LG + 180) / 360) - tx\<bar> \<le> N * (26 * v)" .
  have xex: "x (latLngToPreciseTileXY la LG z) = N * ((LG + 180) / 360)"
    by (simp add: latLngToPreciseTileXY_def Let_def N_def)
  have lo': "\<bar>LG\<bar> \<le> 180" using lo by (simp add: LG_eq)
  have "\<bar>x (latLngToPreciseTileXY_fl e' la LG z) - x (latLngToPreciseTileXY la LG z)\<bar> \<le> N * (8 * v)"
    using forward_fl_x[where e = e' and la = la and lo = LG and z = z, OF e' lo']
    by (simp add: N_def v_def)
  then have "\<bar>x (latLngToPreciseTileXY_fl e' la LG z) - tx\<bar> \<le> N * (26 * v) + N * (8 * v)"
    unfolding xex using ex abs_triangle_ineq[of "x (latLngToPreciseTileXY_fl e' la LG z) - N * ((LG + 180) / 360)"
      "N * ((LG + 180) / 360) - tx"] by simp
  also have "\<dots> = N * (34 * v)" by (simp add: algebra_simps)
  also have "\<dots> \<le> N * (40 * v)" using N0 v0 by (intro mult_left_mono) simp_all
  finally show ?thesis by (simp add: LG_eq N_def v_def)
qed

section \<open>Pan followed by grid building, with rounding\<close>

text \<open>
  The fractional tile position of the centre after a pan by whole tiles, as the
  grid builder computes it from the geographic coordinate \<open>handlePanEnd\<close> stored,
  is the position before the pan moved by these tiles, up to
  \<open>2^zoom * 2705 / 2^51\<close>, which up to the maximal zoom is less than
  \<open>1 / 10^5\<close> of a tile.
\<close>

lemma rnd_err:
  assumes "\<bar>e\<bar> \<le> 1 / 2 ^ 52" "\<bar>a\<bar> \<le> B"
  shows "\<bar>rnd e a - a\<bar> \<le> B * (1 / 2 ^ 52)"
proof -
  have "rnd e a - a = a * e" by (simp add: rnd_def algebra_simps)
  then have "\<bar>rnd e a - a\<bar> = \<bar>a\<bar> * \<bar>e\<bar>" by (simp add: abs_mult)
  also have "\<dots> \<le> B * (1 / 2 ^ 52)" using assms by (intro mult_mono) simp_all
  finally show ?thesis .
qed

lemma pan_sub_fl:
  fixes c k N :: real
  assumes e: "\<bar>e1\<bar> \<le> 1 / 2 ^ 52" "\<bar>e2\<bar> \<le> 1 / 2 ^ 52"
    and c: "\<bar>c\<bar> \<le> 11 / 2 * N" and k: "\<bar>k\<bar> \<le> N"
  shows "\<bar>rnd e2 (c - rnd e1 k) - (c - k)\<bar> \<le> N * (5 / 2 ^ 51)"
proof -
  define u :: real where "u = 1 / 2 ^ 52"
  have u: "0 < u" "u \<le> 1" by (simp_all add: u_def)
  have N0: "0 \<le> N" using k by linarith
  have k1: "\<bar>rnd e1 k - k\<bar> \<le> N * u"
    using rnd_err[OF e(1) k] by (simp add: u_def)
  have "N * u \<le> N * 1" using u N0 by (intro mult_left_mono) simp_all
  with k1 c k have "\<bar>c - rnd e1 k\<bar> \<le> 8 * N" by linarith
  from rnd_err[OF e(2) this] have "\<bar>rnd e2 (c - rnd e1 k) - (c - rnd e1 k)\<bar> \<le> 8 * N * u"
    by (simp add: u_def)
  with k1 have "\<bar>rnd e2 (c - rnd e1 k) - (c - k)\<bar> \<le> 9 * N * u" by linarith
  also have "\<dots> \<le> N * (5 / 2 ^ 51)" using N0 by (simp add: u_def)
  finally show ?thesis .
qed

lemma pan_reproject:
  assumes e: "\<And>i. \<bar>e i\<bar> \<le> 1 / 2 ^ 52" and e': "\<And>i. \<bar>e' i\<bar> \<le> 1 / 2 ^ 52"
    and la: "\<bar>la\<bar> \<le> 85" and lo: "\<bar>lo\<bar> \<le> 180"
    and kx: "\<bar>real_of_int kx\<bar> \<le> 2 powi z" and ky: "\<bar>real_of_int ky\<bar> \<le> 2 powi z"
    and la': "\<bar>lat (handlePanEnd_fl e \<lparr>lat = la, lng = lo, zoom = z\<rparr>
                  (real_of_int kx * TILE_SIZE) (real_of_int ky * TILE_SIZE))\<bar> \<le> 85"
    and lo': "\<bar>lng (handlePanEnd_fl e \<lparr>lat = la, lng = lo, zoom = z\<rparr>
                  (real_of_int kx * TILE_SIZE) (real_of_int ky * TILE_SIZE))\<bar> \<le> 180"
  shows "\<bar>x (latLngToPreciseTileXY_fl e'
              (lat (handlePanEnd_fl e \<lparr>lat = la, lng = lo, zoom = z\<rparr>
                  (real_of_int kx * TILE_SIZE) (real_of_int ky * TILE_SIZE)))
              (lng (handlePanEnd_fl e \<lparr>lat = la, lng = lo, zoom = z\<rparr>
                  (real_of_int kx * TILE_SIZE) (real_of_int ky * TILE_SIZE))) z)
           - (x (latLngToPreciseTileXY_fl e la lo z) - real_of_int kx)\<bar> \<le> 2 powi z * (2705 / 2 ^ 51)"
    and "\<bar>y (latLngToPreciseTileXY_fl e'
              (lat (handlePanEnd_fl e \<lparr>lat = la, lng = lo, zoom = z\<rparr>
                  (real_of_int kx * TILE_SIZE) (real_of_int ky * TILE_SIZE)))
              (lng (handlePanEnd_fl e \<lparr>lat = la, lng = lo, zoom = z\<rparr>
                  (real_of_int kx * TILE_SIZE) (real_of_int ky * TILE_SIZE))) z)
           - (y (latLngToPreciseTileXY_fl e la lo z) - real_of_int ky)\<bar> \<le> 2 powi z * (2705 / 2 ^ 51)"
proof -
  define v :: real where "v = 1 / 2 ^ 51"
  define N :: real where "N = 2 powi z"
  define xt where "xt = x (latLngToPreciseTileXY_fl e la lo z)"
  define yt where "yt = y (latLngToPreciseTileXY_fl e la lo z)"
  define loc' where "loc' = handlePanEnd_fl e \<lparr>lat = la, lng = lo, zoom = z\<rparr>
                  (real_of_int kx * TILE_SIZE) (real_of_int ky * TILE_SIZE)"
  define x'' where "x'' = x (latLngToPreciseTileXY_fl e' (lat loc') (lng loc') z)"
  define y'' where "y'' = y (latLngToPreciseTileXY_fl e' (lat loc') (lng loc') z)"
  have N0: "0 < N" by (simp add: N_def)
  have v0: "0 < v" "v \<le> 1 / 1000000000000000" by (simp_all add: v_def)
  have Nv: "0 \<le> N * v" using N0 v0 by simp
  \<comment> \<open>the tile coordinate of the centre before the pan\<close>
  have xe: "\<bar>xt - x (latLngToPreciseTileXY la lo z)\<bar> \<le> N * (8 * v)"
    using forward_fl_x[where e = e and la = la and lo = lo and z = z, OF e lo]
    by (simp add: xt_def N_def v_def)
  have ye: "\<bar>yt - y (latLngToPreciseTileXY la lo z)\<bar> \<le> N * (1000 * v)"
    using forward_fl_y(1)[where e = e and la = la and lo = lo and z = z, OF e la]
    by (simp add: yt_def N_def v_def)
  have yb: "\<bar>y (latLngToPreciseTileXY la lo z)\<bar> \<le> N * 5"
    using forward_fl_y(2)[where e = e and la = la and lo = lo and z = z, OF e la]
    by (simp add: N_def)
  have "\<bar>(lo + 180) / 360\<bar> \<le> 1" using lo by simp
  then have "\<bar>N * ((lo + 180) / 360)\<bar> \<le> N * 1"
    unfolding abs_mult using N0 by (intro mult_mono) simp_all
  then have xb: "\<bar>x (latLngToPreciseTileXY la lo z)\<bar> \<le> N"
    by (simp add: latLngToPreciseTileXY_def Let_def N_def)
  have s8: "N * (8 * v) \<le> N * (1 / 2)" "N * (1000 * v) \<le> N * (1 / 2)"
    using N0 v0 by (intro mult_left_mono; simp)+
  have xt_b: "\<bar>xt\<bar> \<le> 11 / 2 * N" using xe xb s8 N0 by linarith
  have yt_b: "\<bar>yt\<bar> \<le> 11 / 2 * N" using ye yb s8 N0 by linarith
  have xt_b2: "\<bar>xt\<bar> \<le> 3 / 2 * N" using xe xb s8 N0 by linarith
  have kxN: "\<bar>real_of_int kx\<bar> \<le> N" and kyN: "\<bar>real_of_int ky\<bar> \<le> N"
    using kx ky by (simp_all add: N_def)
  have main: "\<bar>x'' - (xt - real_of_int kx)\<bar> \<le> 2 powi z * (2705 / 2 ^ 51) \<and>
              \<bar>y'' - (yt - real_of_int ky)\<bar> \<le> 2 powi z * (2705 / 2 ^ 51)"
  proof (cases "kx = 0 \<and> ky = 0")
    case True
    then have l: "loc' = \<lparr>lat = la, lng = lo, zoom = z\<rparr>"
      by (simp add: loc'_def handlePanEnd_fl_def)
    have xe': "\<bar>x'' - x (latLngToPreciseTileXY la lo z)\<bar> \<le> N * (8 * v)"
      using forward_fl_x[where e = e' and la = la and lo = lo and z = z, OF e' lo]
      by (simp add: x''_def l N_def v_def)
    have ye': "\<bar>y'' - y (latLngToPreciseTileXY la lo z)\<bar> \<le> N * (1000 * v)"
      using forward_fl_y(1)[where e = e' and la = la and lo = lo and z = z, OF e' la]
      by (simp add: y''_def l N_def v_def)
    have "\<bar>x'' - xt\<bar> \<le> N * (8 * v) + N * (8 * v)" using xe xe' by linarith
    also have "\<dots> \<le> N * (2705 * v)" using Nv by (simp add: algebra_simps)
    finally have X: "\<bar>x'' - (xt - real_of_int kx)\<bar> \<le> 2 powi z * (2705 / 2 ^ 51)"
      using True by (simp add: N_def v_def)
    have "\<bar>y'' - yt\<bar> \<le> N * (1000 * v) + N * (1000 * v)" using ye ye' by linarith
    also have "\<dots> \<le> N * (2705 * v)" using Nv by (simp add: algebra_simps)
    finally have Y: "\<bar>y'' - (yt - real_of_int ky)\<bar> \<le> 2 powi z * (2705 / 2 ^ 51)"
      using True by (simp add: N_def v_def)
    from X Y show ?thesis ..
  next
    case False
    define tx where "tx = rnd (e 28) (xt - rnd (e 27) (real_of_int kx))"
    define ty where "ty = rnd (e 30) (yt - rnd (e 29) (real_of_int ky))"
    from False have nz: "\<not> (real_of_int kx * TILE_SIZE = 0 \<and> real_of_int ky * TILE_SIZE = 0)"
      by (simp add: TILE_SIZE_def)
    have l: "lat loc' = lat (preciseTileXYToLatLng_fl e tx ty z)"
            "lng loc' = lng (preciseTileXYToLatLng_fl e tx ty z)"
      using False unfolding loc'_def handlePanEnd_fl_def Let_def
      by (auto simp add: tx_def ty_def xt_def yt_def TILE_SIZE_def)
    have txe: "\<bar>tx - (xt - real_of_int kx)\<bar> \<le> N * (5 * v)"
      using pan_sub_fl[where ?e1.0 = "e 27" and ?e2.0 = "e 28", OF e e xt_b kxN] by (simp add: tx_def v_def)
    have tye: "\<bar>ty - (yt - real_of_int ky)\<bar> \<le> N * (5 * v)"
      using pan_sub_fl[where ?e1.0 = "e 29" and ?e2.0 = "e 30", OF e e yt_b kyN] by (simp add: ty_def v_def)
    have s5: "N * (5 * v) \<le> N * (1 / 2)"
      using N0 v0 by (intro mult_left_mono) simp_all
    have tx_b: "\<bar>tx\<bar> \<le> 3 * 2 powi z"
      using txe xt_b2 kxN s5 N0 unfolding N_def[symmetric] by linarith
    have ty_b: "\<bar>ty\<bar> \<le> 7 * 2 powi z"
      using tye yt_b kyN s5 N0 unfolding N_def[symmetric] by linarith
    have la2: "\<bar>lat (preciseTileXYToLatLng_fl e tx ty z)\<bar> \<le> 85"
      using la' by (simp add: loc'_def[symmetric] l)
    have lo2: "\<bar>lng (preciseTileXYToLatLng_fl e tx ty z)\<bar> \<le> 180"
      using lo' by (simp add: loc'_def[symmetric] l)
    have "\<bar>x'' - tx\<bar> \<le> N * (40 * v)"
      using reproject_x[where e = e and e' = e' and tx = tx and ty = ty and z = z
          and la = "lat (preciseTileXYToLatLng_fl e tx ty z)", OF e e' tx_b lo2]
      by (simp add: x''_def l N_def v_def)
    with txe have "\<bar>x'' - (xt - real_of_int kx)\<bar> \<le> N * (40 * v) + N * (5 * v)" by linarith
    also have "\<dots> \<le> N * (2705 * v)" using Nv by (simp add: algebra_simps)
    finally have X: "\<bar>x'' - (xt - real_of_int kx)\<bar> \<le> 2 powi z * (2705 / 2 ^ 51)"
      by (simp add: N_def v_def)
    have "\<bar>y'' - ty\<bar> \<le> N * (2700 * v)"
      using reproject_y[where e = e and e' = e' and tx = tx and ty = ty and z = z
          and lo = "lng (preciseTileXYToLatLng_fl e tx ty z)", OF e e' ty_b la2]
      by (simp add: y''_def l N_def v_def)
    with tye have "\<bar>y'' - (yt - real_of_int ky)\<bar> \<le> N * (2700 * v) + N * (5 * v)" by linarith
    also have "\<dots> = N * (2705 * v)" by (simp add: algebra_simps)
    finally have Y: "\<bar>y'' - (yt - real_of_int ky)\<bar> \<le> 2 powi z * (2705 / 2 ^ 51)"
      by (simp add: N_def v_def)
    from X Y show ?thesis ..
  qed
  then show
    "\<bar>x (latLngToPreciseTileXY_fl e'
              (lat (handlePanEnd_fl e \<lparr>lat = la, lng = lo, zoom = z\<rparr>
                  (real_of_int kx * TILE_SIZE) (real_of_int ky * TILE_SIZE)))
              (lng (handlePanEnd_fl e \<lparr>lat = la, lng = lo, zoom = z\<rparr>
                  (real_of_int kx * TILE_SIZE) (real_of_int ky * TILE_SIZE))) z)
           - (x (latLngToPreciseTileXY_fl e la lo z) - real_of_int kx)\<bar> \<le> 2 powi z * (2705 / 2 ^ 51)"
    and "\<bar>y (latLngToPreciseTileXY_fl e'
              (lat (handlePanEnd_fl e \<lparr>lat = la, lng = lo, zoom = z\<rparr>
                  (real_of_int kx * TILE_SIZE) (real_of_int ky * TILE_SIZE)))
              (lng (handlePanEnd_fl e \<lparr>lat = la, lng = lo, zoom = z\<rparr>
                  (real_of_int kx * TILE_SIZE) (real_of_int ky * TILE_SIZE))) z)
           - (y (latLngToPreciseTileXY_fl e la lo z) - real_of_int ky)\<bar> \<le> 2 powi z * (2705 / 2 ^ 51)"
    by (simp_all add: x''_def y''_def xt_def yt_def loc'_def)
qed

lemma floor_shift:
  fixes a b m d :: real
  assumes "\<bar>b - (a - real_of_int k)\<bar> \<le> d" "d < m" "m \<le> frac a" "frac a \<le> 1 - m"
  shows "\<lfloor>b\<rfloor> = \<lfloor>a\<rfloor> - k"
proof (rule floor_unique)
  have a: "a = real_of_int \<lfloor>a\<rfloor> + frac a" by (simp add: frac_def)
  show "real_of_int (\<lfloor>a\<rfloor> - k) \<le> b" using assms a by (simp add: abs_le_iff)
  show "b < real_of_int (\<lfloor>a\<rfloor> - k) + 1" using assms a by (simp add: abs_le_iff)
qed

lemma pan_error_small:
  assumes "z \<le> MAX_ZOOM"
  shows "2 powi z * (2705 / 2 ^ 51) < (1 / 10 ^ 5 :: real)"
proof -
  have "2 powi z * (2705 / 2 ^ 51) \<le> (4194304::real) * (2705 / 2 ^ 51)"
    using pow2_le_max[OF assms] by (intro mult_right_mono) simp_all
  also have "\<dots> < 1 / 10 ^ 5" by simp
  finally show ?thesis .
qed

lemma handlePanEnd_fl_zoom: "zoom (handlePanEnd_fl e location panX panY) = zoom location"
  by (simp add: handlePanEnd_fl_def Let_def)

section \<open>Two pans evaluated\<close>

lemma noRounding_exact:
  "latLngToPreciseTileXY_fl noRounding = latLngToPreciseTileXY"
  "preciseTileXYToLatLng_fl noRounding = preciseTileXYToLatLng"
proof -
  have eq: "noRounding = (\<lambda>i. 0)" by (simp add: fun_eq_iff noRounding_def)
  show "latLngToPreciseTileXY_fl noRounding = latLngToPreciseTileXY"
    unfolding eq by (rule fl_exact)
  show "preciseTileXYToLatLng_fl noRounding = preciseTileXYToLatLng"
    unfolding eq by (rule fl_exact)
qed

lemma handlePanEnd_fl_exact: "handlePanEnd_fl noRounding = handlePanEnd"
  by (simp add: fun_eq_iff handlePanEnd_fl_def handlePanEnd_def noRounding_exact Let_def)
     (simp add: noRounding_def rnd_zero)

lemma inverse_lat_bound:
  "\<bar>lat (preciseTileXYToLatLng tx ty z)\<bar> \<le> 180 * \<bar>1 - 2 * ty / 2 powi z\<bar>"
proof -
  define M where "M = pi * (1 - 2 * ty / 2 powi z)"
  have "\<bar>arctan (sinh M)\<bar> \<le> \<bar>M\<bar>" using gd_lipschitz[of M 0] by simp
  then have "\<bar>arctan (sinh M)\<bar> * 180 / pi \<le> \<bar>M\<bar> * 180 / pi"
    by (intro divide_right_mono mult_right_mono) simp_all
  moreover have "\<bar>M\<bar> * 180 / pi = 180 * \<bar>1 - 2 * ty / 2 powi z\<bar>"
    by (simp add: M_def abs_mult)
  moreover have "\<bar>lat (preciseTileXYToLatLng tx ty z)\<bar> = \<bar>arctan (sinh M)\<bar> * 180 / pi"
    by (simp add: preciseTileXYToLatLng_def Let_def M_def abs_mult)
  ultimately show ?thesis by simp
qed

lemma num_65536: "numToString 65536 = ''65536''" "numToString 65485 = ''65485''"
  "numToString 65484 = ''65484''" "numToString 17 = ''17''"
  by (simp_all add: numToString_def natToString.simps digitChar_def)

lemma rowMajor_1: "rowMajor 1 = [(0, 0)]"
  by (simp add: rowMajor_def)

lemma mid_tile_facts:
  "latLngToPreciseTileXY_fl noRounding (lat (preciseTileXYToLatLng (5 / 2) (5 / 2) 2))
     (lng (preciseTileXYToLatLng (5 / 2) (5 / 2) 2)) 2 = \<lparr>x = 5 / 2, y = 5 / 2\<rparr>"
  "\<bar>lat (preciseTileXYToLatLng (5 / 2) (5 / 2) 2)\<bar> \<le> 85"
  "\<bar>lng (preciseTileXYToLatLng (5 / 2) (5 / 2) 2)\<bar> \<le> 180"
  "\<bar>lat (preciseTileXYToLatLng (3 / 2) (3 / 2) 2)\<bar> \<le> 85"
  "\<bar>lng (preciseTileXYToLatLng (3 / 2) (3 / 2) 2)\<bar> \<le> 180"
  "latLngToPreciseTileXY_fl noRounding (lat (preciseTileXYToLatLng (3 / 2) (3 / 2) 2))
     (lng (preciseTileXYToLatLng (3 / 2) (3 / 2) 2)) 2 = \<lparr>x = 3 / 2, y = 3 / 2\<rparr>"
proof -
  show "latLngToPreciseTileXY_fl noRounding (lat (preciseTileXYToLatLng (5 / 2) (5 / 2) 2))
     (lng (preciseTileXYToLatLng (5 / 2) (5 / 2) 2)) 2 = \<lparr>x = 5 / 2, y = 5 / 2\<rparr>"
    unfolding noRounding_exact by (rule tile_geo_tile)
  show "latLngToPreciseTileXY_fl noRounding (lat (preciseTileXYToLatLng (3 / 2) (3 / 2) 2))
     (lng (preciseTileXYToLatLng (3 / 2) (3 / 2) 2)) 2 = \<lparr>x = 3 / 2, y = 3 / 2\<rparr>"
    unfolding noRounding_exact by (rule tile_geo_tile)
  show "\<bar>lat (preciseTileXYToLatLng (5 / 2) (5 / 2) 2)\<bar> \<le> 85"
    using inverse_lat_bound[of "5 / 2" "5 / 2" 2] by simp
  show "\<bar>lat (preciseTileXYToLatLng (3 / 2) (3 / 2) 2)\<bar> \<le> 85"
    using inverse_lat_bound[of "3 / 2" "3 / 2" 2] by simp
  show "\<bar>lng (preciseTileXYToLatLng (5 / 2) (5 / 2) 2)\<bar> \<le> 180"
    by (simp add: preciseTileXYToLatLng_def)
  show "\<bar>lng (preciseTileXYToLatLng (3 / 2) (3 / 2) 2)\<bar> \<le> 180"
    by (simp add: preciseTileXYToLatLng_def)
qed

lemma mid_tile_pan:
  "handlePanEnd_fl noRounding
     \<lparr>lat = lat (preciseTileXYToLatLng (5 / 2) (5 / 2) 2),
      lng = lng (preciseTileXYToLatLng (5 / 2) (5 / 2) 2), zoom = 2\<rparr> (1 * TILE_SIZE) (1 * TILE_SIZE) =
   \<lparr>lat = lat (preciseTileXYToLatLng (3 / 2) (3 / 2) 2),
    lng = lng (preciseTileXYToLatLng (3 / 2) (3 / 2) 2), zoom = 2\<rparr>"
proof -
  have "latLngToPreciseTileXY (lat (preciseTileXYToLatLng (5 / 2) (5 / 2) 2))
     (lng (preciseTileXYToLatLng (5 / 2) (5 / 2) 2)) 2 = \<lparr>x = 5 / 2, y = 5 / 2\<rparr>"
    by (rule tile_geo_tile)
  then show ?thesis
    unfolding handlePanEnd_fl_exact handlePanEnd_def Let_def
    by (simp add: TILE_SIZE_def)
qed

lemma logRoundedUp_bound: "\<bar>logRoundedUp i\<bar> \<le> 1 / 2 ^ 52"
  by (simp add: logRoundedUp_def)

lemma origin_zoom17:
  "latLngToPreciseTileXY_js noRounding 0 0 17 = \<lparr>x_js = Fin 65536, y_js = Fin 65536\<rparr>"
  by (simp add: latLngToPreciseTileXY_js_def noRounding_def rnd_zero jsTan_def jsSub_def)

lemma origin_pan_51:
  "handlePanEnd_fl noRounding \<lparr>lat = 0, lng = 0, zoom = 17\<rparr> (51 * TILE_SIZE) (51 * TILE_SIZE) =
     \<lparr>lat = lat (preciseTileXYToLatLng 65485 65485 17),
      lng = lng (preciseTileXYToLatLng 65485 65485 17), zoom = 17\<rparr>"
proof -
  have "latLngToPreciseTileXY 0 0 17 = \<lparr>x = 65536, y = 65536\<rparr>"
    by (simp add: latLngToPreciseTileXY_def)
  then show ?thesis
    unfolding handlePanEnd_fl_exact handlePanEnd_def Let_def
    by (simp add: TILE_SIZE_def)
qed

lemma panned_projection:
  "latLngToPreciseTileXY_js logRoundedUp (lat (preciseTileXYToLatLng 65485 65485 17))
     (lng (preciseTileXYToLatLng 65485 65485 17)) 17 =
   \<lparr>x_js = Fin 65485, y_js = Fin (65485 - 51 / 2 ^ 52)\<rparr>"
proof -
  define c where "c = preciseTileXYToLatLng 65485 65485 17"
  have la: "\<bar>lat c\<bar> \<le> 85"
    unfolding c_def using inverse_lat_bound[of 65485 65485 17] by simp
  have rad: "(lat c * pi) / 180 = arctan (sinh (pi * (51 / 65536)))"
    by (simp add: c_def preciseTileXYToLatLng_def)
  have lg: "lng c = 65485 / 131072 * 360 - 180"
    by (simp add: c_def preciseTileXYToLatLng_def)
  have "y (latLngToPreciseTileXY_fl logRoundedUp (lat c) (lng c) 17) =
          131072 * (1 - (ln (exp (pi * (51 / 65536))) * (1 + 1 / 2 ^ 52)) / pi) / 2"
    unfolding latLngToPreciseTileXY_fl_def Let_def
    by (simp add: logRoundedUp_def rnd_def rad forward_arg)
  also have "\<dots> = 65485 - 51 / 2 ^ 52" by (simp add: field_simps)
  finally have y: "y (latLngToPreciseTileXY_fl logRoundedUp (lat c) (lng c) 17) = 65485 - 51 / 2 ^ 52" .
  have x: "x (latLngToPreciseTileXY_fl logRoundedUp (lat c) (lng c) 17) = 65485"
    unfolding latLngToPreciseTileXY_fl_def Let_def
    by (simp add: logRoundedUp_def rnd_def lg)
  show ?thesis
    unfolding c_def[symmetric] forward_js_finite[of logRoundedUp, OF logRoundedUp_bound la] x y ..
qed
section \<open>Claims\<close>

text \<open>
  C1. For every centre, zoom and grid dimension \<open>n\<close> the grid builder returns the
  offset \<open>(viewportCenter - targetPixelX, viewportCenter - targetPixelY)\<close>, where the
  target pixel is the fractional centre minus the top-left tile index, times
  \<open>TILE_SIZE\<close>, and the viewport centre is computed from \<open>VISIBLE_GRID_DIMENSION\<close>
  alone: it is 384 whatever \<open>n\<close> is.
\<close>

theorem offset_formula:
  "let preciseCenter = latLngToPreciseTileXY (lat center) (lng center) z;
       topLeftX = \<lfloor>x preciseCenter\<rfloor> - \<lfloor>real_of_int n / 2\<rfloor>;
       topLeftY = \<lfloor>y preciseCenter\<rfloor> - \<lfloor>real_of_int n / 2\<rfloor>;
       targetPixelX = (x preciseCenter - real_of_int topLeftX) * TILE_SIZE;
       targetPixelY = (y preciseCenter - real_of_int topLeftY) * TILE_SIZE;
       viewportCenter =
         (real_of_int (VISIBLE_GRID_DIMENSION - 1) * TILE_SIZE * POSITIONING_FACTOR + TILE_SIZE) / 2
   in (\<exists>cells. getTilesForArea center z n st ak =
         Resolved \<lparr>tiles = cells,
           offset = \<lparr>x = viewportCenter - targetPixelX, y = viewportCenter - targetPixelY\<rparr>\<rparr>)
      \<and> viewportCenter = 384"
  unfolding getTilesForArea_closed Let_def halfGrid_div
  by (simp add: TILE_SIZE_def VISIBLE_GRID_DIMENSION_def POSITIONING_FACTOR_def)

text \<open>
  C2. For every coordinate with a latitude of at most 85 degrees in absolute value
  and every zoom, the inverse projection applied to the forward projection returns
  the coordinate within \<open>1e-9\<close> degrees on each component. In exact arithmetic
  both components are reproduced exactly. When every operation is rounded with a
  relative error of at most \<open>2^-52\<close> and the longitude is at most 180 degrees in
  absolute value, both components are reproduced within \<open>1e-9\<close> degrees.
\<close>

theorem projection_round_trip:
  assumes "\<bar>lat c\<bar> \<le> 85"
  shows "(let t = latLngToPreciseTileXY (lat c) (lng c) z;
              c' = preciseTileXYToLatLng (x t) (y t) z
          in lat c' = lat c \<and> lng c' = lng c) \<and>
         (\<bar>lng c\<bar> \<le> 180 \<and> (\<forall>i. \<bar>e i\<bar> \<le> 1 / 2 ^ 52) \<longrightarrow>
            (let t = latLngToPreciseTileXY_fl e (lat c) (lng c) z;
                 c' = preciseTileXYToLatLng_fl e (x t) (y t) z
             in \<bar>lat c' - lat c\<bar> \<le> 1 / 10 ^ 9 \<and> \<bar>lng c' - lng c\<bar> \<le> 1 / 10 ^ 9))"
proof -
  from assms have "- 90 < lat c" "lat c < 90" by linarith+
  then have exact: "preciseTileXYToLatLng (x (latLngToPreciseTileXY (lat c) (lng c) z))
      (y (latLngToPreciseTileXY (lat c) (lng c) z)) z = \<lparr>lat = lat c, lng = lng c\<rparr>"
    by (rule geo_tile_geo)
  have "\<bar>lat (preciseTileXYToLatLng_fl e (x (latLngToPreciseTileXY_fl e (lat c) (lng c) z))
               (y (latLngToPreciseTileXY_fl e (lat c) (lng c) z)) z) - lat c\<bar> \<le> 1 / 10 ^ 9"
    if "\<forall>i. \<bar>e i\<bar> \<le> 1 / 2 ^ 52"
    using that assms by (intro lat_round_trip_fl) simp_all
  moreover
  have "\<bar>lng (preciseTileXYToLatLng_fl e (x (latLngToPreciseTileXY_fl e (lat c) (lng c) z))
               (y (latLngToPreciseTileXY_fl e (lat c) (lng c) z)) z) - lng c\<bar> \<le> 1 / 10 ^ 9"
    if "\<forall>i. \<bar>e i\<bar> \<le> 1 / 2 ^ 52" "\<bar>lng c\<bar> \<le> 180"
    using that by (intro lng_round_trip_fl) simp_all
  ultimately show ?thesis
    unfolding Let_def exact by simp
qed

theorem projection_round_trip_witness:
  "\<bar>lat \<lparr>lat = 488584 / 10000, lng = 22945 / 10000\<rparr>\<bar> \<le> 85 \<and>
   \<bar>lng \<lparr>lat = 488584 / 10000, lng = 22945 / 10000\<rparr>\<bar> \<le> 180 \<and>
   (\<forall>i::nat. \<bar>0::real\<bar> \<le> 1 / 2 ^ 52) \<and>
   (let t = latLngToPreciseTileXY (488584 / 10000) (22945 / 10000) 17;
        c' = preciseTileXYToLatLng (x t) (y t) 17
    in lat c' = 488584 / 10000 \<and> lng c' = 22945 / 10000) \<and>
   (let t = latLngToPreciseTileXY_fl (\<lambda>i. 0) (488584 / 10000) (22945 / 10000) 17;
        c' = preciseTileXYToLatLng_fl (\<lambda>i. 0) (x t) (y t) 17
    in \<bar>lat c' - 488584 / 10000\<bar> \<le> 1 / 10 ^ 9 \<and> \<bar>lng c' - 22945 / 10000\<bar> \<le> 1 / 10 ^ 9)"
  using projection_round_trip[of "\<lparr>lat = 488584 / 10000, lng = 22945 / 10000\<rparr>" 17 "\<lambda>i. 0"]
  by simp




text \<open>
  C5. The claim is that for every centre the grid built after a pan by whole tiles
  is the grid built before it, shifted by these tiles. The code stores the panned
  centre as a geographic coordinate and the grid builder projects it again before
  \<open>Math.floor\<close>; for a centre on a tile boundary the re-projected position can
  fall on the other side of the integer. From the centre \<open>(0, 0)\<close> at zoom 17,
  tile \<open>(65536, 65536)\<close>, a pan by 51 tiles on both axes leads to the tile
  position \<open>(65485, 65485)\<close>; when \<open>Math.log\<close> returns its result one relative
  error of \<open>2^-52\<close> too large the re-projected row is \<open>65485 - 51 / 2^52\<close>, and
  the grid of one cell holds tile \<open>(65485, 65484)\<close>: the row has moved by 52.
\<close>

theorem pan_boundary_counterexample:
  "getTilesForArea_js noRounding \<lparr>lat = 0, lng = 0\<rparr> 17 1 ''s'' ''k'' =
     Resolved \<lparr>tiles_js =
       [\<lparr>url = ''https://tile.googleapis.com/v1/2dtiles/17/65536/65536?session=s&key=k'',
         gridX = 0, gridY = 0, key = ''17-65536-65536''\<rparr>],
       offset_js = \<lparr>x_js = Fin 384, y_js = Fin 384\<rparr>\<rparr> \<and>
   getTilesForArea_js logRoundedUp
     \<lparr>lat = lat (handlePanEnd_fl noRounding \<lparr>lat = 0, lng = 0, zoom = 17\<rparr> (51 * TILE_SIZE) (51 * TILE_SIZE)),
      lng = lng (handlePanEnd_fl noRounding \<lparr>lat = 0, lng = 0, zoom = 17\<rparr> (51 * TILE_SIZE) (51 * TILE_SIZE))\<rparr>
     17 1 ''s'' ''k'' =
     Resolved \<lparr>tiles_js =
       [\<lparr>url = ''https://tile.googleapis.com/v1/2dtiles/17/65485/65484?session=s&key=k'',
         gridX = 0, gridY = 0, key = ''17-65485-65484''\<rparr>],
       offset_js = \<lparr>x_js = Fin 384, y_js = Fin (128 + 51 / 2 ^ 44)\<rparr>\<rparr>"
proof -
  have fl: "\<lfloor>65485 - 51 / 2 ^ 52 :: real\<rfloor> = 65484"
    by (simp add: floor_eq_iff)
  have A: "getTilesForArea_js noRounding \<lparr>lat = 0, lng = 0\<rparr> 17 1 ''s'' ''k'' =
     Resolved \<lparr>tiles_js =
       [\<lparr>url = ''https://tile.googleapis.com/v1/2dtiles/17/65536/65536?session=s&key=k'',
         gridX = 0, gridY = 0, key = ''17-65536-65536''\<rparr>],
       offset_js = \<lparr>x_js = Fin 384, y_js = Fin 384\<rparr>\<rparr>"
    unfolding getTilesForArea_js_def Let_def outerLoop_js_rowMajor rowMajor_1
    by (simp add: origin_zoom17 tileAt_js_def tileUrl_js_def tileKey_js_def jsSub_def num_65536
          TILE_SIZE_def POSITIONING_FACTOR_def VISIBLE_GRID_DIMENSION_def)
  have B: "getTilesForArea_js logRoundedUp
     \<lparr>lat = lat (preciseTileXYToLatLng 65485 65485 17), lng = lng (preciseTileXYToLatLng 65485 65485 17)\<rparr>
     17 1 ''s'' ''k'' =
     Resolved \<lparr>tiles_js =
       [\<lparr>url = ''https://tile.googleapis.com/v1/2dtiles/17/65485/65484?session=s&key=k'',
         gridX = 0, gridY = 0, key = ''17-65485-65484''\<rparr>],
       offset_js = \<lparr>x_js = Fin 384, y_js = Fin (128 + 51 / 2 ^ 44)\<rparr>\<rparr>"
    unfolding getTilesForArea_js_def Let_def outerLoop_js_rowMajor rowMajor_1
    by (simp add: panned_projection fl tileAt_js_def tileUrl_js_def tileKey_js_def jsSub_def num_65536
          TILE_SIZE_def POSITIONING_FACTOR_def VISIBLE_GRID_DIMENSION_def)
  from A B show ?thesis
    unfolding origin_pan_51 by simp
qed

text \<open>
  C5, as the code has it. Let the centre and the centre after the pan be in the
  Mercator range (latitude at most 85 degrees, longitude at most 180 degrees in
  absolute value), the zoom between \<open>MIN_ZOOM\<close> and \<open>MAX_ZOOM\<close>, the pan at most
  \<open>2^zoom\<close> tiles on each axis, and let the fractional tile position of the centre
  keep a distance of \<open>1 / 10^5\<close> of a tile from the tile boundaries on both axes.
  Then, whatever the rounding errors of the pan resolver and of the two grid
  builds (each at most \<open>2^-52\<close>), the grid built at the location after the pan by
  \<open>(kx, ky)\<close> tiles is the grid built at the location before it with the top-left
  tile moved from \<open>(startX, startY)\<close> to \<open>(startX - kx, startY - ky)\<close>, for every
  grid dimension.
\<close>

theorem pan_grid_shift:
  assumes "\<And>i. \<bar>e i\<bar> \<le> 1 / 2 ^ 52" and "\<And>i. \<bar>e' i\<bar> \<le> 1 / 2 ^ 52"
    and "\<bar>lat location\<bar> \<le> 85" and "\<bar>lng location\<bar> \<le> 180"
    and "MIN_ZOOM \<le> zoom location" and "zoom location \<le> MAX_ZOOM"
    and "\<bar>real_of_int kx\<bar> \<le> 2 powi zoom location" and "\<bar>real_of_int ky\<bar> \<le> 2 powi zoom location"
    and "\<bar>lat (handlePanEnd_fl e location (real_of_int kx * TILE_SIZE) (real_of_int ky * TILE_SIZE))\<bar> \<le> 85"
    and "\<bar>lng (handlePanEnd_fl e location (real_of_int kx * TILE_SIZE) (real_of_int ky * TILE_SIZE))\<bar> \<le> 180"
    and "1 / 10 ^ 5 \<le> frac (x (latLngToPreciseTileXY_fl e (lat location) (lng location) (zoom location)))"
    and "frac (x (latLngToPreciseTileXY_fl e (lat location) (lng location) (zoom location))) \<le> 1 - 1 / 10 ^ 5"
    and "1 / 10 ^ 5 \<le> frac (y (latLngToPreciseTileXY_fl e (lat location) (lng location) (zoom location)))"
    and "frac (y (latLngToPreciseTileXY_fl e (lat location) (lng location) (zoom location))) \<le> 1 - 1 / 10 ^ 5"
  shows "let t = latLngToPreciseTileXY_fl e (lat location) (lng location) (zoom location);
             startX = \<lfloor>x t\<rfloor> - \<lfloor>real_of_int n / 2\<rfloor>;
             startY = \<lfloor>y t\<rfloor> - \<lfloor>real_of_int n / 2\<rfloor>;
             location' = handlePanEnd_fl e location (real_of_int kx * TILE_SIZE) (real_of_int ky * TILE_SIZE)
         in (\<exists>off. getTilesForArea_js e \<lparr>lat = lat location, lng = lng location\<rparr> (zoom location) n st ak =
               Resolved \<lparr>tiles_js = map (\<lambda>(i, j). tileAt (zoom location) st ak startX startY i j) (rowMajor n),
                         offset_js = off\<rparr>) \<and>
            (\<exists>off. getTilesForArea_js e' \<lparr>lat = lat location', lng = lng location'\<rparr> (zoom location') n st ak =
               Resolved \<lparr>tiles_js = map (\<lambda>(i, j). tileAt (zoom location) st ak (startX - kx) (startY - ky) i j)
                                       (rowMajor n),
                         offset_js = off\<rparr>)"
proof -
  define z where "z = zoom location"
  define loc' where "loc' = handlePanEnd_fl e location (real_of_int kx * TILE_SIZE) (real_of_int ky * TILE_SIZE)"
  define t where "t = latLngToPreciseTileXY_fl e (lat location) (lng location) z"
  define t' where "t' = latLngToPreciseTileXY_fl e' (lat loc') (lng loc') z"
  have loc: "location = \<lparr>lat = lat location, lng = lng location, zoom = z\<rparr>"
    by (simp add: z_def)
  have small: "2 powi z * (2705 / 2 ^ 51) < (1 / 10 ^ 5 :: real)"
    unfolding z_def by (rule pan_error_small[OF assms(6)])
  have la': "\<bar>lat (handlePanEnd_fl e \<lparr>lat = lat location, lng = lng location, zoom = z\<rparr>
                  (real_of_int kx * TILE_SIZE) (real_of_int ky * TILE_SIZE))\<bar> \<le> 85"
    and lo': "\<bar>lng (handlePanEnd_fl e \<lparr>lat = lat location, lng = lng location, zoom = z\<rparr>
                  (real_of_int kx * TILE_SIZE) (real_of_int ky * TILE_SIZE))\<bar> \<le> 180"
    using assms(9,10) loc by simp_all
  from pan_reproject[where e = e and e' = e' and la = "lat location" and lo = "lng location" and z = z
      and kx = kx and ky = ky, OF assms(1) assms(2) assms(3) assms(4) assms(7)[folded z_def] assms(8)[folded z_def] la' lo']
  have ex: "\<bar>x t' - (x t - real_of_int kx)\<bar> \<le> 2 powi z * (2705 / 2 ^ 51)"
    and ey: "\<bar>y t' - (y t - real_of_int ky)\<bar> \<le> 2 powi z * (2705 / 2 ^ 51)"
    unfolding t_def t'_def loc'_def using loc by simp_all
  have fx: "\<lfloor>x t'\<rfloor> = \<lfloor>x t\<rfloor> - kx"
    using floor_shift[OF ex small] assms(11,12) by (simp add: t_def z_def)
  have fy: "\<lfloor>y t'\<rfloor> = \<lfloor>y t\<rfloor> - ky"
    using floor_shift[OF ey small] assms(13,14) by (simp add: t_def z_def)
  have zl: "zoom loc' = z" by (simp add: loc'_def handlePanEnd_fl_zoom z_def)
  have la2: "\<bar>lat \<lparr>lat = lat loc', lng = lng loc'\<rparr>\<bar> \<le> 85" using assms(9) by (simp add: loc'_def)
  have la1: "\<bar>lat \<lparr>lat = lat location, lng = lng location\<rparr>\<bar> \<le> 85" using assms(3) by simp
  from getTilesForArea_js_finite[of e "\<lparr>lat = lat location, lng = lng location\<rparr>" z n st ak, OF assms(1) la1]
  obtain off1 where g1: "getTilesForArea_js e \<lparr>lat = lat location, lng = lng location\<rparr> z n st ak =
       Resolved \<lparr>tiles_js = map (\<lambda>(i, j). tileAt z st ak
                  (\<lfloor>x t\<rfloor> - \<lfloor>real_of_int n / 2\<rfloor>) (\<lfloor>y t\<rfloor> - \<lfloor>real_of_int n / 2\<rfloor>) i j) (rowMajor n),
         offset_js = off1\<rparr>"
    unfolding t_def by auto
  from getTilesForArea_js_finite[of e' "\<lparr>lat = lat loc', lng = lng loc'\<rparr>" z n st ak, OF assms(2) la2]
  obtain off2 where g2: "getTilesForArea_js e' \<lparr>lat = lat loc', lng = lng loc'\<rparr> z n st ak =
       Resolved \<lparr>tiles_js = map (\<lambda>(i, j). tileAt z st ak
                  (\<lfloor>x t'\<rfloor> - \<lfloor>real_of_int n / 2\<rfloor>) (\<lfloor>y t'\<rfloor> - \<lfloor>real_of_int n / 2\<rfloor>) i j) (rowMajor n),
         offset_js = off2\<rparr>"
    unfolding t'_def by auto
  have sh: "\<lfloor>x t\<rfloor> - kx - \<lfloor>real_of_int n / 2\<rfloor> = \<lfloor>x t\<rfloor> - \<lfloor>real_of_int n / 2\<rfloor> - kx"
           "\<lfloor>y t\<rfloor> - ky - \<lfloor>real_of_int n / 2\<rfloor> = \<lfloor>y t\<rfloor> - \<lfloor>real_of_int n / 2\<rfloor> - ky"
    by simp_all
  from g2 have g2': "getTilesForArea_js e' \<lparr>lat = lat loc', lng = lng loc'\<rparr> (zoom loc') n st ak =
       Resolved \<lparr>tiles_js = map (\<lambda>(i, j). tileAt z st ak
                  (\<lfloor>x t\<rfloor> - \<lfloor>real_of_int n / 2\<rfloor> - kx) (\<lfloor>y t\<rfloor> - \<lfloor>real_of_int n / 2\<rfloor> - ky) i j) (rowMajor n),
         offset_js = off2\<rparr>"
    unfolding fx fy sh zl .
  from g1 g2' show ?thesis
    unfolding Let_def z_def[symmetric] loc'_def[symmetric] t_def[symmetric] by blast
qed

theorem pan_grid_shift_witness:
  "let location = \<lparr>lat = lat (preciseTileXYToLatLng (5 / 2) (5 / 2) 2),
                    lng = lng (preciseTileXYToLatLng (5 / 2) (5 / 2) 2), zoom = 2\<rparr>;
       location' = handlePanEnd_fl noRounding location (real_of_int 1 * TILE_SIZE) (real_of_int 1 * TILE_SIZE);
       t = latLngToPreciseTileXY_fl noRounding (lat location) (lng location) (zoom location)
   in \<bar>noRounding 0\<bar> \<le> 1 / 2 ^ 52 \<and>
      \<bar>lat location\<bar> \<le> 85 \<and> \<bar>lng location\<bar> \<le> 180 \<and>
      MIN_ZOOM \<le> zoom location \<and> zoom location \<le> MAX_ZOOM \<and>
      \<bar>real_of_int 1\<bar> \<le> 2 powi zoom location \<and>
      \<bar>lat location'\<bar> \<le> 85 \<and> \<bar>lng location'\<bar> \<le> 180 \<and>
      1 / 10 ^ 5 \<le> frac (x t) \<and> frac (x t) \<le> 1 - 1 / 10 ^ 5 \<and>
      1 / 10 ^ 5 \<le> frac (y t) \<and> frac (y t) \<le> 1 - 1 / 10 ^ 5 \<and>
      (\<exists>off. getTilesForArea_js noRounding \<lparr>lat = lat location, lng = lng location\<rparr> 2 1 ''s'' ''k'' =
         Resolved \<lparr>tiles_js = [tileAt 2 ''s'' ''k'' 2 2 0 0], offset_js = off\<rparr>) \<and>
      (\<exists>off. getTilesForArea_js noRounding \<lparr>lat = lat location', lng = lng location'\<rparr> 2 1 ''s'' ''k'' =
         Resolved \<lparr>tiles_js = [tileAt 2 ''s'' ''k'' 1 1 0 0], offset_js = off\<rparr>)"
proof -
  have fr: "frac (5 / 2 :: real) = 1 / 2"
    by (simp add: frac_def)
  have h: "\<lfloor>real_of_int 1 / 2\<rfloor> = 0" by simp
  show ?thesis
    using pan_grid_shift[where e = noRounding and e' = noRounding
        and location = "\<lparr>lat = lat (preciseTileXYToLatLng (5 / 2) (5 / 2) 2),
                    lng = lng (preciseTileXYToLatLng (5 / 2) (5 / 2) 2), zoom = 2\<rparr>"
        and kx = 1 and ky = 1 and n = 1 and st = "''s''" and ak = "''k''"]
    by (simp add: Let_def mid_tile_facts mid_tile_pan[simplified] fr rowMajor_1 noRounding_def
          MIN_ZOOM_def MAX_ZOOM_def)
qed




text \<open>
  C7. When the fractional tile coordinate of the centre has no fractional part on
  either axis, the offset is the viewport centre minus the pixel origin of the middle
  cell, \<open>floor (n / 2) * TILE_SIZE * POSITIONING_FACTOR\<close> per axis. (This holds for
  every \<open>n\<close>, odd or not.)
\<close>

theorem offset_on_tile_boundary:
  assumes "frac (x (latLngToPreciseTileXY (lat center) (lng center) z)) = 0"
    and "frac (y (latLngToPreciseTileXY (lat center) (lng center) z)) = 0"
  shows "let viewportCenter =
               (real_of_int (VISIBLE_GRID_DIMENSION - 1) * TILE_SIZE * POSITIONING_FACTOR + TILE_SIZE) / 2;
             middleCellPixelOrigin =
               real_of_int \<lfloor>real_of_int n / 2\<rfloor> * TILE_SIZE * POSITIONING_FACTOR
         in \<exists>cells. getTilesForArea center z n st ak =
              Resolved \<lparr>tiles = cells,
                offset = \<lparr>x = viewportCenter - middleCellPixelOrigin,
                          y = viewportCenter - middleCellPixelOrigin\<rparr>\<rparr>"
proof -
  from assms
  have "real_of_int \<lfloor>x (latLngToPreciseTileXY (lat center) (lng center) z)\<rfloor> =
          x (latLngToPreciseTileXY (lat center) (lng center) z)"
    and "real_of_int \<lfloor>y (latLngToPreciseTileXY (lat center) (lng center) z)\<rfloor> =
          y (latLngToPreciseTileXY (lat center) (lng center) z)"
    by (simp_all add: frac_def)
  then show ?thesis
    unfolding getTilesForArea_closed Let_def halfGrid_div
    by (simp add: TILE_SIZE_def VISIBLE_GRID_DIMENSION_def POSITIONING_FACTOR_def)
qed

theorem offset_on_tile_boundary_witness:
  "frac (x (latLngToPreciseTileXY 0 0 1)) = 0 \<and> frac (y (latLngToPreciseTileXY 0 0 1)) = 0 \<and>
   (\<exists>cells. getTilesForArea \<lparr>lat = 0, lng = 0\<rparr> 1 5 ''s'' ''k'' =
      Resolved \<lparr>tiles = cells, offset = \<lparr>x = 384 - 2 * 256, y = 384 - 2 * 256\<rparr>\<rparr>)"
  using offset_on_tile_boundary[of "\<lparr>lat = 0, lng = 0\<rparr>" 1 5 "''s''" "''k''"]
  by (simp add: tile_of_origin_zoom1 TILE_SIZE_def VISIBLE_GRID_DIMENSION_def POSITIONING_FACTOR_def)

text \<open>
  C8. For every centre, zoom and grid dimension \<open>n \<ge> 0\<close> (in particular every odd
  \<open>n \<ge> 1\<close>) the grid builder resolves with a tile list of length exactly
  \<open>n * n\<close>.
\<close>

theorem grid_size:
  assumes "0 \<le> n"
  shows "\<exists>d. getTilesForArea center z n st ak = Resolved d \<and> int (length (tiles d)) = n * n"
  unfolding getTilesForArea_closed using length_rowMajor[OF assms] by simp

theorem grid_size_witness:
  "(0::int) \<le> 5 \<and>
   (\<exists>d. getTilesForArea \<lparr>lat = 488584 / 10000, lng = 22945 / 10000\<rparr> 17 5 ''s'' ''k'' = Resolved d \<and>
        int (length (tiles d)) = 5 * 5)"
  using grid_size[of 5 "\<lparr>lat = 488584 / 10000, lng = 22945 / 10000\<rparr>" 17 "''s''" "''k''"] by simp

text \<open>
  C9. A zero pixel delta is a no-op of the pan resolver: \<open>handlePanEnd\<close> returns
  before any arithmetic when both deltas are zero, so the location after the call is
  the location before it, exactly.
\<close>

theorem pan_zero_noop: "handlePanEnd location 0 0 = location"
  by (simp add: handlePanEnd_def)

text \<open>
  C10. The claim is that for every centre, zoom and grid dimension the cells of one
  grid have pairwise distinct tile indices and pairwise distinct keys. The centre at
  latitude \<open>-90\<close> is a counterexample: the tangent and the reciprocal of the cosine
  of the latitude cancel, \<open>Math.log\<close> returns \<open>-Infinity\<close>, the tile row of the
  centre is \<open>Infinity\<close>, and so is \<open>startY + i\<close> for every row \<open>i\<close>. The
  nine cells of the 3 by 3 grid at zoom 1 carry three keys, each three times.
\<close>

theorem south_pole_counterexample:
  "getTilesForArea_js southPoleRounding \<lparr>lat = - 90, lng = 0\<rparr> 1 3 ''s'' ''k'' =
     Resolved \<lparr>tiles_js =
       [\<lparr>url = ''https://tile.googleapis.com/v1/2dtiles/1/0/Infinity?session=s&key=k'',
         gridX = 0, gridY = 0, key = ''1-0-Infinity''\<rparr>,
        \<lparr>url = ''https://tile.googleapis.com/v1/2dtiles/1/1/Infinity?session=s&key=k'',
         gridX = 1, gridY = 0, key = ''1-1-Infinity''\<rparr>,
        \<lparr>url = ''https://tile.googleapis.com/v1/2dtiles/1/2/Infinity?session=s&key=k'',
         gridX = 2, gridY = 0, key = ''1-2-Infinity''\<rparr>,
        \<lparr>url = ''https://tile.googleapis.com/v1/2dtiles/1/0/Infinity?session=s&key=k'',
         gridX = 0, gridY = 1, key = ''1-0-Infinity''\<rparr>,
        \<lparr>url = ''https://tile.googleapis.com/v1/2dtiles/1/1/Infinity?session=s&key=k'',
         gridX = 1, gridY = 1, key = ''1-1-Infinity''\<rparr>,
        \<lparr>url = ''https://tile.googleapis.com/v1/2dtiles/1/2/Infinity?session=s&key=k'',
         gridX = 2, gridY = 1, key = ''1-2-Infinity''\<rparr>,
        \<lparr>url = ''https://tile.googleapis.com/v1/2dtiles/1/0/Infinity?session=s&key=k'',
         gridX = 0, gridY = 2, key = ''1-0-Infinity''\<rparr>,
        \<lparr>url = ''https://tile.googleapis.com/v1/2dtiles/1/1/Infinity?session=s&key=k'',
         gridX = 1, gridY = 2, key = ''1-1-Infinity''\<rparr>,
        \<lparr>url = ''https://tile.googleapis.com/v1/2dtiles/1/2/Infinity?session=s&key=k'',
         gridX = 2, gridY = 2, key = ''1-2-Infinity''\<rparr>],
       offset_js = \<lparr>x_js = Fin 128, y_js = NaN\<rparr>\<rparr>"
proof -
  have num: "numToString 0 = ''0''" "numToString 1 = ''1''" "numToString 2 = ''2''"
    by (simp_all add: numToString_def natToString.simps digitChar_def)
  show ?thesis
    unfolding getTilesForArea_js_def Let_def outerLoop_js_rowMajor rowMajor_3
    by (simp add: southPole_projection tileAt_js_def tileUrl_js_def tileKey_js_def jsSub_def num
          TILE_SIZE_def POSITIONING_FACTOR_def VISIBLE_GRID_DIMENSION_def)
qed

text \<open>
  C10, as the code has it. For a centre in the Mercator range (a latitude of at most
  85 degrees and a longitude of at most 180 degrees in absolute value) and a zoom
  from \<open>MIN_ZOOM\<close> to \<open>MAX_ZOOM\<close>, whatever the rounding errors of the projection
  (each at most \<open>2^-52\<close>): the grid builder resolves, its cells are those of the
  tile indices \<open>(startX + j, startY + i)\<close> in row-major order, these indices are
  pairwise distinct and so are the keys, and the tile indices of the centre are
  integers below \<open>2^25\<close> in magnitude.
\<close>

theorem grid_tiles_distinct:
  assumes "\<bar>lat center\<bar> \<le> 85" and "\<bar>lng center\<bar> \<le> 180"
    and "MIN_ZOOM \<le> z" and "z \<le> MAX_ZOOM"
    and "\<And>i. \<bar>e i\<bar> \<le> 1 / 2 ^ 52"
  shows "let preciseCenter = latLngToPreciseTileXY_fl e (lat center) (lng center) z;
             startX = \<lfloor>x preciseCenter\<rfloor> - \<lfloor>real_of_int n / 2\<rfloor>;
             startY = \<lfloor>y preciseCenter\<rfloor> - \<lfloor>real_of_int n / 2\<rfloor>
         in \<exists>d. getTilesForArea_js e center z n st ak = Resolved d \<and>
              tiles_js d = map (\<lambda>(i, j). tileAt z st ak startX startY i j) (rowMajor n) \<and>
              map key (tiles_js d) = map (\<lambda>(i, j). tileKey z (startX + j) (startY + i)) (rowMajor n) \<and>
              distinct (map (\<lambda>(i, j). (startX + j, startY + i)) (rowMajor n)) \<and>
              distinct (map key (tiles_js d)) \<and>
              \<bar>\<lfloor>x preciseCenter\<rfloor>\<bar> < 2 ^ 25 \<and> \<bar>\<lfloor>y preciseCenter\<rfloor>\<bar> < 2 ^ 25"
proof -
  have k: "key \<circ> (\<lambda>(i, j). tileAt z st ak sx sy i j) =
        (\<lambda>(i, j). tileKey z (sx + j) (sy + i))" for sx sy
    by (auto simp: fun_eq_iff tileAt_def)
  from getTilesForArea_js_finite[of e center z n st ak, OF assms(5) assms(1)]
  obtain off where "getTilesForArea_js e center z n st ak =
     Resolved \<lparr>tiles_js = map (\<lambda>(i, j). tileAt z st ak
                  (\<lfloor>x (latLngToPreciseTileXY_fl e (lat center) (lng center) z)\<rfloor> - \<lfloor>real_of_int n / 2\<rfloor>)
                  (\<lfloor>y (latLngToPreciseTileXY_fl e (lat center) (lng center) z)\<rfloor> - \<lfloor>real_of_int n / 2\<rfloor>) i j)
                (rowMajor n),
       offset_js = off\<rparr>" by blast
  moreover note center_index_bounds[where e = e and la = "lat center" and lo = "lng center" and z = z,
      OF assms(5) assms(1) assms(2) assms(4)]
  ultimately show ?thesis
    unfolding Let_def by (simp add: k distinct_indices distinct_keys)
qed

theorem grid_tiles_distinct_witness:
  "\<bar>lat \<lparr>lat = 0, lng = 0\<rparr>\<bar> \<le> 85 \<and> \<bar>lng \<lparr>lat = 0, lng = 0\<rparr>\<bar> \<le> 180 \<and>
   MIN_ZOOM \<le> 1 \<and> 1 \<le> MAX_ZOOM \<and> \<bar>0::real\<bar> \<le> 1 / 2 ^ 52 \<and>
   (\<exists>d. getTilesForArea_js (\<lambda>i. 0) \<lparr>lat = 0, lng = 0\<rparr> 1 3 ''s'' ''k'' = Resolved d \<and>
        map key (tiles_js d) =
          [''1-0-0'', ''1-1-0'', ''1-2-0'', ''1-0-1'', ''1-1-1'', ''1-2-1'', ''1-0-2'', ''1-1-2'', ''1-2-2''] \<and>
        distinct (map key (tiles_js d)))"
proof -
  have num: "numToString 0 = ''0''" "numToString 1 = ''1''" "numToString 2 = ''2''"
    by (simp_all add: numToString_def natToString.simps digitChar_def)
  show ?thesis
    using grid_tiles_distinct[of "\<lparr>lat = 0, lng = 0\<rparr>" 1 "\<lambda>i. 0" 3 "''s''" "''k''"]
    by (auto simp: MIN_ZOOM_def MAX_ZOOM_def fl_origin_zoom1 rowMajor_3 tileKey_def num Let_def)
qed

end
